(* ===== verification/Prelude.thy ===== *)
theory Prelude
  imports
    Main
    "HOL-Library.Sublist"
    "HOL-Library.Char_ord"
    "HOL-Library.List_Lexorder"
    "HOL-Library.Code_Target_Numeral"
begin

text \<open>
  What every component of the development shares: the theorem collections, lemmas on lists and
  options that the standard library does not have in the form needed here, and the decimal
  rendering of numbers that \<^verbatim>\<open>fmt.Sprint\<close> and \<^verbatim>\<open>%d\<close> produce. A Go string or byte slice is a
  \<^typ>\<open>string\<close>: a list of bytes, so that \<^verbatim>\<open>len\<close> is \<^const>\<open>length\<close> and slicing is \<^const>\<open>take\<close> and
  \<^const>\<open>drop\<close>.
\<close>

named_theorems go_str \<open>equations that evaluate the string operations\<close>
named_theorems smtp_err \<open>the constant SMTP answers of the gateway\<close>
named_theorems pipeline \<open>one equation per stage of the message pipeline\<close>

type_synonym bytes = "char list"

abbreviation LF :: char where "LF \<equiv> CHR 0x0A"
abbreviation CR :: char where "CR \<equiv> CHR 0x0D"
abbreviation TAB :: char where "TAB \<equiv> CHR 0x09"
abbreviation SP :: char where "SP \<equiv> CHR '' ''"
abbreviation AT :: char where "AT \<equiv> CHR ''@''"
abbreviation COLON :: char where "COLON \<equiv> CHR '':''"
abbreviation CRLF :: string where "CRLF \<equiv> [CR, LF]"


section \<open>Lists split at a separator\<close>

lemma takeWhile_neq_append [simp]:
  "c \<notin> set a \<Longrightarrow> takeWhile (\<lambda>x. x \<noteq> c) (a @ c # b) = a"
  by (induction a) auto

lemma dropWhile_neq_append [simp]:
  "c \<notin> set a \<Longrightarrow> dropWhile (\<lambda>x. x \<noteq> c) (a @ c # b) = c # b"
  by (induction a) auto

lemma takeWhile_neq_id [simp]: "c \<notin> set a \<Longrightarrow> takeWhile (\<lambda>x. x \<noteq> c) a = a"
  by (induction a) auto

lemma notin_takeWhile_neq [simp]: "c \<notin> set (takeWhile (\<lambda>x. x \<noteq> c) a)"
  by (induction a) auto

lemma split_at_first:
  "c \<in> set s \<Longrightarrow> s = takeWhile (\<lambda>x. x \<noteq> c) s @ c # tl (dropWhile (\<lambda>x. x \<noteq> c) s)"
  by (induction s) auto

text \<open>A separator that neither left part contains splits a string in one way only, whether it is
  searched from the front or from the back.\<close>

lemma append_sep_inject:
  assumes "a @ c # x = b @ c # y" and "c \<notin> set a" and "c \<notin> set b"
  shows "a = b \<and> x = y"
proof -
  have "takeWhile (\<lambda>z. z \<noteq> c) (a @ c # x) = takeWhile (\<lambda>z. z \<noteq> c) (b @ c # y)"
    using assms(1) by simp
  with assms(2,3) have "a = b" by simp
  with assms(1) show ?thesis by simp
qed

lemma append_sep_inject_rev:
  assumes "x @ c # a = y @ c # b" and "c \<notin> set a" and "c \<notin> set b"
  shows "x = y \<and> a = b"
proof -
  from assms(1) have "rev (x @ c # a) = rev (y @ c # b)" by simp
  then have "rev a @ c # rev x = rev b @ c # rev y" by simp
  with assms(2,3) have "rev a = rev b \<and> rev x = rev y"
    by (intro append_sep_inject) auto
  then show ?thesis by simp
qed

lemma suffix_drop_length:
  "suffix p s \<Longrightarrow> take (length s - length p) s @ p = s"
  by (auto simp: suffix_def)

lemma prefix_drop_length: "prefix p s \<Longrightarrow> p @ drop (length p) s = s"
  by (auto simp: prefix_def)


section \<open>Folds that stop\<close>

lemma find_None_all: "find P xs = None \<longleftrightarrow> (\<forall>x \<in> set xs. \<not> P x)"
  by (induction xs) auto

lemma find_SomeD: "find P xs = Some x \<Longrightarrow> x \<in> set xs \<and> P x"
  by (induction xs) (auto split: if_splits)

lemma filter_eq_self: "(\<And>x. x \<in> set xs \<Longrightarrow> P x) \<Longrightarrow> filter P xs = xs"
  by (induction xs) auto


lemma find_unique:
  assumes "x \<in> set xs" "P x" "\<And>y. y \<in> set xs \<Longrightarrow> P y \<Longrightarrow> y = x"
  shows "find P xs = Some x"
proof (cases "find P xs")
  case None
  then show ?thesis using assms(1,2) by (simp add: find_None_iff)
next
  case (Some y)
  then have "y \<in> set xs" "P y" by (auto simp: find_Some_iff)
  then show ?thesis using Some assms(3) by simp
qed

text \<open>Two digits in a base determine the number and are determined by it.\<close>

lemma base_inject:
  assumes "x * k + y = x' * k + (y'::nat)" "y < k" "y' < k"
  shows "x = x' \<and> y = y'"
proof -
  have "x = (x * k + y) div k" using assms(2) by simp
  also have "\<dots> = (x' * k + y') div k" unfolding assms(1) ..
  also have "\<dots> = x'" using assms(3) by simp
  finally have "x = x'" .
  with assms(1) show ?thesis by simp
qed


lemma enumerate_mem: "x \<in> set xs \<Longrightarrow> \<exists>i. (i, x) \<in> set (enumerate n xs)"
  by (induction xs arbitrary: n) auto


section \<open>Decimal numbers\<close>

text \<open>\<^verbatim>\<open>%d\<close> on a number that is not negative, and on any number.\<close>

fun show_nat :: "nat \<Rightarrow> string" where
  "show_nat n =
     (if n < 10 then [char_of (48 + n)] else show_nat (n div 10) @ [char_of (48 + n mod 10)])"

declare show_nat.simps [simp del]

definition show_int :: "int \<Rightarrow> string" where
  "show_int i = (if i < 0 then CHR ''-'' # show_nat (nat (- i)) else show_nat (nat i))"

definition digit_val :: "char \<Rightarrow> nat" where
  "digit_val c = of_char c - 48"

definition is_digit :: "char \<Rightarrow> bool" where
  "is_digit c \<longleftrightarrow> (48::nat) \<le> of_char c \<and> of_char c \<le> (57::nat)"

definition read_nat :: "string \<Rightarrow> nat" where
  "read_nat s = foldl (\<lambda>n c. 10 * n + digit_val c) 0 s"

lemma digit_val_digit: "(d::nat) < 10 \<Longrightarrow> digit_val (char_of (48 + d)) = d"
  by (simp add: digit_val_def of_char_of)

lemma is_digit_digit: "(d::nat) < 10 \<Longrightarrow> is_digit (char_of (48 + d))"
  by (simp add: is_digit_def of_char_of)

lemma show_nat_digits: "\<forall>c \<in> set (show_nat n). is_digit c"
proof (induction n rule: show_nat.induct)
  case (1 n)
  then show ?case
    by (subst show_nat.simps) (auto simp: is_digit_digit)
qed

lemma show_nat_nonempty [simp]: "show_nat n \<noteq> []"
  by (subst show_nat.simps) simp

lemma read_show_nat [simp]: "read_nat (show_nat n) = n"
proof (induction n rule: show_nat.induct)
  case (1 n)
  show ?case
  proof (cases "n < 10")
    case True
    then show ?thesis
      by (subst show_nat.simps) (simp add: read_nat_def digit_val_digit)
  next
    case False
    with "1.IH" have "read_nat (show_nat (n div 10)) = n div 10" by simp
    with False show ?thesis
      by (subst show_nat.simps) (simp add: read_nat_def digit_val_digit)
  qed
qed

lemma show_nat_inject [simp]: "show_nat m = show_nat n \<longleftrightarrow> m = n"
proof
  assume "show_nat m = show_nat n"
  then have "read_nat (show_nat m) = read_nat (show_nat n)" by simp
  then show "m = n" by simp
qed simp

lemma not_digit_notin_show_nat: "\<not> is_digit c \<Longrightarrow> c \<notin> set (show_nat n)"
  using show_nat_digits by blast

lemma minus_notin_show_nat [simp]: "CHR ''-'' \<notin> set (show_nat n)"
  by (rule not_digit_notin_show_nat) (simp add: is_digit_def)

lemma colon_notin_show_nat [simp]: "COLON \<notin> set (show_nat n)"
  by (rule not_digit_notin_show_nat) (simp add: is_digit_def)

lemma colon_notin_show_int [simp]: "COLON \<notin> set (show_int i)"
  by (simp add: show_int_def)

lemma show_int_inject [simp]: "show_int i = show_int j \<longleftrightarrow> i = j"
proof
  assume eq: "show_int i = show_int j"
  have minus: "hd (show_nat n) \<noteq> CHR ''-''" for n
    using hd_in_set [OF show_nat_nonempty [of n]] minus_notin_show_nat [of n] by metis
  show "i = j"
  proof (cases "i < 0"; cases "j < 0")
    assume "i < 0" "\<not> j < 0"
    with eq minus [of "nat j"] show ?thesis by (metis list.sel(1) show_int_def)
  next
    assume "\<not> i < 0" "j < 0"
    with eq minus [of "nat i"] show ?thesis by (metis list.sel(1) show_int_def)
  qed (use eq in \<open>auto simp: show_int_def\<close>)
qed simp


section \<open>Maps filled in order\<close>

lemma fold_upd_some:
  "fold (\<lambda>k m. m(f k \<mapsto> g k)) ks m d = Some v \<Longrightarrow> (\<exists>k \<in> set ks. d = f k \<and> v = g k) \<or> m d = Some v"
proof (induction ks arbitrary: m)
  case (Cons k ks)
  then have "(\<exists>j \<in> set ks. d = f j \<and> v = g j) \<or> (m(f k \<mapsto> g k)) d = Some v"
    by (simp only: fold_simps)
  then show ?case by (auto split: if_splits)
qed simp

lemma fold_upd_mem:
  "k \<in> set ks \<Longrightarrow> distinct (map f ks) \<Longrightarrow> fold (\<lambda>k m. m(f k \<mapsto> g k)) ks m (f k) = Some (g k)"
proof (induction ks arbitrary: m)
  case (Cons j ks)
  have keep: "d \<notin> f ` set ks \<Longrightarrow> fold (\<lambda>k m. m(f k \<mapsto> g k)) ks m d = m d" for d m
    by (induction ks arbitrary: m) auto
  show ?case
  proof (cases "k = j")
    case True
    have "fold (\<lambda>k m. m(f k \<mapsto> g k)) ks (m(f j \<mapsto> g j)) (f j) = (m(f j \<mapsto> g j)) (f j)"
      using Cons.prems by (intro keep) simp
    then show ?thesis using True by (simp only: fold_simps fun_upd_same)
  next
    case False
    then have "fold (\<lambda>k m. m(f k \<mapsto> g k)) ks (m(f j \<mapsto> g j)) (f k) = Some (g k)"
      using Cons.prems by (intro Cons.IH) auto
    then show ?thesis by (simp only: fold_simps)
  qed
qed simp


section \<open>Bits\<close>

text \<open>\<^verbatim>\<open>BitLen\<close>: how many binary digits a number has.\<close>

fun bit_len :: "nat \<Rightarrow> nat" where
  "bit_len n = (if n = 0 then 0 else Suc (bit_len (n div 2)))"

declare bit_len.simps [simp del]

lemma bit_len_le: "bit_len n \<le> m \<longleftrightarrow> n < 2 ^ m"
proof (induction n arbitrary: m rule: bit_len.induct)
  case (1 n)
  show ?case
  proof (cases "n = 0")
    case True
    then show ?thesis by (simp add: bit_len.simps)
  next
    case False
    show ?thesis
    proof (cases m)
      case 0
      then show ?thesis using False by (simp add: bit_len.simps [of n])
    next
      case (Suc k)
      have "n div 2 < 2 ^ k \<longleftrightarrow> n < 2 ^ Suc k" by (simp add: div_less_iff_less_mult mult.commute)
      then show ?thesis using 1 [OF False, of k] False Suc by (simp add: bit_len.simps [of n])
    qed
  qed
qed

end
