(* ===== verification/Go_Strings.thy ===== *)
theory Go_Strings
  imports Prelude
begin

text \<open>
  The operations of Go's \<^verbatim>\<open>strings\<close> and \<^verbatim>\<open>bytes\<close> packages that look at bytes only: searching,
  cutting, trimming a fixed prefix, suffix or cutset. \<^verbatim>\<open>strings.HasPrefix\<close> and
  \<^verbatim>\<open>strings.HasSuffix\<close> are the library's \<^const>\<open>prefix\<close> and \<^const>\<open>suffix\<close>, and
  \<^verbatim>\<open>strings.Contains\<close> with one byte is membership.
\<close>


section \<open>Searching and cutting\<close>

text \<open>\<^verbatim>\<open>strings.Cut\<close> with a one-byte separator: what is before and after its first occurrence, and
  whether there is one.\<close>

definition cut :: "char \<Rightarrow> string \<Rightarrow> string \<times> string \<times> bool" where
  "cut c s =
     (if c \<in> set s
      then (takeWhile (\<lambda>x. x \<noteq> c) s, tl (dropWhile (\<lambda>x. x \<noteq> c) s), True)
      else (s, [], False))"

definition index_char :: "char \<Rightarrow> string \<Rightarrow> nat option" where
  "index_char c s = (if c \<in> set s then Some (length (takeWhile (\<lambda>x. x \<noteq> c) s)) else None)"

definition last_index :: "char \<Rightarrow> string \<Rightarrow> nat option" where
  "last_index c s =
     (if c \<in> set s then Some (length s - 1 - length (takeWhile (\<lambda>x. x \<noteq> c) (rev s))) else None)"

text \<open>\<^verbatim>\<open>bytes.Index\<close>: the position of the first occurrence of a substring.\<close>

fun index_sub :: "string \<Rightarrow> string \<Rightarrow> nat option" where
  "index_sub p [] = (if p = [] then Some 0 else None)"
| "index_sub p (c # s) = (if prefix p (c # s) then Some 0 else map_option Suc (index_sub p s))"

definition trim_prefix :: "string \<Rightarrow> string \<Rightarrow> string" where
  "trim_prefix s p = (if prefix p s then drop (length p) s else s)"

definition trim_suffix :: "string \<Rightarrow> string \<Rightarrow> string" where
  "trim_suffix s p = (if suffix p s then take (length s - length p) s else s)"

text \<open>\<^verbatim>\<open>strings.TrimRight\<close> with a cutset of ASCII bytes.\<close>

definition trim_right :: "string \<Rightarrow> string \<Rightarrow> string" where
  "trim_right s cutset = rev (dropWhile (\<lambda>c. c \<in> set cutset) (rev s))"

lemma cut_found [simp]: "c \<notin> set a \<Longrightarrow> cut c (a @ c # b) = (a, b, True)"
  by (simp add: cut_def)

lemma cut_not_found [simp]: "c \<notin> set s \<Longrightarrow> cut c s = (s, [], False)"
  by (simp add: cut_def)

lemma cutD: "cut c s = (a, b, True) \<Longrightarrow> s = a @ c # b \<and> c \<notin> set a"
  using split_at_first [of c s] notin_takeWhile_neq [of c s]
  by (auto simp: cut_def split: if_splits)

lemma cut_FalseD: "cut c s = (a, b, False) \<Longrightarrow> a = s \<and> b = [] \<and> c \<notin> set s"
  by (auto simp: cut_def split: if_splits)

lemma cut_cases:
  obtains (found) a b where "s = a @ c # b" "c \<notin> set a" "cut c s = (a, b, True)"
  | (missing) "c \<notin> set s" "cut c s = (s, [], False)"
proof (cases "c \<in> set s")
  case True
  obtain a b f where "cut c s = (a, b, f)" by (cases "cut c s") auto
  moreover from this True have "f" by (simp add: cut_def)
  ultimately show ?thesis using cutD [of c s a b] found by auto
next
  case False
  then show ?thesis using missing by simp
qed

lemma index_sub_Some:
  "index_sub p s = Some i \<Longrightarrow> i + length p \<le> length s \<and> take (length p) (drop i s) = p"
proof (induction s arbitrary: i)
  case Nil
  then show ?case by (simp split: if_splits)
next
  case (Cons c s)
  show ?case
  proof (cases "prefix p (c # s)")
    case True
    with Cons.prems have "i = 0" by simp
    moreover from True obtain t where "c # s = p @ t" by (auto simp: prefix_def)
    ultimately show ?thesis by simp
  next
    case False
    with Cons.prems obtain j where "index_sub p s = Some j" "i = Suc j" by auto
    with Cons.IH [of j] show ?thesis by simp
  qed
qed

lemma index_sub_least:
  "index_sub p s = Some i \<Longrightarrow> j < i \<Longrightarrow> \<not> prefix p (drop j s)"
proof (induction s arbitrary: i j)
  case Nil
  then show ?case by (simp split: if_splits)
next
  case (Cons c s)
  show ?case
  proof (cases "prefix p (c # s)")
    case True
    with Cons.prems show ?thesis by simp
  next
    case False
    with Cons.prems obtain k where k: "index_sub p s = Some k" "i = Suc k" by auto
    with False Cons.IH [OF k(1)] Cons.prems(2) show ?thesis by (cases j) auto
  qed
qed

lemma index_sub_None: "index_sub p s = None \<Longrightarrow> \<not> prefix p (drop j s)"
proof (induction s arbitrary: j)
  case Nil
  then show ?case by (auto split: if_splits)
next
  case (Cons c s)
  then show ?case by (cases j) (auto split: if_splits)
qed

lemma trim_prefix_append [simp]: "trim_prefix (p @ s) p = s"
  by (simp add: trim_prefix_def)

lemma trim_suffix_append [simp]: "trim_suffix (s @ p) p = s"
  by (simp add: trim_suffix_def suffix_def)

lemma set_trim_right_subset: "set (trim_right s cs) \<subseteq> set s"
  using set_dropWhileD [of _ _ "rev s"] by (auto simp: trim_right_def)

lemma trim_right_id: "s = [] \<or> last s \<notin> set cs \<Longrightarrow> trim_right s cs = s"
  by (cases s rule: rev_cases) (auto simp: trim_right_def)

lemma trim_right_append:
  "set t \<subseteq> set cs \<Longrightarrow> trim_right (s @ t) cs = trim_right s cs"
  by (simp add: trim_right_def) (subst dropWhile_append2, auto)

lemma last_trim_right: "trim_right s cs \<noteq> [] \<Longrightarrow> last (trim_right s cs) \<notin> set cs"
  using hd_dropWhile [of "\<lambda>c. c \<in> set cs" "rev s"] by (simp add: trim_right_def last_rev)

lemma trim_right_prefix: "prefix (trim_right s cs) s"
proof -
  have "suffix (dropWhile (\<lambda>c. c \<in> set cs) (rev s)) (rev s)" by (rule suffix_dropWhile)
  then show ?thesis unfolding trim_right_def suffix_to_prefix by simp
qed

lemma trim_prefix_suffix: "suffix (trim_prefix s p) s"
  by (simp add: trim_prefix_def suffix_drop)

end
