(* ===== verification/Go_Utf8.thy ===== *)
theory Go_Utf8
  imports Go_Strings
begin

text \<open>
  UTF-8 as Go reads and writes it: \<^verbatim>\<open>utf8.DecodeRune\<close> yields one \<^verbatim>\<open>U+FFFD\<close> of width one for a byte
  that starts no valid sequence (overlong forms, surrogates and values above U+10FFFF included),
  \<^verbatim>\<open>range\<close> over a string is \<open>runes\<close>, and \<^verbatim>\<open>strings.Map\<close> is \<open>map_runes\<close>. The lemmas are the two round
  trips and the fact that a byte which continues no sequence always starts a new rune, which is
  what lets byte-wise cutting and rune-wise mapping be exchanged.
\<close>


section \<open>UTF-8\<close>

type_synonym rune = nat

definition rune_error :: rune where "rune_error = 0xFFFD"

definition byte :: "nat \<Rightarrow> char" where "byte n = char_of n"

definition ord :: "char \<Rightarrow> nat" where "ord c = of_char c"

lemma ord_less [simp]: "ord c < 256"
  by (simp add: ord_def)

lemma ord_byte [simp]: "n < 256 \<Longrightarrow> ord (byte n) = n"
  by (simp add: ord_def byte_def)

lemma byte_ord [simp]: "byte (ord c) = c"
  by (simp add: ord_def byte_def)

lemma ord_inject [simp]: "ord c = ord d \<longleftrightarrow> c = d"
  by (metis byte_ord)

text \<open>\<^verbatim>\<open>utf8.EncodeRune\<close> on a valid rune; surrogates and values out of range become U+FFFD.\<close>

definition valid_rune :: "rune \<Rightarrow> bool" where
  "valid_rune r \<longleftrightarrow> r < 0xD800 \<or> (0xDFFF < r \<and> r < 0x110000)"

definition encode_valid :: "rune \<Rightarrow> string" where
  "encode_valid r =
     (if r < 0x80 then [byte r]
      else if r < 0x800 then [byte (0xC0 + r div 0x40), byte (0x80 + r mod 0x40)]
      else if r < 0x10000 then
        [byte (0xE0 + r div 0x1000), byte (0x80 + r div 0x40 mod 0x40), byte (0x80 + r mod 0x40)]
      else
        [byte (0xF0 + r div 0x40000), byte (0x80 + r div 0x1000 mod 0x40),
         byte (0x80 + r div 0x40 mod 0x40), byte (0x80 + r mod 0x40)])"

definition encode_rune :: "rune \<Rightarrow> string" where
  "encode_rune r = encode_valid (if valid_rune r then r else rune_error)"

definition in_range :: "nat \<Rightarrow> nat \<Rightarrow> char \<Rightarrow> bool" where
  "in_range lo hi c \<longleftrightarrow> lo \<le> ord c \<and> ord c \<le> hi"

abbreviation cont :: "char \<Rightarrow> bool" where "cont \<equiv> in_range 0x80 0xBF"

text \<open>The range the second byte of a sequence must lie in, given the first, and the length of the
  sequence; length 0 marks a byte that starts none.\<close>

definition lead_class :: "char \<Rightarrow> nat \<times> nat \<times> nat" where
  "lead_class c =
     (let b = ord c in
      if 0xC2 \<le> b \<and> b \<le> 0xDF then (2, 0x80, 0xBF)
      else if b = 0xE0 then (3, 0xA0, 0xBF)
      else if b = 0xED then (3, 0x80, 0x9F)
      else if 0xE1 \<le> b \<and> b \<le> 0xEF then (3, 0x80, 0xBF)
      else if b = 0xF0 then (4, 0x90, 0xBF)
      else if b = 0xF4 then (4, 0x80, 0x8F)
      else if 0xF1 \<le> b \<and> b \<le> 0xF3 then (4, 0x80, 0xBF)
      else (0, 0, 0))"

text \<open>\<^verbatim>\<open>utf8.DecodeRune\<close>: the rune a string starts with and its width in bytes.\<close>

definition decode_rune :: "string \<Rightarrow> rune \<times> nat" where
  "decode_rune s =
     (case s of
        [] \<Rightarrow> (rune_error, 0)
      | c # t \<Rightarrow>
        (if ord c < 0x80 then (ord c, 1)
         else case lead_class c of (n, lo, hi) \<Rightarrow>
          (if n = 2 \<and> 1 \<le> length t \<and> in_range lo hi (t ! 0) then
             ((ord c - 0xC0) * 0x40 + (ord (t ! 0) - 0x80), 2)
           else if n = 3 \<and> 2 \<le> length t \<and> in_range lo hi (t ! 0) \<and> cont (t ! 1) then
             ((ord c - 0xE0) * 0x1000 + (ord (t ! 0) - 0x80) * 0x40 + (ord (t ! 1) - 0x80), 3)
           else if n = 4 \<and> 3 \<le> length t \<and> in_range lo hi (t ! 0) \<and> cont (t ! 1) \<and> cont (t ! 2) then
             ((ord c - 0xF0) * 0x40000 + (ord (t ! 0) - 0x80) * 0x1000
                + (ord (t ! 1) - 0x80) * 0x40 + (ord (t ! 2) - 0x80), 4)
           else (rune_error, 1))))"

lemma decode_width_pos: "s \<noteq> [] \<Longrightarrow> 1 \<le> snd (decode_rune s)"
  by (auto simp: decode_rune_def split: list.splits prod.splits)

lemma decode_width_le: "snd (decode_rune s) \<le> length s"
  by (auto simp: decode_rune_def split: list.splits prod.splits)

text \<open>A \<^verbatim>\<open>range\<close> loop over a string: its runes in order.\<close>

function runes :: "string \<Rightarrow> rune list" where
  "runes s = (if s = [] then [] else fst (decode_rune s) # runes (drop (snd (decode_rune s)) s))"
  by pat_completeness auto
termination
proof (relation "measure length")
  fix s :: string
  assume "s \<noteq> []"
  with decode_width_pos [OF this] show "(drop (snd (decode_rune s)) s, s) \<in> measure length"
    by (cases s) auto
qed simp

declare runes.simps [simp del]

definition encode :: "rune list \<Rightarrow> string" where
  "encode rs = concat (map encode_rune rs)"

text \<open>\<^verbatim>\<open>strings.Map\<close> with a mapping that drops no rune.\<close>

definition map_runes :: "(rune \<Rightarrow> rune) \<Rightarrow> string \<Rightarrow> string" where
  "map_runes f s = encode (map f (runes s))"

definition is_ascii :: "string \<Rightarrow> bool" where
  "is_ascii s \<longleftrightarrow> (\<forall>c \<in> set s. ord c < 0x80)"

lemma is_ascii_simps [simp]:
  "is_ascii []" "is_ascii (c # s) \<longleftrightarrow> ord c < 0x80 \<and> is_ascii s"
  "is_ascii (s @ t) \<longleftrightarrow> is_ascii s \<and> is_ascii t"
  by (auto simp: is_ascii_def)

lemma runes_Nil [simp]: "runes [] = []"
  by (simp add: runes.simps)

lemma runes_eq_Nil [simp]: "runes s = [] \<longleftrightarrow> s = []"
  by (simp add: runes.simps [of s] split: prod.split)

lemma runes_ascii_Cons [simp]: "ord c < 0x80 \<Longrightarrow> runes (c # s) = ord c # runes s"
  by (subst runes.simps) (simp add: decode_rune_def)

lemma runes_ascii: "is_ascii s \<Longrightarrow> runes s = map ord s"
  by (induction s) auto

lemma encode_simps [simp]:
  "encode [] = []" "encode (r # rs) = encode_rune r @ encode rs"
  "encode (rs @ ss) = encode rs @ encode ss"
  by (simp_all add: encode_def)

lemma encode_rune_ascii [simp]: "r < 0x80 \<Longrightarrow> encode_rune r = [byte r]"
  by (simp add: encode_rune_def valid_rune_def encode_valid_def)

lemma encode_rune_nonempty [simp]: "encode_rune r \<noteq> []"
  by (simp add: encode_rune_def encode_valid_def)

lemma encode_map_ord [simp]: "is_ascii s \<Longrightarrow> encode (map ord s) = s"
  by (induction s) auto


lemma in_range_byte: "n < 256 \<Longrightarrow> in_range lo hi (byte n) \<longleftrightarrow> lo \<le> n \<and> n \<le> hi"
  by (simp add: in_range_def)

lemma decode_2:
  assumes "2 \<le> a" "a < 32" "b < 64"
  shows "decode_rune (byte (0xC0 + a) # byte (0x80 + b) # t) = (a * 64 + b, 2)"
  using assms by (simp add: decode_rune_def lead_class_def in_range_byte)

lemma lead_class_3:
  assumes "a < 16"
  shows "lead_class (byte (0xE0 + a)) = (3, if a = 0 then 0xA0 else 0x80, if a = 13 then 0x9F else 0xBF)"
  using assms by (simp add: lead_class_def)

lemma decode_3:
  assumes "a < 16" "b < 64" "c < 64" "a = 0 \<longrightarrow> 32 \<le> b" "a = 13 \<longrightarrow> b < 32"
  shows "decode_rune (byte (0xE0 + a) # byte (0x80 + b) # byte (0x80 + c) # t) = (a * 4096 + b * 64 + c, 3)"
  using assms by (auto simp: decode_rune_def lead_class_3 in_range_byte)

lemma lead_class_4:
  assumes "a < 5"
  shows "lead_class (byte (0xF0 + a)) = (4, if a = 0 then 0x90 else 0x80, if a = 4 then 0x8F else 0xBF)"
  using assms by (simp add: lead_class_def)

lemma decode_4:
  assumes "a < 5" "b < 64" "c < 64" "d < 64" "a = 0 \<longrightarrow> 16 \<le> b" "a = 4 \<longrightarrow> b < 16"
  shows "decode_rune (byte (0xF0 + a) # byte (0x80 + b) # byte (0x80 + c) # byte (0x80 + d) # t)
    = (a * 0x40000 + b * 4096 + c * 64 + d, 4)"
  using assms by (auto simp: decode_rune_def lead_class_4 in_range_byte)

lemma base64_digits_3: "(r::nat) div 4096 * 4096 + r div 64 mod 64 * 64 + r mod 64 = r"
proof -
  have "r div 4096 = r div 64 div 64" by (simp add: div_mult2_eq [symmetric])
  then show ?thesis
    using div_mult_mod_eq [of r 64] div_mult_mod_eq [of "r div 64" 64] by linarith
qed

lemma base64_digits_4:
  "(r::nat) div 0x40000 * 0x40000 + r div 4096 mod 64 * 4096 + r div 64 mod 64 * 64 + r mod 64 = r"
proof -
  have "r div 0x40000 = r div 4096 div 64" by (simp add: div_mult2_eq [symmetric])
  then show ?thesis
    using base64_digits_3 [of r] div_mult_mod_eq [of "r div 4096" 64] by linarith
qed

lemma rune_top_digits:
  assumes "(r::nat) < 0x110000"
  shows "r div 0x40000 < 5 \<and> (r div 0x40000 = 4 \<longrightarrow> r div 4096 mod 64 < 16)"
proof -
  have "r div 0x40000 = r div 4096 div 64" by (simp add: div_mult2_eq [symmetric])
  moreover have "r div 4096 < 272" using assms by simp
  then have "r div 4096 div 64 < 5" "r div 4096 div 64 = 4 \<longrightarrow> r div 4096 mod 64 < 16"
    using div_mult_mod_eq [of "r div 4096" 64] by linarith+
  ultimately show ?thesis by simp
qed

lemma decode_encode_valid:
  assumes "valid_rune r"
  shows "decode_rune (encode_valid r @ t) = (r, length (encode_valid r))"
proof -
  consider "r < 0x80" | "0x80 \<le> r" "r < 0x800" | "0x800 \<le> r" "r < 0x10000" | "0x10000 \<le> r"
    by linarith
  then show ?thesis
  proof cases
    case 1
    then show ?thesis by (simp add: encode_valid_def decode_rune_def)
  next
    case 2
    have "decode_rune (byte (0xC0 + r div 64) # byte (0x80 + r mod 64) # t)
      = (r div 64 * 64 + r mod 64, 2)"
      using 2 by (intro decode_2) auto
    with 2 show ?thesis by (simp add: encode_valid_def)
  next
    case 3
    have hi: "r div 4096 = 13 \<longrightarrow> r div 64 mod 64 < 32"
      using assms base64_digits_3 [of r] unfolding valid_rune_def by linarith
    have "decode_rune (byte (0xE0 + r div 4096) # byte (0x80 + r div 64 mod 64) # byte (0x80 + r mod 64) # t)
      = (r div 4096 * 4096 + r div 64 mod 64 * 64 + r mod 64, 3)"
      using 3 hi by (intro decode_3) auto
    then show ?thesis using 3 by (simp add: encode_valid_def base64_digits_3)
  next
    case 4
    have hi: "r div 0x40000 = 4 \<longrightarrow> r div 4096 mod 64 < 16" and lt: "r div 0x40000 < 5"
      using assms 4 rune_top_digits [of r] unfolding valid_rune_def by auto
    have "decode_rune (byte (0xF0 + r div 0x40000) # byte (0x80 + r div 4096 mod 64)
        # byte (0x80 + r div 64 mod 64) # byte (0x80 + r mod 64) # t)
      = (r div 0x40000 * 0x40000 + r div 4096 mod 64 * 4096 + r div 64 mod 64 * 64 + r mod 64, 4)"
      using 4 hi lt by (intro decode_4) (auto simp: div_mult2_eq)
    then show ?thesis using 4 base64_digits_4 [of r] by (simp add: encode_valid_def)
  qed
qed


lemma decode_encode: "valid_rune r \<Longrightarrow> decode_rune (encode_rune r @ t) = (r, length (encode_rune r))"
  by (simp add: encode_rune_def decode_encode_valid)

lemma runes_encode_rune: "valid_rune r \<Longrightarrow> runes (encode_rune r @ t) = r # runes t"
  by (subst runes.simps) (simp add: decode_encode)

text \<open>Encoding runes and reading them back.\<close>

lemma runes_encode: "\<forall>r \<in> set rs. valid_rune r \<Longrightarrow> runes (encode rs) = rs"
  by (induction rs) (auto simp: runes_encode_rune)

lemma valid_rune_error [simp]: "valid_rune rune_error"
  by (simp add: valid_rune_def rune_error_def)

text \<open>A byte that is no continuation byte always starts a new rune.\<close>

lemma decode_rune_sync:
  assumes "s \<noteq> []" and "\<not> cont c"
  shows "decode_rune (s @ c # t) = decode_rune s"
proof -
  obtain b u where s: "s = b # u" using assms(1) by (cases s) auto
  have nc: "\<not> in_range lo hi c" if "lead_class b = (n, lo, hi)" "n \<noteq> 0" for n lo hi
    using assms(2) that by (auto simp: lead_class_def in_range_def Let_def split: if_splits)
  obtain n lo hi where cl: "lead_class b = (n, lo, hi)" by (cases "lead_class b") auto
  show ?thesis
  proof (cases "n = 0")
    case True
    then show ?thesis using s cl by (simp add: decode_rune_def)
  next
    case False
    note nc' = nc [OF cl False]
    consider "u = []" | x where "u = [x]" | x y where "u = [x, y]" | x y z v where "u = x # y # z # v"
      by (cases u; cases "tl u"; cases "tl (tl u)") auto
    then show ?thesis
      using s cl nc' assms(2) by cases (auto simp: decode_rune_def nth_append)
  qed
qed

lemma runes_sync: "\<not> cont c \<Longrightarrow> runes (s @ c # t) = runes s @ runes (c # t)"
proof (induction s rule: runes.induct)
  case (1 s)
  show ?case
  proof (cases "s = []")
    case False
    let ?k = "snd (decode_rune s)"
    have d: "decode_rune (s @ c # t) = decode_rune s"
      using decode_rune_sync [OF False "1.prems"] .
    have "runes (s @ c # t) = fst (decode_rune s) # runes (drop ?k (s @ c # t))"
      by (subst runes.simps) (simp add: d)
    also have "drop ?k (s @ c # t) = drop ?k s @ c # t"
      using decode_width_le [of s] by simp
    also have "runes (drop ?k s @ c # t) = runes (drop ?k s) @ runes (c # t)"
      using "1.IH" [OF False "1.prems"] .
    also have "fst (decode_rune s) # (runes (drop ?k s) @ runes (c # t)) = runes s @ runes (c # t)"
      using False by (subst (2) runes.simps) simp
    finally show ?thesis .
  qed simp
qed


text \<open>The five things a decoding step can see.\<close>

lemma decode_rune_cases:
  assumes "s \<noteq> []"
  obtains (ascii) r t where "r < 0x80" "s = byte r # t" "decode_rune s = (r, 1)"
  | (two) a b t where "2 \<le> a" "a < 32" "b < 64" "s = byte (0xC0 + a) # byte (0x80 + b) # t"
      "decode_rune s = (a * 64 + b, 2)"
  | (three) a b c t where "a < 16" "b < 64" "c < 64" "a = 0 \<longrightarrow> 32 \<le> b" "a = 13 \<longrightarrow> b < 32"
      "s = byte (0xE0 + a) # byte (0x80 + b) # byte (0x80 + c) # t"
      "decode_rune s = (a * 4096 + b * 64 + c, 3)"
  | (four) a b c d t where "a < 5" "b < 64" "c < 64" "d < 64" "a = 0 \<longrightarrow> 16 \<le> b" "a = 4 \<longrightarrow> b < 16"
      "s = byte (0xF0 + a) # byte (0x80 + b) # byte (0x80 + c) # byte (0x80 + d) # t"
      "decode_rune s = (a * 0x40000 + b * 4096 + c * 64 + d, 4)"
  | (bad) "decode_rune s = (rune_error, 1)"
proof -
  obtain x u where s: "s = x # u" using assms by (cases s) auto
  have add_ord: "byte (k + (ord y - k)) = y" if "k \<le> ord y" for k y
    using that by simp
  obtain n lo hi where cl: "lead_class x = (n, lo, hi)" by (cases "lead_class x") auto
  consider (A) "ord x < 0x80" | (B) "\<not> ord x < 0x80" "n = 2" "1 \<le> length u" "in_range lo hi (u ! 0)"
    | (C) "\<not> ord x < 0x80" "n = 3" "2 \<le> length u" "in_range lo hi (u ! 0)" "cont (u ! 1)"
    | (D) "\<not> ord x < 0x80" "n = 4" "3 \<le> length u" "in_range lo hi (u ! 0)" "cont (u ! 1)" "cont (u ! 2)"
    | (E) "\<not> ord x < 0x80" "\<not> (n = 2 \<and> 1 \<le> length u \<and> in_range lo hi (u ! 0))"
        "\<not> (n = 3 \<and> 2 \<le> length u \<and> in_range lo hi (u ! 0) \<and> cont (u ! 1))"
        "\<not> (n = 4 \<and> 3 \<le> length u \<and> in_range lo hi (u ! 0) \<and> cont (u ! 1) \<and> cont (u ! 2))"
    by blast
  then show thesis
  proof cases
    case A
    then show thesis using s ascii [of "ord x" u] by (simp add: decode_rune_def)
  next
    case B
    then obtain y v where u: "u = y # v" by (cases u) auto
    have "0xC2 \<le> ord x" "ord x \<le> 0xDF" "lo = 0x80" "hi = 0xBF"
      using cl B by (auto simp: lead_class_def Let_def split: if_splits)
    with B s u cl show thesis
      by (intro two [of "ord x - 0xC0" "ord y - 0x80" v]) (auto simp: decode_rune_def in_range_def)
  next
    case C
    then obtain y z v where u: "u = y # z # v" by (cases u; cases "tl u") auto
    have "0xE0 \<le> ord x" "ord x \<le> 0xEF" "ord x = 0xE0 \<longrightarrow> lo = 0xA0" "ord x \<noteq> 0xE0 \<longrightarrow> lo = 0x80"
      "ord x = 0xED \<longrightarrow> hi = 0x9F" "hi \<le> 0xBF"
      using cl C by (auto simp: lead_class_def Let_def split: if_splits)
    with C s u cl show thesis
      by (intro three [of "ord x - 0xE0" "ord y - 0x80" "ord z - 0x80" v])
        (auto simp: decode_rune_def in_range_def)
  next
    case D
    then obtain y z w v where u: "u = y # z # w # v" by (cases u; cases "tl u"; cases "tl (tl u)") auto
    have "0xF0 \<le> ord x" "ord x \<le> 0xF4" "ord x = 0xF0 \<longrightarrow> lo = 0x90" "ord x \<noteq> 0xF0 \<longrightarrow> lo = 0x80"
      "ord x = 0xF4 \<longrightarrow> hi = 0x8F" "hi \<le> 0xBF"
      using cl D by (auto simp: lead_class_def Let_def split: if_splits)
    with D s u cl show thesis
      by (intro four [of "ord x - 0xF0" "ord y - 0x80" "ord z - 0x80" "ord w - 0x80" v])
        (auto simp: decode_rune_def in_range_def)
  next
    case E
    then have "decode_rune s = (rune_error, 1)" using s cl by (simp add: decode_rune_def)
    then show thesis by (rule bad)
  qed
qed

lemma valid_rune_3:
  assumes "a < 16" "b < 64" "c < 64" "a = 13 \<longrightarrow> b < 32"
  shows "valid_rune (a * 4096 + b * 64 + c)"
proof -
  have "a \<le> 12 \<or> a = 13 \<or> 14 \<le> a" by arith
  with assms show ?thesis by (auto simp: valid_rune_def)
qed

lemma valid_rune_4:
  assumes "a < 5" "b < 64" "c < 64" "d < 64" "a = 0 \<longrightarrow> 16 \<le> b" "a = 4 \<longrightarrow> b < 16"
  shows "valid_rune (a * 0x40000 + b * 4096 + c * 64 + d)"
proof -
  have "a = 0 \<or> a = 4 \<or> (1 \<le> a \<and> a \<le> 3)" using assms by arith
  with assms show ?thesis by (auto simp: valid_rune_def)
qed

lemma decode_valid:
  assumes "s \<noteq> []"
  shows "valid_rune (fst (decode_rune s))"
  using assms
proof (cases rule: decode_rune_cases)
  case (three a b c t)
  then show ?thesis using valid_rune_3 [of a b c] by simp
next
  case (four a b c d t)
  then show ?thesis using valid_rune_4 [of a b c d] by simp
qed (auto simp: valid_rune_def rune_error_def)

lemma runes_valid: "\<forall>r \<in> set (runes s). valid_rune r"
proof (induction s rule: runes.induct)
  case (1 s)
  then show ?case
    by (cases "s = []") (auto simp: runes.simps [of s] decode_valid)
qed

lemma base64_split: "c < 64 \<Longrightarrow> (m * 64 + c) div 64 = (m::nat) \<and> (m * 64 + c) mod 64 = c"
  by simp

lemma digits_3:
  assumes "b < 64" "c < (64::nat)"
  shows "(a * 4096 + b * 64 + c) div 4096 = a" "(a * 4096 + b * 64 + c) div 64 mod 64 = b"
    "(a * 4096 + b * 64 + c) mod 64 = c"
proof -
  have e: "a * 4096 + b * 64 + c = (a * 64 + b) * 64 + c" by simp
  have "(a * 4096 + b * 64 + c) div 4096 = (a * 4096 + b * 64 + c) div 64 div 64"
    by (simp add: div_mult2_eq [symmetric])
  then show "(a * 4096 + b * 64 + c) div 4096 = a" "(a * 4096 + b * 64 + c) div 64 mod 64 = b"
    "(a * 4096 + b * 64 + c) mod 64 = c"
    using base64_split [OF assms(2), of "a * 64 + b"] base64_split [OF assms(1), of a]
    unfolding e by simp_all
qed

lemma digits_4:
  assumes "b < 64" "c < 64" "d < (64::nat)"
  shows "(a * 0x40000 + b * 4096 + c * 64 + d) div 0x40000 = a"
    "(a * 0x40000 + b * 4096 + c * 64 + d) div 4096 mod 64 = b"
    "(a * 0x40000 + b * 4096 + c * 64 + d) div 64 mod 64 = c"
    "(a * 0x40000 + b * 4096 + c * 64 + d) mod 64 = d"
proof -
  let ?r = "a * 0x40000 + b * 4096 + c * 64 + d"
  have e: "?r = (a * 64 + b) * 4096 + c * 64 + d" by simp
  have "?r div 0x40000 = ?r div 4096 div 64" by (simp add: div_mult2_eq [symmetric])
  then show "?r div 0x40000 = a" "?r div 4096 mod 64 = b" "?r div 64 mod 64 = c" "?r mod 64 = d"
    using digits_3 [OF assms(2,3), of "a * 64 + b"] base64_split [OF assms(1), of a]
    unfolding e by simp_all
qed

text \<open>A rune that was really there, not one made up for an invalid byte, is spelled by the bytes it
  was read from.\<close>

lemma encode_decode:
  assumes "s \<noteq> []" and "fst (decode_rune s) \<noteq> rune_error"
  shows "take (snd (decode_rune s)) s = encode_rune (fst (decode_rune s))"
  using assms(1)
proof (cases rule: decode_rune_cases)
  case (two a b t)
  then show ?thesis
    by (simp add: encode_rune_def encode_valid_def valid_rune_def)
next
  case (three a b c t)
  have "a * 4096 + b * 64 + c < 0x10000" "0x800 \<le> a * 4096 + b * 64 + c"
    using three by auto
  then show ?thesis
    using three valid_rune_3 [of a b c] digits_3 [of b c a]
    by (simp add: encode_rune_def encode_valid_def)
next
  case (four a b c d t)
  have "0x10000 \<le> a * 0x40000 + b * 4096 + c * 64 + d" using four by auto
  then show ?thesis
    using four valid_rune_4 [of a b c d] digits_4 [of b c d a]
    by (simp add: encode_rune_def encode_valid_def)
qed (use assms in auto)

end
