(* ===== verification/Go_Text.thy ===== *)
theory Go_Text
  imports Go_Utf8
begin

text \<open>
  White space and letter case in Go strings. The white space of \<^verbatim>\<open>unicode.IsSpace\<close> is a fixed list.
  Case mapping beyond ASCII comes from tables that change with the Unicode version the toolchain
  ships, so those tables are the argument \<open>U\<close> of \<open>to_lower\<close> and \<open>equal_fold\<close>; the ASCII half is
  computed here. What the proofs need of the tables is \<open>unicode_laws\<close>.
\<close>


section \<open>White space\<close>

definition space_runes :: "rune list" where
  "space_runes =
     [0x09, 0x0A, 0x0B, 0x0C, 0x0D, 0x20, 0x85, 0xA0, 0x1680, 0x2000, 0x2001, 0x2002, 0x2003,
      0x2004, 0x2005, 0x2006, 0x2007, 0x2008, 0x2009, 0x200A, 0x2028, 0x2029, 0x202F, 0x205F,
      0x3000]"

text \<open>Their encodings, spelled out so that trimming evaluates without encoding anything.\<close>

definition space_encodings :: "string list" where
  "space_encodings =
     [[CHR 0x09], [CHR 0x0A], [CHR 0x0B], [CHR 0x0C], [CHR 0x0D], [CHR 0x20],
      [CHR 0xC2, CHR 0x85], [CHR 0xC2, CHR 0xA0], [CHR 0xE1, CHR 0x9A, CHR 0x80],
      [CHR 0xE2, CHR 0x80, CHR 0x80], [CHR 0xE2, CHR 0x80, CHR 0x81], [CHR 0xE2, CHR 0x80, CHR 0x82],
      [CHR 0xE2, CHR 0x80, CHR 0x83], [CHR 0xE2, CHR 0x80, CHR 0x84], [CHR 0xE2, CHR 0x80, CHR 0x85],
      [CHR 0xE2, CHR 0x80, CHR 0x86], [CHR 0xE2, CHR 0x80, CHR 0x87], [CHR 0xE2, CHR 0x80, CHR 0x88],
      [CHR 0xE2, CHR 0x80, CHR 0x89], [CHR 0xE2, CHR 0x80, CHR 0x8A], [CHR 0xE2, CHR 0x80, CHR 0xA8],
      [CHR 0xE2, CHR 0x80, CHR 0xA9], [CHR 0xE2, CHR 0x80, CHR 0xAF], [CHR 0xE2, CHR 0x81, CHR 0x9F],
      [CHR 0xE3, CHR 0x80, CHR 0x80]]"

lemma space_encodings_eq: "space_encodings = map encode_rune space_runes"
  by code_simp

text \<open>Stripping any of a list of words from the front of a string, as often as one is there.\<close>

function strip_by :: "string list \<Rightarrow> string \<Rightarrow> string" where
  "strip_by ps s =
     (case find (\<lambda>p. p \<noteq> [] \<and> prefix p s) ps of
        None \<Rightarrow> s
      | Some p \<Rightarrow> strip_by ps (drop (length p) s))"
  by pat_completeness auto
termination
proof (relation "measure (\<lambda>(ps, s). length s)")
  fix ps s p
  assume "find (\<lambda>p. p \<noteq> [] \<and> prefix p s) ps = Some p"
  then have "p \<noteq> [] \<and> prefix p s" using find_SomeD by fast
  then show "((ps, drop (length p) s), ps, s) \<in> measure (\<lambda>(ps, s). length s)"
    by (auto simp: prefix_def)
qed simp

declare strip_by.simps [simp del]

text \<open>\<^verbatim>\<open>strings.TrimSpace\<close>.\<close>

definition trim_space :: "string \<Rightarrow> string" where
  "trim_space s =
     rev (strip_by (map rev space_encodings) (rev (strip_by space_encodings s)))"

definition trimmed :: "string \<Rightarrow> bool" where
  "trimmed s \<longleftrightarrow> (\<forall>p \<in> set space_encodings. \<not> prefix p s \<and> \<not> suffix p s)"

lemma space_encodings_nonempty: "p \<in> set space_encodings \<Longrightarrow> p \<noteq> []"
  by (auto simp: space_encodings_def)

lemma strip_by_None:
  "find (\<lambda>p. p \<noteq> [] \<and> prefix p s) ps = None \<Longrightarrow> strip_by ps s = s"
  by (simp add: strip_by.simps [of ps s])

lemma strip_by_Some:
  "find (\<lambda>p. p \<noteq> [] \<and> prefix p s) ps = Some p \<Longrightarrow>
   strip_by ps s = strip_by ps (drop (length p) s)"
  by (simp add: strip_by.simps [of ps s])

lemma strip_by_id: "\<forall>p \<in> set ps. \<not> prefix p s \<Longrightarrow> strip_by ps s = s"
  by (rule strip_by_None) (simp add: find_None_all)

lemma strip_by_none: "p \<in> set ps \<Longrightarrow> p \<noteq> [] \<Longrightarrow> \<not> prefix p (strip_by ps s)"
proof (induction ps s rule: strip_by.induct)
  case (1 ps s)
  show ?case
  proof (cases "find (\<lambda>p. p \<noteq> [] \<and> prefix p s) ps")
    case None
    with "1.prems" show ?thesis by (auto simp: strip_by_None find_None_all)
  next
    case (Some q)
    then show ?thesis using "1.IH" [OF Some "1.prems"] by (simp add: strip_by_Some)
  qed
qed

lemma strip_by_suffix: "suffix (strip_by ps s) s"
proof (induction ps s rule: strip_by.induct)
  case (1 ps s)
  show ?case
  proof (cases "find (\<lambda>p. p \<noteq> [] \<and> prefix p s) ps")
    case None
    then show ?thesis by (simp add: strip_by_None)
  next
    case (Some q)
    then have "suffix (strip_by ps s) (drop (length q) s)"
      using "1.IH" [OF Some] by (simp add: strip_by_Some)
    then show ?thesis using suffix_drop suffix_order.trans by blast
  qed
qed

lemma trim_space_sublist: "sublist (trim_space s) s"
proof -
  have "suffix (rev (trim_space s)) (rev (strip_by space_encodings s))"
    using strip_by_suffix [of "map rev space_encodings"] by (simp add: trim_space_def)
  then have "prefix (trim_space s) (strip_by space_encodings s)"
    by (simp add: suffix_to_prefix)
  then have "sublist (trim_space s) (strip_by space_encodings s)" by (rule prefix_imp_sublist)
  moreover have "sublist (strip_by space_encodings s) s"
    using strip_by_suffix by (rule suffix_imp_sublist)
  ultimately show ?thesis by (rule sublist_order.order.trans)
qed

lemma set_trim_space_subset: "set (trim_space s) \<subseteq> set s"
  using trim_space_sublist set_mono_sublist by metis

lemma trim_space_trimmed: "trimmed (trim_space s)"
  unfolding trimmed_def
proof
  fix p assume p: "p \<in> set space_encodings"
  let ?t = "strip_by space_encodings s"
  have left: "\<not> prefix p ?t"
    using p space_encodings_nonempty by (intro strip_by_none) auto
  have "suffix (rev (trim_space s)) (rev ?t)"
    using strip_by_suffix [of "map rev space_encodings"] by (simp add: trim_space_def)
  then have "prefix (trim_space s) ?t" by (simp add: suffix_to_prefix)
  with left have "\<not> prefix p (trim_space s)" using prefix_order.trans by blast
  moreover have "\<not> prefix (rev p) (rev (trim_space s))"
    unfolding trim_space_def rev_rev_ident
    using p space_encodings_nonempty by (intro strip_by_none) auto
  then have "\<not> suffix p (trim_space s)" by (simp add: suffix_to_prefix)
  ultimately show "\<not> prefix p (trim_space s) \<and> \<not> suffix p (trim_space s)" ..
qed

lemma trim_space_id: "trimmed s \<Longrightarrow> trim_space s = s"
proof -
  assume t: "trimmed s"
  then have "strip_by space_encodings s = s"
    by (intro strip_by_id) (auto simp: trimmed_def)
  moreover from t have "strip_by (map rev space_encodings) (rev s) = rev s"
    by (intro strip_by_id) (auto simp: trimmed_def suffix_to_prefix)
  ultimately show ?thesis by (simp add: trim_space_def)
qed

lemma trim_space_idem [simp]: "trim_space (trim_space s) = trim_space s"
  by (rule trim_space_id) (rule trim_space_trimmed)


section \<open>Letter case\<close>

text \<open>The parts of Go's Unicode tables beyond ASCII: \<^verbatim>\<open>unicode.ToLower\<close>, and one representative of each
  orbit of \<^verbatim>\<open>unicode.SimpleFold\<close>.\<close>

record unicode =
  uni_lower :: "rune \<Rightarrow> rune"
  uni_fold :: "rune \<Rightarrow> rune"

definition ascii_lower :: "char \<Rightarrow> char" where
  "ascii_lower c = (if 65 \<le> ord c \<and> ord c \<le> 90 then byte (ord c + 32) else c)"

definition rune_lower :: "unicode \<Rightarrow> rune \<Rightarrow> rune" where
  "rune_lower U r = (if r < 0x80 then (if 65 \<le> r \<and> r \<le> 90 then r + 32 else r) else uni_lower U r)"

definition rune_fold :: "unicode \<Rightarrow> rune \<Rightarrow> rune" where
  "rune_fold U r = (if r < 0x80 then (if 65 \<le> r \<and> r \<le> 90 then r + 32 else r) else uni_fold U r)"

text \<open>\<^verbatim>\<open>strings.ToLower\<close> and \<^verbatim>\<open>strings.EqualFold\<close>.\<close>

definition to_lower :: "unicode \<Rightarrow> string \<Rightarrow> string" where
  "to_lower U s = (if is_ascii s then map ascii_lower s else map_runes (rune_lower U) s)"

definition equal_fold :: "unicode \<Rightarrow> string \<Rightarrow> string \<Rightarrow> bool" where
  "equal_fold U s t \<longleftrightarrow> map (rune_fold U) (runes s) = map (rune_fold U) (runes t)"

text \<open>Facts of every version of the tables: lower case is idempotent, maps runes to runes, leaves the
  replacement rune alone, turns nothing into white space, and reaches ASCII only in its letters.\<close>

definition unicode_laws :: "unicode \<Rightarrow> bool" where
  "unicode_laws U \<longleftrightarrow>
     (\<forall>r. 0x80 \<le> r \<longrightarrow> valid_rune r \<longrightarrow> valid_rune (uni_lower U r)) \<and>
     (\<forall>r. 0x80 \<le> r \<longrightarrow> rune_lower U (uni_lower U r) = uni_lower U r) \<and>
     (\<forall>r. 0x80 \<le> r \<longrightarrow> uni_lower U r \<in> set space_runes \<longrightarrow> r \<in> set space_runes) \<and>
     (\<forall>r. 0x80 \<le> r \<longrightarrow> uni_lower U r < 0x80 \<longrightarrow> 97 \<le> uni_lower U r \<and> uni_lower U r \<le> 122)"

text \<open>Tables for a program that only ever sees ASCII; they satisfy the laws.\<close>

definition ascii_unicode :: unicode where
  "ascii_unicode = \<lparr>uni_lower = (\<lambda>r. r), uni_fold = (\<lambda>r. r)\<rparr>"

lemma ascii_unicode_laws [simp]: "unicode_laws ascii_unicode"
  by (simp add: unicode_laws_def ascii_unicode_def rune_lower_def)

lemma ord_ascii_lower: "ord c < 0x80 \<Longrightarrow> ord (ascii_lower c) = rune_lower U (ord c)"
  by (simp add: ascii_lower_def rune_lower_def)

lemma encode_rune_lower_ascii:
  "ord c < 0x80 \<Longrightarrow> encode_rune (rune_lower U (ord c)) = [ascii_lower c]"
  by (auto simp: rune_lower_def ascii_lower_def)

text \<open>The fast path for ASCII agrees with the general one.\<close>

lemma to_lower_map_runes: "to_lower U s = map_runes (rune_lower U) s"
proof (cases "is_ascii s")
  case True
  then have "encode (map (rune_lower U) (map ord s)) = map ascii_lower s"
    by (induction s) (auto simp: encode_rune_lower_ascii)
  with True show ?thesis by (simp add: to_lower_def map_runes_def runes_ascii)
qed (simp add: to_lower_def)

lemma not_cont_ascii: "ord c < 0x80 \<Longrightarrow> \<not> cont c"
  by (simp add: in_range_def)

lemma to_lower_Nil [simp]: "to_lower U [] = []"
  by (simp add: to_lower_def)

lemma to_lower_eq_Nil [simp]: "to_lower U s = [] \<longleftrightarrow> s = []"
proof (cases "s = []")
  case False
  then have "runes s \<noteq> []" by (simp add: runes.simps [of s])
  then show ?thesis using False
    by (cases "runes s") (simp_all add: to_lower_map_runes map_runes_def)
qed simp

lemma to_lower_append_ascii:
  "ord c < 0x80 \<Longrightarrow> to_lower U (s @ c # t) = to_lower U s @ ascii_lower c # to_lower U t"
  by (simp add: to_lower_map_runes map_runes_def runes_sync not_cont_ascii encode_rune_lower_ascii)

lemma to_lower_Cons_ascii:
  "ord c < 0x80 \<Longrightarrow> to_lower U (c # t) = ascii_lower c # to_lower U t"
  using to_lower_append_ascii [of c U "[]" t] by simp

lemma unicode_lawsD:
  assumes "unicode_laws U" "0x80 \<le> r"
  shows "valid_rune r \<Longrightarrow> valid_rune (uni_lower U r)"
    and "rune_lower U (uni_lower U r) = uni_lower U r"
    and "uni_lower U r \<in> set space_runes \<Longrightarrow> r \<in> set space_runes"
    and "uni_lower U r < 0x80 \<Longrightarrow> 97 \<le> uni_lower U r \<and> uni_lower U r \<le> 122"
  using assms unfolding unicode_laws_def by blast+

lemma rune_lower_valid:
  assumes "unicode_laws U" "valid_rune r"
  shows "valid_rune (rune_lower U r)"
proof (cases "r < 0x80")
  case True
  then show ?thesis by (auto simp: rune_lower_def valid_rune_def)
next
  case False
  then show ?thesis
    unfolding rune_lower_def using unicode_lawsD(1) [OF assms(1), of r] assms(2) by simp
qed

lemma rune_lower_idem:
  assumes "unicode_laws U"
  shows "rune_lower U (rune_lower U r) = rune_lower U r"
proof (cases "r < 0x80")
  case True
  then show ?thesis by (simp add: rune_lower_def)
next
  case False
  then show ?thesis using unicode_lawsD(2) [OF assms, of r] by (simp add: rune_lower_def [of U r])
qed

lemma runes_to_lower:
  "unicode_laws U \<Longrightarrow> runes (to_lower U s) = map (rune_lower U) (runes s)"
  unfolding to_lower_map_runes map_runes_def
  by (rule runes_encode) (auto intro: rune_lower_valid dest: bspec [OF runes_valid])

lemma to_lower_idem:
  assumes "unicode_laws U"
  shows "to_lower U (to_lower U s) = to_lower U s"
proof -
  have "map (rune_lower U) (runes (to_lower U s)) = runes (to_lower U s)"
    using assms by (simp add: runes_to_lower rune_lower_idem)
  then have "to_lower U (to_lower U s) = encode (runes (to_lower U s))"
    by (simp add: to_lower_map_runes [of U "to_lower U s"] map_runes_def)
  also have "\<dots> = to_lower U s"
    using assms by (simp add: runes_to_lower) (simp add: to_lower_map_runes map_runes_def)
  finally show ?thesis .
qed

text \<open>Lowering a string that is trimmed leaves it trimmed.\<close>

lemma space_rune_facts:
  assumes "w \<in> set space_runes"
  shows "valid_rune w" "w \<noteq> rune_error" "\<not> cont (hd (encode_rune w))"
proof -
  have "\<forall>w \<in> set space_runes. valid_rune w \<and> w \<noteq> rune_error \<and> \<not> cont (hd (encode_rune w))"
    by code_simp
  with assms show "valid_rune w" "w \<noteq> rune_error" "\<not> cont (hd (encode_rune w))" by auto
qed

lemma runes_prefix_space:
  assumes "w \<in> set space_runes"
  shows "prefix (encode_rune w) s \<longleftrightarrow> runes s \<noteq> [] \<and> hd (runes s) = w"
proof
  assume "prefix (encode_rune w) s"
  then obtain t where "s = encode_rune w @ t" by (auto simp: prefix_def)
  then show "runes s \<noteq> [] \<and> hd (runes s) = w"
    using space_rune_facts [OF assms] by (simp add: runes_encode_rune)
next
  assume r: "runes s \<noteq> [] \<and> hd (runes s) = w"
  then have s: "s \<noteq> []" by auto
  then have w: "fst (decode_rune s) = w" using r by (simp add: runes.simps [of s])
  have "take (snd (decode_rune s)) s = encode_rune w"
    using encode_decode [OF s] space_rune_facts [OF assms] w by simp
  then show "prefix (encode_rune w) s" by (metis take_is_prefix)
qed

lemma runes_last_suffix:
  "runes s \<noteq> [] \<Longrightarrow> last (runes s) \<noteq> rune_error \<Longrightarrow> suffix (encode_rune (last (runes s))) s"
proof (induction s rule: runes.induct)
  case (1 s)
  show ?case
  proof (cases "s = []")
    case False
    obtain r n where d: "decode_rune s = (r, n)" by fastforce
    have r: "runes s = r # runes (drop n s)" using False d by (simp add: runes.simps [of s])
    show ?thesis
    proof (cases "runes (drop n s) = []")
      case True
      then have "drop n s = []" by (simp add: runes.simps [of "drop n s"] split: if_splits prod.splits)
      moreover have "take n s = encode_rune r"
        using encode_decode [OF False] 1(3) r d True by simp
      ultimately show ?thesis using r True by (metis append_Nil2 append_take_drop_id last_ConsL suffix_order.order_refl)
    next
      case rest: False
      then have "suffix (encode_rune (last (runes s))) (drop n s)"
        using 1 False d r by simp
      then show ?thesis using suffix_drop suffix_order.trans by blast
    qed
  qed (use 1 in simp)
qed

lemma runes_suffix_space:
  assumes "w \<in> set space_runes"
  shows "suffix (encode_rune w) s \<longleftrightarrow> runes s \<noteq> [] \<and> last (runes s) = w"
proof
  assume "suffix (encode_rune w) s"
  then obtain t where s: "s = t @ encode_rune w" by (auto simp: suffix_def)
  have ne: "encode_rune w \<noteq> []" by simp
  then obtain c cs where e: "encode_rune w = c # cs" by (cases "encode_rune w") auto
  have "runes s = runes t @ runes (encode_rune w)"
    unfolding s e by (rule runes_sync) (use space_rune_facts [OF assms] e in simp)
  moreover have "runes (encode_rune w) = [w]"
    using runes_encode_rune [of w "[]"] space_rune_facts [OF assms] by simp
  ultimately show "runes s \<noteq> [] \<and> last (runes s) = w" by simp
next
  assume "runes s \<noteq> [] \<and> last (runes s) = w"
  then show "suffix (encode_rune w) s"
    using runes_last_suffix space_rune_facts(2) [OF assms] by blast
qed

lemma rune_lower_space:
  assumes "unicode_laws U" "rune_lower U r \<in> set space_runes"
  shows "r \<in> set space_runes"
proof (cases "r < 0x80")
  case True
  have "\<forall>w \<in> set space_runes. w < 97 \<or> 122 < w" by code_simp
  with assms(2) True show ?thesis by (auto simp: rune_lower_def split: if_splits)
next
  case False
  then show ?thesis using assms unicode_lawsD(3) [OF assms(1), of r] by (simp add: rune_lower_def)
qed

lemma trimmed_runes:
  "trimmed s \<longleftrightarrow> s = [] \<or> hd (runes s) \<notin> set space_runes \<and> last (runes s) \<notin> set space_runes"
  unfolding trimmed_def space_encodings_eq
  by (cases "s = []") (auto simp: runes_prefix_space runes_suffix_space runes_eq_Nil)

lemma trimmed_to_lower:
  assumes "unicode_laws U" "trimmed s"
  shows "trimmed (to_lower U s)"
  using assms
  by (auto simp: trimmed_runes runes_to_lower hd_map last_map runes_eq_Nil dest: rune_lower_space)

text \<open>The normal form the program compares addresses and entries in,
  \<^verbatim>\<open>strings.ToLower(strings.TrimSpace(s))\<close>.\<close>

abbreviation norm_entry :: "unicode \<Rightarrow> string \<Rightarrow> string" where
  "norm_entry U s \<equiv> to_lower U (trim_space s)"

lemma norm_entry_idem: "unicode_laws U \<Longrightarrow> norm_entry U (norm_entry U s) = norm_entry U s"
  by (simp add: trim_space_id trimmed_to_lower trim_space_trimmed to_lower_idem)

text \<open>Lowering neither makes nor loses an ASCII character that is not a letter.\<close>

lemma ascii_mem_encode_rune:
  assumes "ord c < 0x80" "c \<in> set (encode_rune r)"
  shows "r = ord c"
proof (rule ccontr)
  assume n: "r \<noteq> ord c"
  obtain a b where e: "encode_rune r = a @ c # b" using assms(2) by (meson split_list)
  have "runes (encode_rune r) = runes a @ runes (c # b)"
    unfolding e by (rule runes_sync) (use assms(1) not_cont_ascii in simp)
  moreover have "length (runes (encode_rune r)) = 1"
    using runes_encode_rune [of "if valid_rune r then r else rune_error" "[]"]
    by (auto simp: encode_rune_def)
  ultimately have "runes a = []" by (cases "runes a") (auto simp: runes_eq_Nil)
  then have "a = []" by (simp add: runes_eq_Nil)
  then have "hd (runes (encode_rune r)) = ord c" unfolding e
    using assms(1) by (simp add: runes_ascii_Cons)
  moreover have "hd (runes (encode_rune r)) = (if valid_rune r then r else rune_error)"
    using runes_encode_rune [of "if valid_rune r then r else rune_error" "[]"]
    by (auto simp: encode_rune_def)
  ultimately show False using n assms(1) by (auto simp: rune_error_def split: if_splits)
qed

lemma runes_ascii_mem:
  "ord c < 0x80 \<Longrightarrow> ord c \<in> set (runes s) \<Longrightarrow> c \<in> set s"
proof (induction s rule: runes.induct)
  case (1 s)
  then have s: "s \<noteq> []" by auto
  obtain r n where d: "decode_rune s = (r, n)" by fastforce
  have "runes s = r # runes (drop n s)" using s d by (simp add: runes.simps [of s])
  then consider "ord c = r" | "ord c \<in> set (runes (drop n s))" using 1(3) by auto
  then show ?case
  proof cases
    case 1
    then have "take n s = [c]"
      using encode_decode [OF s] d \<open>ord c < 0x80\<close> by (auto simp: rune_error_def)
    then show ?thesis by (metis in_set_takeD list.set_intros(1))
  next
    case 2
    then have "c \<in> set (drop n s)" using 1 s d by simp
    then show ?thesis by (rule in_set_dropD)
  qed
qed

definition non_letter :: "char \<Rightarrow> bool" where
  "non_letter c \<longleftrightarrow> ord c < 65 \<or> (90 < ord c \<and> ord c < 97) \<or> (122 < ord c \<and> ord c < 0x80)"

lemma non_letter_ascii: "non_letter c \<Longrightarrow> ord c < 0x80"
  by (auto simp: non_letter_def)

lemma non_letter_lower [simp]: "non_letter c \<Longrightarrow> ascii_lower c = c"
  by (auto simp: non_letter_def ascii_lower_def)

lemma rune_lower_non_letter:
  assumes "unicode_laws U" "non_letter c" "rune_lower U r = ord c"
  shows "r = ord c"
proof (cases "r < 0x80")
  case True
  then show ?thesis using assms(2,3) by (auto simp: rune_lower_def non_letter_def split: if_splits)
next
  case False
  then show ?thesis using assms unicode_lawsD(4) [OF assms(1), of r]
    by (auto simp: rune_lower_def non_letter_def)
qed

lemma to_lower_mem:
  assumes "unicode_laws U" "non_letter c"
  shows "c \<in> set (to_lower U s) \<longleftrightarrow> c \<in> set s"
proof
  assume "c \<in> set (to_lower U s)"
  then obtain r where r: "r \<in> set (runes s)" "c \<in> set (encode_rune (rune_lower U r))"
    by (auto simp: to_lower_map_runes map_runes_def encode_def)
  then have "r = ord c"
    using ascii_mem_encode_rune rune_lower_non_letter assms non_letter_ascii by metis
  then show "c \<in> set s" using r(1) runes_ascii_mem non_letter_ascii assms(2) by blast
next
  assume "c \<in> set s"
  then obtain a b where "s = a @ c # b" by (meson split_list)
  then show "c \<in> set (to_lower U s)"
    using assms(2) by (simp add: to_lower_append_ascii non_letter_ascii)
qed

lemma to_lower_split:
  assumes "unicode_laws U" "non_letter c" "to_lower U s = a @ c # b" "c \<notin> set a"
  obtains a' b' where "s = a' @ c # b'" "to_lower U a' = a" "to_lower U b' = b" "c \<notin> set a'"
proof -
  have "c \<in> set s" using assms to_lower_mem [OF assms(1,2), of s] by simp
  then obtain a' b' where s: "s = a' @ c # b'" "c \<notin> set a'" by (meson split_list_first)
  then have eq: "to_lower U a' @ c # to_lower U b' = a @ c # b"
    using assms by (simp add: to_lower_append_ascii non_letter_ascii)
  have "c \<notin> set (to_lower U a')" using s(2) to_lower_mem [OF assms(1,2)] by simp
  then have "to_lower U a' = a \<and> to_lower U b' = b" by (rule append_sep_inject [OF eq _ assms(4)])
  then show thesis using that s by simp
qed

end
