(* ===== verification/Policy.thy ===== *)
theory Policy
  imports Go_Strings Go_Text
begin

text \<open>
  \<^verbatim>\<open>internal/gateway/policy.go\<close>: which addresses an account may send from, and therefore which
  domains it may have signed. A policy is compiled from the account's list of allowed senders; the
  operator uses the same code to narrow a grant by what an account asks for.
\<close>


section \<open>The policy of an account\<close>

record senderPolicy =
  pol_addresses :: "string set"
  pol_domains :: "string set"

abbreviation LT :: char where "LT \<equiv> CHR 0x3C"
abbreviation GT :: char where "GT \<equiv> CHR 0x3E"

definition grant_entry :: "unicode \<Rightarrow> string \<Rightarrow> senderPolicy \<Rightarrow> senderPolicy" where
  "grant_entry U e p =
     (let entry = to_lower U (trim_space e) in
      case cut AT entry of
        (local, domain, found) \<Rightarrow>
          if \<not> found \<or> domain = [] \<or> local = [] then p
          else if local = ''*'' then p\<lparr>pol_domains := insert domain (pol_domains p)\<rparr>
          else p\<lparr>pol_addresses := insert entry (pol_addresses p)\<rparr>)"

definition newSenderPolicy :: "unicode \<Rightarrow> string list \<Rightarrow> senderPolicy" where
  "newSenderPolicy U allowedSenders =
     fold (grant_entry U) allowedSenders \<lparr>pol_addresses = {}, pol_domains = {}\<rparr>"

definition policy_empty :: "senderPolicy \<Rightarrow> bool" where
  "policy_empty p \<longleftrightarrow> Set.is_empty (pol_addresses p) \<and> Set.is_empty (pol_domains p)"

definition bareAddress :: "string \<Rightarrow> string" where
  "bareAddress address =
     (let addr = trim_space address;
          addr =
            (case last_index LT addr of
               None \<Rightarrow> addr
             | Some start \<Rightarrow>
                 (case index_char GT (drop start addr) of
                    None \<Rightarrow> addr
                  | Some end \<Rightarrow> if 0 < end then take (end - 1) (drop (start + 1) addr) else addr));
          addr = trim_space addr
      in if AT \<in> set addr then addr else [])"

definition allows :: "unicode \<Rightarrow> senderPolicy \<Rightarrow> string \<Rightarrow> bool" where
  "allows U p address \<longleftrightarrow>
     (let addr = to_lower U (bareAddress address) in
      if addr = [] then False
      else if addr \<in> pol_addresses p then True
      else case cut AT addr of (_, domain, found) \<Rightarrow> found \<and> domain \<in> pol_domains p)"

definition canSign :: "unicode \<Rightarrow> senderPolicy \<Rightarrow> string \<Rightarrow> bool" where
  "canSign U p d \<longleftrightarrow>
     (let domain = to_lower U (trim_space d) in
      if domain = [] then False
      else if domain \<in> pol_domains p then True
      else \<exists>address \<in> pol_addresses p.
             case cut AT address of (_, addressDomain, found) \<Rightarrow> found \<and> addressDomain = domain)"

definition covers_entry :: "unicode \<Rightarrow> senderPolicy \<Rightarrow> string \<Rightarrow> bool" where
  "covers_entry U p entry =
     (let normalized = to_lower U (trim_space entry) in
      case cut AT normalized of
        (local, domain, found) \<Rightarrow>
          if \<not> found \<or> domain = [] \<or> local = [] then False
          else if local = ''*'' then domain \<in> pol_domains p
          else domain \<in> pol_domains p \<or> normalized \<in> pol_addresses p)"

text \<open>\<^verbatim>\<open>covers\<close> returns what the policy does not grant.\<close>

definition covers :: "unicode \<Rightarrow> senderPolicy \<Rightarrow> string list \<Rightarrow> string list" where
  "covers U p requested = filter (\<lambda>entry. \<not> covers_entry U p entry) requested"

text \<open>The order a Go map is walked in is not specified; \<^verbatim>\<open>sort.Strings\<close> makes it irrelevant.\<close>

definition entries :: "senderPolicy \<Rightarrow> string list" where
  "entries p =
     sort (map (\<lambda>domain. ''*@'' @ domain) (sorted_list_of_set (pol_domains p)) @
           sorted_list_of_set (pol_addresses p))"

definition GrantedSubset :: "unicode \<Rightarrow> string list \<Rightarrow> string list \<Rightarrow> string list \<times> string list" where
  "GrantedSubset U granted requested =
     (let policy = newSenderPolicy U granted in
      if requested = [] then (entries policy, [])
      else (let refused = covers U policy requested;
                refusedSet = set refused
            in (filter (\<lambda>entry. entry \<notin> refusedSet) requested, refused)))"


section \<open>What a policy grants\<close>

text \<open>The entries a list compiles to, without the fold.\<close>

definition address_entry :: "unicode \<Rightarrow> string \<Rightarrow> string \<Rightarrow> bool" where
  "address_entry U e a \<longleftrightarrow>
     norm_entry U e = a \<and> (\<exists>l d. a = l @ AT # d \<and> AT \<notin> set l \<and> l \<noteq> [] \<and> l \<noteq> ''*'' \<and> d \<noteq> [])"

definition domain_entry :: "unicode \<Rightarrow> string \<Rightarrow> string \<Rightarrow> bool" where
  "domain_entry U e d \<longleftrightarrow> norm_entry U e = ''*@'' @ d \<and> d \<noteq> []"

lemma AT_not_star [simp]: "AT \<noteq> CHR ''*''"
  by simp

lemma grant_entry_eq:
  "grant_entry U e p =
     \<lparr>pol_addresses = pol_addresses p \<union> {a. address_entry U e a},
      pol_domains = pol_domains p \<union> {d. domain_entry U e d}\<rparr>"
proof (cases rule: cut_cases [of "norm_entry U e" AT])
  case (found l d)
  have "domain_entry U e x \<longleftrightarrow> l = ''*'' \<and> x = d \<and> d \<noteq> []" for x
    using append_sep_inject [of l AT d "''*''" x] found(1,2) by (auto simp: domain_entry_def)
  moreover have "address_entry U e a \<longleftrightarrow> a = norm_entry U e \<and> l \<noteq> [] \<and> l \<noteq> ''*'' \<and> d \<noteq> []" for a
    using append_sep_inject [of l AT d] found(1,2) by (auto simp: address_entry_def)
  ultimately show ?thesis using found(3) by (auto simp: grant_entry_def Let_def)
next
  case missing
  then have "\<not> address_entry U e a" "\<not> domain_entry U e a" for a
    by (auto simp: address_entry_def domain_entry_def)
  then show ?thesis using missing by (simp add: grant_entry_def)
qed

lemma newSenderPolicy_eq:
  "newSenderPolicy U es =
     \<lparr>pol_addresses = {a. \<exists>e \<in> set es. address_entry U e a},
      pol_domains = {d. \<exists>e \<in> set es. domain_entry U e d}\<rparr>"
proof -
  have "fold (grant_entry U) es p =
     \<lparr>pol_addresses = pol_addresses p \<union> {a. \<exists>e \<in> set es. address_entry U e a},
      pol_domains = pol_domains p \<union> {d. \<exists>e \<in> set es. domain_entry U e d}\<rparr>" for p
    by (induction es arbitrary: p) (auto simp: grant_entry_eq)
  then show ?thesis by (simp add: newSenderPolicy_def)
qed

lemma pol_addresses_new [simp]:
  "a \<in> pol_addresses (newSenderPolicy U es) \<longleftrightarrow> (\<exists>e \<in> set es. address_entry U e a)"
  by (simp add: newSenderPolicy_eq)

lemma pol_domains_new [simp]:
  "d \<in> pol_domains (newSenderPolicy U es) \<longleftrightarrow> (\<exists>e \<in> set es. domain_entry U e d)"
  by (simp add: newSenderPolicy_eq)

lemma finite_new_policy [simp]:
  "finite (pol_addresses (newSenderPolicy U es))" "finite (pol_domains (newSenderPolicy U es))"
proof -
  have "pol_addresses (newSenderPolicy U es) \<subseteq> norm_entry U ` set es"
    by (auto simp: address_entry_def)
  then show "finite (pol_addresses (newSenderPolicy U es))" by (rule finite_subset) simp
  have "pol_domains (newSenderPolicy U es) \<subseteq> (\<lambda>e. drop 2 (norm_entry U e)) ` set es"
    by (force simp: domain_entry_def)
  then show "finite (pol_domains (newSenderPolicy U es))" by (rule finite_subset) simp
qed

lemma domain_entry_cut:
  "domain_entry U e d \<longleftrightarrow> cut AT (norm_entry U e) = (''*'', d, True) \<and> d \<noteq> []"
  using cutD [of AT "norm_entry U e" "''*''" d] cut_found [of AT "''*''" d]
  by (auto simp: domain_entry_def)

lemma address_entry_cut:
  "address_entry U e a \<longleftrightarrow>
     norm_entry U e = a \<and> (\<exists>l d. cut AT a = (l, d, True) \<and> l \<noteq> [] \<and> l \<noteq> ''*'' \<and> d \<noteq> [])"
proof -
  have "(a = l @ AT # d \<and> AT \<notin> set l) \<longleftrightarrow> cut AT a = (l, d, True)" for l d
    using cutD [of AT a l d] by auto
  then show ?thesis by (auto simp: address_entry_def)
qed

lemma covers_entry_iff:
  "covers_entry U p e \<longleftrightarrow>
     (\<exists>d. domain_entry U e d \<and> d \<in> pol_domains p) \<or>
     (\<exists>a. address_entry U e a \<and>
          (a \<in> pol_addresses p \<or> (\<exists>l d. cut AT a = (l, d, True) \<and> d \<in> pol_domains p)))"
  by (cases rule: cut_cases [of "norm_entry U e" AT])
     (auto simp: covers_entry_def Let_def domain_entry_cut address_entry_cut)

text \<open>One policy grants no more than another.\<close>

definition subsumed :: "senderPolicy \<Rightarrow> senderPolicy \<Rightarrow> bool" where
  "subsumed p q \<longleftrightarrow>
     pol_domains p \<subseteq> pol_domains q \<and>
     (\<forall>a \<in> pol_addresses p.
        a \<in> pol_addresses q \<or> (\<exists>l d. cut AT a = (l, d, True) \<and> d \<in> pol_domains q))"

lemma subsumed_refl [simp]: "subsumed p p"
  by (auto simp: subsumed_def)

lemma subsumed_allows: "subsumed p q \<Longrightarrow> allows U p a \<Longrightarrow> allows U q a"
  by (auto simp: subsumed_def allows_def Let_def split: if_splits prod.splits)

lemma subsumed_canSign: "subsumed p q \<Longrightarrow> canSign U p d \<Longrightarrow> canSign U q d"
  by (fastforce simp: subsumed_def canSign_def Let_def split: if_splits prod.splits)

lemma subsumed_covered:
  "\<forall>e \<in> set es. covers_entry U q e \<Longrightarrow> subsumed (newSenderPolicy U es) q"
  unfolding subsumed_def covers_entry_iff
  by (fastforce simp: domain_entry_cut address_entry_cut)

lemma set_covers [simp]: "set (covers U p es) = {e \<in> set es. \<not> covers_entry U p e}"
  by (auto simp: covers_def)

lemma GrantedSubset_requested:
  "requested \<noteq> [] \<Longrightarrow>
   GrantedSubset U granted requested =
     (filter (covers_entry U (newSenderPolicy U granted)) requested,
      filter (\<lambda>e. \<not> covers_entry U (newSenderPolicy U granted) e) requested)"
  by (auto simp: GrantedSubset_def Let_def covers_def intro!: filter_cong)

text \<open>Printing a policy and compiling the list again gives the policy back.\<close>

lemma set_entries:
  "x \<in> set (entries (newSenderPolicy U es)) \<longleftrightarrow>
     (\<exists>e \<in> set es. x = norm_entry U e \<and> (Ex (address_entry U e) \<or> Ex (domain_entry U e)))"
proof -
  have a: "address_entry U e x \<longleftrightarrow> x = norm_entry U e \<and> Ex (address_entry U e)" for e
    unfolding address_entry_def by blast
  have d: "(\<exists>d. x = ''*@'' @ d \<and> domain_entry U e d) \<longleftrightarrow> x = norm_entry U e \<and> Ex (domain_entry U e)" for e
    by (auto simp: domain_entry_def)
  have "x \<in> set (entries (newSenderPolicy U es)) \<longleftrightarrow>
      (\<exists>e \<in> set es. (\<exists>d. x = ''*@'' @ d \<and> domain_entry U e d) \<or> address_entry U e x)"
    by (auto simp: entries_def image_iff)
  then show ?thesis unfolding a d by blast
qed

lemma entry_norm:
  assumes "unicode_laws U"
  shows "address_entry U (norm_entry U e) a = address_entry U e a"
    and "domain_entry U (norm_entry U e) d = domain_entry U e d"
  by (simp_all add: address_entry_def domain_entry_def norm_entry_idem [OF assms])

lemma new_entries:
  assumes "unicode_laws U"
  shows "newSenderPolicy U (entries (newSenderPolicy U es)) = newSenderPolicy U es"
proof -
  have "(\<exists>x \<in> set (entries (newSenderPolicy U es)). address_entry U x a) \<longleftrightarrow>
        (\<exists>e \<in> set es. address_entry U e a)" for a
    unfolding Bex_def set_entries using entry_norm(1) [OF assms] by blast
  moreover have "(\<exists>x \<in> set (entries (newSenderPolicy U es)). domain_entry U x d) \<longleftrightarrow>
        (\<exists>e \<in> set es. domain_entry U e d)" for d
    unfolding Bex_def set_entries using entry_norm(2) [OF assms] by blast
  ultimately show ?thesis unfolding newSenderPolicy_eq by simp
qed

lemma subsumed_GrantedSubset:
  assumes "unicode_laws U"
  shows "subsumed (newSenderPolicy U (fst (GrantedSubset U granted requested))) (newSenderPolicy U granted)"
proof (cases "requested = []")
  case True
  then show ?thesis by (simp add: GrantedSubset_def new_entries [OF assms])
next
  case False
  then show ?thesis by (simp add: GrantedSubset_requested subsumed_covered)
qed

text \<open>Addresses that need no unwrapping.\<close>

lemma bareAddress_plain:
  "trimmed a \<Longrightarrow> AT \<in> set a \<Longrightarrow> LT \<notin> set a \<Longrightarrow> bareAddress a = a"
  by (simp add: bareAddress_def last_index_def trim_space_id)

lemma last_index_append: "c \<notin> set b \<Longrightarrow> last_index c (a @ c # b) = Some (length a)"
  by (simp add: last_index_def takeWhile_append2)

lemma bareAddress_angle:
  assumes "trimmed (n @ LT # a @ GT # t)" "LT \<notin> set a" "GT \<notin> set a" "LT \<notin> set t"
    and "trimmed a" "AT \<in> set a"
  shows "bareAddress (n @ LT # a @ GT # t) = a"
proof -
  have "last_index LT (n @ LT # a @ GT # t) = Some (length n)"
    using assms by (intro last_index_append) auto
  moreover have "index_char GT (LT # a @ GT # t) = Some (Suc (length a))"
    using assms(3) by (simp add: index_char_def takeWhile_append2)
  ultimately show ?thesis using assms by (simp add: bareAddress_def trim_space_id)
qed

lemma AT_bareAddress: "bareAddress a \<noteq> [] \<Longrightarrow> AT \<in> set (bareAddress a)"
  by (auto simp: bareAddress_def Let_def split: if_splits)

lemma non_letter_AT [simp]: "non_letter AT"
  by (simp add: non_letter_def ord_def)

text \<open>\<open>allows\<close> without the compiled sets: the address is listed, or its whole domain is.\<close>

lemma allows_iff:
  assumes "unicode_laws U" "to_lower U (bareAddress address) = l @ AT # d" "AT \<notin> set l"
  shows "allows U (newSenderPolicy U es) address \<longleftrightarrow>
     d \<noteq> [] \<and> (\<exists>e \<in> set es. norm_entry U e = ''*@'' @ d \<or>
                      (l \<noteq> [] \<and> l \<noteq> ''*'' \<and> norm_entry U e = l @ AT # d))"
proof -
  have "address_entry U e (l @ AT # d) \<longleftrightarrow> norm_entry U e = l @ AT # d \<and> l \<noteq> [] \<and> l \<noteq> ''*'' \<and> d \<noteq> []" for e
    using assms(3) by (auto simp: address_entry_cut)
  then show ?thesis
    using assms by (auto simp: allows_def Let_def domain_entry_def)
qed


text \<open>\<open>canSign\<close> likewise.\<close>

lemma cut_sep_iff: "(\<exists>l. a = l @ c # d \<and> c \<notin> set l) \<longleftrightarrow> (case cut c a of (_, d', found) \<Rightarrow> found \<and> d' = d)"
proof (cases rule: cut_cases [of a c])
  case (found x y)
  then show ?thesis using append_sep_inject [of x c y _ d] by auto
qed auto

lemma canSign_iff:
  assumes "norm_entry U domain = domain"
  shows "canSign U (newSenderPolicy U es) domain \<longleftrightarrow>
     domain \<noteq> [] \<and> (\<exists>e \<in> set es. domain_entry U e domain \<or>
                           (\<exists>l. AT \<notin> set l \<and> address_entry U e (l @ AT # domain)))"
proof -
  have "canSign U (newSenderPolicy U es) domain \<longleftrightarrow> domain \<noteq> [] \<and>
      (domain \<in> pol_domains (newSenderPolicy U es) \<or>
       (\<exists>a \<in> pol_addresses (newSenderPolicy U es). \<exists>l. a = l @ AT # domain \<and> AT \<notin> set l))"
    unfolding cut_sep_iff by (simp add: canSign_def assms)
  then show ?thesis unfolding Bex_def pol_addresses_new pol_domains_new by blast
qed

text \<open>Strings already in normal form.\<close>

lemma norm_entry_fixed:
  assumes "unicode_laws U" "norm_entry U a = a"
  shows "trimmed a" "to_lower U a = a"
proof -
  show t: "trimmed a" using trimmed_to_lower [OF assms(1) trim_space_trimmed, of a] assms(2) by simp
  show "to_lower U a = a" using assms(2) trim_space_id [OF t] by simp
qed

lemma bareAddress_fixed:
  assumes "unicode_laws U" "norm_entry U a = a" "AT \<in> set a" "LT \<notin> set a"
  shows "to_lower U (bareAddress a) = a"
  using assms norm_entry_fixed by (simp add: bareAddress_plain)

lemma norm_entry_LT:
  assumes "unicode_laws U" "LT \<notin> set e"
  shows "LT \<notin> set (norm_entry U e)"
proof -
  have "non_letter LT" by (simp add: non_letter_def ord_def)
  then show ?thesis using assms set_trim_space_subset to_lower_mem by blast
qed

lemma norm_entry_any_local:
  assumes "unicode_laws U" "norm_entry U d = d" "d \<noteq> []"
  shows "norm_entry U (''x'' @ AT # d) = ''x'' @ AT # d"
proof -
  have "trimmed (''x@'' @ d)"
    using norm_entry_fixed(1) [OF assms(1,2)] assms(3)
    by (simp add: trimmed_runes ord_def) (simp add: space_runes_def)
  then show ?thesis
    using norm_entry_fixed(2) [OF assms(1,2)]
    by (simp add: trim_space_id to_lower_Cons_ascii ord_def ascii_lower_def)
qed


section \<open>Properties\<close>

text \<open>C12: an account cannot widen its grant. Whatever it asks for, the list it ends up with lets it send
  from no address and sign for no domain that the gateway's grant to its namespace does not already
  cover.\<close>

theorem GrantedSubset_no_escalation:
  assumes "unicode_laws U"
  shows "(allows U (newSenderPolicy U (fst (GrantedSubset U granted requested))) address \<longrightarrow>
            allows U (newSenderPolicy U granted) address) \<and>
         (canSign U (newSenderPolicy U (fst (GrantedSubset U granted requested))) domain \<longrightarrow>
            canSign U (newSenderPolicy U granted) domain)"
  using subsumed_GrantedSubset [OF assms] subsumed_allows subsumed_canSign by blast

theorem GrantedSubset_no_escalation_witness:
  "allows ascii_unicode (newSenderPolicy ascii_unicode
       (fst (GrantedSubset ascii_unicode [''*@Example.com''] [''app@example.com'', ''*@bank.test''])))
     ''App <app@example.com>'' \<and>
   allows ascii_unicode (newSenderPolicy ascii_unicode [''*@Example.com'']) ''App <app@example.com>'' \<and>
   \<not> canSign ascii_unicode (newSenderPolicy ascii_unicode
       (fst (GrantedSubset ascii_unicode [''*@Example.com''] [''app@example.com'', ''*@bank.test''])))
     ''bank.test''"
proof -
  let ?p = "newSenderPolicy ascii_unicode
       (fst (GrantedSubset ascii_unicode [''*@Example.com''] [''app@example.com'', ''*@bank.test'']))"
  have "allows ascii_unicode ?p ''App <app@example.com>''" by code_simp
  moreover have "\<not> canSign ascii_unicode ?p ''bank.test''" by code_simp
  ultimately show ?thesis
    using GrantedSubset_no_escalation [OF ascii_unicode_laws,
        of "[''*@Example.com'']" "[''app@example.com'', ''*@bank.test'']" "''App <app@example.com>''"]
    by blast
qed

text \<open>a request that is not empty is split exactly, in order and without loss: the allowed part is
  what the grant covers (the entry itself is granted, or its whole domain is), the refused part is the
  rest, malformed entries included.\<close>

theorem GrantedSubset_partition:
  assumes "requested \<noteq> []"
  shows "fst (GrantedSubset U granted requested) =
           filter (covers_entry U (newSenderPolicy U granted)) requested \<and>
         snd (GrantedSubset U granted requested) =
           filter (\<lambda>e. \<not> covers_entry U (newSenderPolicy U granted) e) requested"
  using assms by (simp add: GrantedSubset_requested)

theorem GrantedSubset_partition_witness:
  "GrantedSubset ascii_unicode [''*@a.test'', ''x@b.test''] [''x@b.test'', ''y@b.test'', '' U@A.test'', ''bad'']
     = ([''x@b.test'', '' U@A.test''], [''y@b.test'', ''bad''])"
proof -
  let ?g = "[''*@a.test'', ''x@b.test'']"
  let ?r = "[''x@b.test'', ''y@b.test'', '' U@A.test'', ''bad'']"
  have "filter (covers_entry ascii_unicode (newSenderPolicy ascii_unicode ?g)) ?r
      = [''x@b.test'', '' U@A.test'']" by code_simp
  moreover have "filter (\<lambda>e. \<not> covers_entry ascii_unicode (newSenderPolicy ascii_unicode ?g) e) ?r
      = [''y@b.test'', ''bad'']" by code_simp
  ultimately show ?thesis
    using GrantedSubset_partition [of ?r ascii_unicode ?g] by (simp add: prod_eq_iff)
qed

text \<open>The list a policy prints compiles to the policy it was printed from, so an account that asks for
  nothing is given exactly the grant: the same senders and the same signable domains.\<close>

theorem entries_roundtrip:
  assumes "unicode_laws U"
  shows "newSenderPolicy U (entries (newSenderPolicy U granted)) = newSenderPolicy U granted \<and>
         newSenderPolicy U (fst (GrantedSubset U granted [])) = newSenderPolicy U granted"
  using new_entries [OF assms] by (simp add: GrantedSubset_def)

theorem entries_roundtrip_witness:
  "entries (newSenderPolicy ascii_unicode ['' App@B.test'', ''*@a.test'', ''nonsense'']) =
     [''*@a.test'', ''app@b.test''] \<and>
   newSenderPolicy ascii_unicode [''*@a.test'', ''app@b.test''] =
     newSenderPolicy ascii_unicode ['' App@B.test'', ''*@a.test'', ''nonsense'']"
proof -
  have "entries (newSenderPolicy ascii_unicode ['' App@B.test'', ''*@a.test'', ''nonsense'']) =
     [''*@a.test'', ''app@b.test'']" by code_simp
  then show ?thesis
    using entries_roundtrip [OF ascii_unicode_laws, of "['' App@B.test'', ''*@a.test'', ''nonsense'']"]
    by simp
qed

text \<open>An account may send from an address exactly when the list names that address or the whole of its
  domain, comparing without regard to case and surrounding space. The address is whatever
  \<open>bareAddress\<close> finds, split at its first at sign.\<close>

theorem allows_exactly:
  assumes "unicode_laws U" "to_lower U (bareAddress address) = l @ AT # d" "AT \<notin> set l"
  shows "allows U (newSenderPolicy U es) address \<longleftrightarrow>
     d \<noteq> [] \<and> (\<exists>e \<in> set es. norm_entry U e = ''*@'' @ d \<or>
                      (l \<noteq> [] \<and> l \<noteq> ''*'' \<and> norm_entry U e = l @ AT # d))"
  using assms by (rule allows_iff)

theorem allows_exactly_witness:
  "to_lower ascii_unicode (bareAddress ''App <App@A.test>'') = ''app@a.test'' \<and>
   allows ascii_unicode (newSenderPolicy ascii_unicode [''b@a.test'', '' APP@a.test'']) ''App <App@A.test>''"
proof -
  have b: "to_lower ascii_unicode (bareAddress ''App <App@A.test>'') = ''app@a.test''" by code_simp
  have e: "norm_entry ascii_unicode '' APP@a.test'' = ''app@a.test''" by code_simp
  show ?thesis
    using allows_exactly [OF ascii_unicode_laws, of "''App <App@A.test>''" "''app''" "''a.test''"
        "[''b@a.test'', '' APP@a.test'']"] b e by simp
qed

text \<open>nothing granted means nothing sent and nothing signed; and a compiled policy grants nothing
  exactly when no entry of the list is well formed.\<close>

theorem empty_policy_grants_nothing:
  "(policy_empty p \<longrightarrow> \<not> allows U p address \<and> \<not> canSign U p domain) \<and>
   (policy_empty (newSenderPolicy U es) \<longleftrightarrow>
      (\<forall>e \<in> set es. \<not> (\<exists>l d. norm_entry U e = l @ AT # d \<and> AT \<notin> set l \<and> l \<noteq> [] \<and> d \<noteq> [])))"
proof -
  have "(\<exists>l d. norm_entry U e = l @ AT # d \<and> AT \<notin> set l \<and> l \<noteq> [] \<and> d \<noteq> []) \<longleftrightarrow>
      Ex (address_entry U e) \<or> Ex (domain_entry U e)" for e
  proof -
    have "norm_entry U e = ''*@'' @ d \<longleftrightarrow> (\<exists>l. norm_entry U e = l @ AT # d \<and> AT \<notin> set l \<and> l = ''*'')" for d
      by auto
    then show ?thesis unfolding address_entry_def domain_entry_def by blast
  qed
  then show ?thesis
    by (auto simp: policy_empty_def allows_def canSign_def Let_def newSenderPolicy_eq
        split: prod.splits)
qed

theorem empty_policy_grants_nothing_witness:
  "policy_empty (newSenderPolicy ascii_unicode [''nobody'', ''@x.test'', ''a@'']) \<and>
   \<not> allows ascii_unicode (newSenderPolicy ascii_unicode [''nobody'', ''@x.test'', ''a@'']) ''a@x.test''"
proof -
  have "policy_empty (newSenderPolicy ascii_unicode [''nobody'', ''@x.test'', ''a@''])" by code_simp
  then show ?thesis using empty_policy_grants_nothing by blast
qed

text \<open>the right to sign and the right to send go together. With entries free of angle brackets, a
  domain is signable exactly when the account may send from some address of it.\<close>

theorem canSign_iff_may_send:
  assumes "unicode_laws U" "norm_entry U domain = domain" "LT \<notin> set domain" "AT \<notin> set domain"
    and "\<forall>e \<in> set es. LT \<notin> set e"
  shows "canSign U (newSenderPolicy U es) domain \<longleftrightarrow>
     (\<exists>l. AT \<notin> set l \<and> to_lower U (bareAddress (l @ AT # domain)) = l @ AT # domain \<and>
          allows U (newSenderPolicy U es) (l @ AT # domain))"
proof
  assume "canSign U (newSenderPolicy U es) domain"
  then obtain e where e: "e \<in> set es" and d: "domain \<noteq> []"
    and c: "domain_entry U e domain \<or> (\<exists>l. AT \<notin> set l \<and> address_entry U e (l @ AT # domain))"
    unfolding canSign_iff [OF assms(2)] by blast
  obtain l where l: "AT \<notin> set l" "norm_entry U (l @ AT # domain) = l @ AT # domain"
    "LT \<notin> set (l @ AT # domain)"
    "norm_entry U e = ''*@'' @ domain \<or> (l \<noteq> [] \<and> l \<noteq> ''*'' \<and> norm_entry U e = l @ AT # domain)"
  proof (cases "domain_entry U e domain")
    case True
    then show thesis using that [of "''x''"] norm_entry_any_local [OF assms(1,2) d] assms(3)
      by (simp add: domain_entry_def)
  next
    case False
    then obtain l where "address_entry U e (l @ AT # domain)" "AT \<notin> set l" using c by blast
    then have "norm_entry U e = l @ AT # domain" "l \<noteq> []" "l \<noteq> ''*''"
      by (simp_all add: address_entry_cut)
    then show thesis
      using that [of l] norm_entry_idem [OF assms(1), of e] norm_entry_LT [OF assms(1), of e] e assms(5)
        \<open>AT \<notin> set l\<close> by metis
  qed
  have b: "to_lower U (bareAddress (l @ AT # domain)) = l @ AT # domain"
    using bareAddress_fixed [OF assms(1) l(2)] l(3) by simp
  then have "allows U (newSenderPolicy U es) (l @ AT # domain)"
    using allows_iff [OF assms(1) b l(1)] d e l(4) by blast
  with b l(1) show "\<exists>l. AT \<notin> set l \<and> to_lower U (bareAddress (l @ AT # domain)) = l @ AT # domain \<and>
          allows U (newSenderPolicy U es) (l @ AT # domain)" by blast
next
  assume "\<exists>l. AT \<notin> set l \<and> to_lower U (bareAddress (l @ AT # domain)) = l @ AT # domain \<and>
          allows U (newSenderPolicy U es) (l @ AT # domain)"
  then obtain l where l: "AT \<notin> set l" "to_lower U (bareAddress (l @ AT # domain)) = l @ AT # domain"
    "allows U (newSenderPolicy U es) (l @ AT # domain)" by blast
  then obtain e where e: "domain \<noteq> []" "e \<in> set es" "norm_entry U e = ''*@'' @ domain \<or>
      (l \<noteq> [] \<and> l \<noteq> ''*'' \<and> norm_entry U e = l @ AT # domain)"
    unfolding allows_iff [OF assms(1) l(2,1)] by blast
  then have "domain_entry U e domain \<or> address_entry U e (l @ AT # domain)"
    using l(1) by (auto simp: domain_entry_def address_entry_cut)
  then show "canSign U (newSenderPolicy U es) domain"
    unfolding canSign_iff [OF assms(2)] using e(1,2) l(1) by blast
qed

theorem canSign_iff_may_send_witness:
  "canSign ascii_unicode (newSenderPolicy ascii_unicode [''App@Example.test'']) ''example.test''"
proof -
  have h: "norm_entry ascii_unicode ''example.test'' = ''example.test''" by code_simp
  have b: "to_lower ascii_unicode (bareAddress (''app'' @ AT # ''example.test'')) = ''app'' @ AT # ''example.test''"
    by code_simp
  have "allows ascii_unicode (newSenderPolicy ascii_unicode [''App@Example.test'']) (''app'' @ AT # ''example.test'')"
    by code_simp
  then have "\<exists>l. AT \<notin> set l \<and>
      to_lower ascii_unicode (bareAddress (l @ AT # ''example.test'')) = l @ AT # ''example.test'' \<and>
      allows ascii_unicode (newSenderPolicy ascii_unicode [''App@Example.test'']) (l @ AT # ''example.test'')"
    using b by (intro exI [of _ "''app''"]) simp
  then show ?thesis
    using canSign_iff_may_send [OF ascii_unicode_laws h, of "[''App@Example.test'']"] by simp
qed

end
