(* ===== verification/Go_Errors.thy ===== *)
theory Go_Errors
  imports Prelude
begin

text \<open>
  Error values. Go's \<^verbatim>\<open>error\<close> is a chain: \<^verbatim>\<open>fmt.Errorf("...: %w", err)\<close> wraps, and
  \<^verbatim>\<open>errors.As\<close> and \<^verbatim>\<open>errors.Is\<close> look along the chain. A nil error is \<^const>\<open>None\<close>, and a Go result
  \<^verbatim>\<open>(T, error)\<close> is a sum. The answers the gateway gives its own clients are collected here, one
  constant per constructor function of the source.
\<close>


section \<open>Errors and chains\<close>

text \<open>\<^verbatim>\<open>smtp.SMTPError\<close>: the reply code, the enhanced code and the text.\<close>

record smtp_error =
  se_Code :: int
  se_EnhancedCode :: "int \<times> int \<times> int"
  se_Message :: string

text \<open>\<open>Sentinel\<close> stands for the error values that other packages export and this code only passes on
  (\<^verbatim>\<open>smtp.ErrAuthRequired\<close> and its like); \<open>Plain\<close> for an error with a text and nothing to unwrap.\<close>

datatype go_error =
    SMTPErr smtp_error
  | ErrDiscard
  | ErrAuthFailed
  | ErrAccountDisabled
  | Sentinel string
  | Plain string
  | Wrap string go_error

type_synonym 'a result = "go_error + 'a"

text \<open>\<^verbatim>\<open>errors.As\<close> with a \<^verbatim>\<open>*smtp.SMTPError\<close> target, and \<^verbatim>\<open>errors.Is(err, errDiscard)\<close>.\<close>

fun errors_As :: "go_error \<Rightarrow> smtp_error option" where
  "errors_As (SMTPErr e) = Some e"
| "errors_As (Wrap _ e) = errors_As e"
| "errors_As _ = None"

fun errors_Is_discard :: "go_error \<Rightarrow> bool" where
  "errors_Is_discard ErrDiscard = True"
| "errors_Is_discard (Wrap _ e) = errors_Is_discard e"
| "errors_Is_discard _ = False"

lemma As_not_discard: "errors_As e = Some s \<Longrightarrow> \<not> errors_Is_discard e"
  by (induction e) auto

abbreviation smtp_reply :: "int \<Rightarrow> int \<times> int \<times> int \<Rightarrow> string \<Rightarrow> smtp_error" where
  "smtp_reply code enhanced message \<equiv>
     \<lparr>se_Code = code, se_EnhancedCode = enhanced, se_Message = message\<rparr>"

text \<open>What a reply tells the client: try again, or never.\<close>

definition temporary :: "smtp_error \<Rightarrow> bool" where
  "temporary e \<longleftrightarrow> 400 \<le> se_Code e \<and> se_Code e < 500"

definition permanent :: "smtp_error \<Rightarrow> bool" where
  "permanent e \<longleftrightarrow> 500 \<le> se_Code e \<and> se_Code e < 600"


section \<open>The gateway's own answers\<close>

definition errOverQuota :: "string \<Rightarrow> smtp_error" where
  "errOverQuota what =
     smtp_reply 452 (4, 2, 2) (''Too many '' @ what @ '' for this account, try again later'')"

definition errStoreUnavailable :: smtp_error where
  "errStoreUnavailable = smtp_reply 451 (4, 3, 2) ''Quota store unavailable, try again later''"

definition errCredentialsRevoked :: smtp_error where
  "errCredentialsRevoked = smtp_reply 421 (4, 7, 0) ''Credentials are no longer valid''"

definition errSpoolFailed :: "go_error \<Rightarrow> smtp_error" where
  "errSpoolFailed err = smtp_reply 451 (4, 3, 0) ''Unable to buffer the message, try again later''"

definition errTooManyAuthFailures :: smtp_error where
  "errTooManyAuthFailures = smtp_reply 421 (4, 7, 0) ''Too many authentication failures''"

definition errAuthBusy :: smtp_error where
  "errAuthBusy = smtp_reply 451 (4, 3, 2) ''Too busy to verify credentials, try again later''"

definition errMalformedHeaders :: "string \<Rightarrow> smtp_error" where
  "errMalformedHeaders why = smtp_reply 550 (5, 6, 0) (''Malformed message headers: '' @ why)"

definition errSenderNotAllowed :: "string \<Rightarrow> smtp_error" where
  "errSenderNotAllowed address =
     smtp_reply 550 (5, 7, 1) (''Sender '' @ address @ '' is not allowed for this account'')"

lemmas own_replies [smtp_err] =
  errOverQuota_def errStoreUnavailable_def errCredentialsRevoked_def errSpoolFailed_def
  errTooManyAuthFailures_def errAuthBusy_def errMalformedHeaders_def errSenderNotAllowed_def

end
