(* ===== verification/Config.thy ===== *)
theory Config
  imports Go_Errors Go_Strings
begin

text \<open>
  \<^verbatim>\<open>internal/gateway/config.go\<close>: the configuration snapshot, its defaults, its validation, and the
  split of its accounts into those that are served and those that are left out. The data types of
  \<^verbatim>\<open>milter.go\<close>, \<^verbatim>\<open>dkim.go\<close> and \<^verbatim>\<open>ratelimit.go\<close> that a configuration is made of are here too, with
  the parsing of a milter address. Decoding from JSON or YAML is not modelled. A
  \<^verbatim>\<open>time.Duration\<close> is an integer number of nanoseconds.
\<close>


section \<open>The configuration\<close>

type_synonym TLSMode = string
type_synonym Duration = int

definition TLSModeSTARTTLS :: TLSMode where "TLSModeSTARTTLS = ''starttls''"
definition TLSModeImplicit :: TLSMode where "TLSModeImplicit = ''implicit''"
definition TLSModeNone :: TLSMode where "TLSModeNone = ''none''"

lemmas tls_modes = TLSModeSTARTTLS_def TLSModeImplicit_def TLSModeNone_def

record Listener =
  lis_Name :: string
  lis_Addr :: string
  lis_Mode :: TLSMode

record CertificateRef =
  crt_Name :: string
  crt_CertFile :: string
  crt_KeyFile :: string
  crt_CertPEM :: string
  crt_KeyPEM :: string

record TLSConfig =
  tls_Certificates :: "CertificateRef list"
  tls_DefaultCertificate :: string

record Upstream =
  ups_Host :: string
  ups_Port :: int
  ups_TLS :: TLSMode
  ups_InsecureSkipVerify :: bool
  ups_RootCAPEM :: string
  ups_Username :: string
  ups_Password :: string
  ups_Timeout :: Duration

record Account =
  acc_Username :: string
  acc_PasswordHash :: string
  acc_Disabled :: bool
  acc_AllowedSenders :: "string list"
  acc_SkipHeaderFromCheck :: bool

record Limits =
  lim_MaxMessageBytes :: int
  lim_MaxRecipients :: int
  lim_ReadTimeout :: Duration
  lim_WriteTimeout :: Duration
  lim_MaxLineLength :: int
  lim_MaxConnections :: int
  lim_SpoolDir :: string
  lim_SpoolThreshold :: int

record Milter =
  mil_Name :: string
  mil_Address :: string
  mil_FailOpen :: bool
  mil_Timeout :: Duration

record DKIMKey =
  dk_Domain :: string
  dk_Selector :: string
  dk_PrivateKeyPEM :: string
  dk_PrivateKeyFile :: string
  dk_HeaderKeys :: "string list"

record RateLimitStore =
  rls_Addresses :: "string list"
  rls_MasterName :: string
  rls_DB :: int
  rls_Username :: string
  rls_Password :: string
  rls_SentinelUsername :: string
  rls_SentinelPassword :: string
  rls_TLS :: bool
  rls_InsecureSkipVerify :: bool
  rls_RootCAPEM :: string
  rls_Timeout :: Duration

record RateLimit =
  rl_Store :: RateLimitStore
  rl_MessagesPerMinute :: int
  rl_RecipientsPerMinute :: int

record MetricsConfig =
  mc_Token :: string

record Config =
  cfg_Hostname :: string
  cfg_Listeners :: "Listener list"
  cfg_TLS :: TLSConfig
  cfg_Upstream :: Upstream
  cfg_Accounts :: "Account list"
  cfg_Milters :: "Milter list"
  cfg_DKIM :: "DKIMKey list"
  cfg_RateLimit :: "RateLimit option"
  cfg_Limits :: Limits
  cfg_Metrics :: MetricsConfig

text \<open>\<^verbatim>\<open>net.JoinHostPort\<close>: a host with a colon in it is an IPv6 literal and is bracketed.\<close>

definition JoinHostPort :: "string \<Rightarrow> string \<Rightarrow> string" where
  "JoinHostPort host port =
     (if COLON \<in> set host then ''['' @ host @ '']:'' @ port else host @ '':'' @ port)"

definition Upstream_Address :: "Upstream \<Rightarrow> string" where
  "Upstream_Address u = JoinHostPort (ups_Host u) (show_int (ups_Port u))"


section \<open>Defaults\<close>

definition defaultMaxMessageBytes :: int where "defaultMaxMessageBytes = 25 * 1024 * 1024"
definition defaultMaxRecipients :: int where "defaultMaxRecipients = 50"
definition defaultMaxConnections :: int where "defaultMaxConnections = 64"
definition defaultMaxLineLength :: int where "defaultMaxLineLength = 8000"
definition defaultSpoolThreshold :: int where "defaultSpoolThreshold = 1024 * 1024"
definition defaultReadTimeout :: Duration where "defaultReadTimeout = 60 * 1000000000"
definition defaultWriteTimeout :: Duration where "defaultWriteTimeout = 60 * 1000000000"
definition defaultUpstreamTimeout :: Duration where "defaultUpstreamTimeout = 60 * 1000000000"

lemmas default_limits =
  defaultMaxMessageBytes_def defaultMaxRecipients_def defaultMaxConnections_def
  defaultMaxLineLength_def defaultSpoolThreshold_def defaultReadTimeout_def
  defaultWriteTimeout_def defaultUpstreamTimeout_def

definition or_default :: "int \<Rightarrow> int \<Rightarrow> int" where
  "or_default v d = (if v = 0 then d else v)"

definition default_Limits :: "Limits \<Rightarrow> Limits" where
  "default_Limits l =
     l\<lparr>lim_MaxMessageBytes := or_default (lim_MaxMessageBytes l) defaultMaxMessageBytes,
       lim_MaxRecipients := or_default (lim_MaxRecipients l) defaultMaxRecipients,
       lim_ReadTimeout := or_default (lim_ReadTimeout l) defaultReadTimeout,
       lim_WriteTimeout := or_default (lim_WriteTimeout l) defaultWriteTimeout,
       lim_MaxConnections := or_default (lim_MaxConnections l) defaultMaxConnections,
       lim_MaxLineLength := or_default (lim_MaxLineLength l) defaultMaxLineLength,
       lim_SpoolThreshold := or_default (lim_SpoolThreshold l) defaultSpoolThreshold\<rparr>"

definition default_Upstream :: "Upstream \<Rightarrow> Upstream" where
  "default_Upstream u =
     u\<lparr>ups_Timeout := or_default (ups_Timeout u) defaultUpstreamTimeout,
       ups_Port :=
         (if ups_Port u = 0 then (if ups_TLS u = TLSModeImplicit then 465 else 587) else ups_Port u)\<rparr>"

definition default_Listener :: "Listener \<Rightarrow> Listener" where
  "default_Listener l =
     l\<lparr>lis_Mode := (if lis_Mode l = [] then TLSModeSTARTTLS else lis_Mode l),
       lis_Name := (if lis_Name l = [] then lis_Addr l else lis_Name l)\<rparr>"

definition applyDefaults :: "Config \<Rightarrow> Config" where
  "applyDefaults c =
     c\<lparr>cfg_Hostname := (if cfg_Hostname c = [] then ''mailout'' else cfg_Hostname c),
       cfg_Limits := default_Limits (cfg_Limits c),
       cfg_Upstream := default_Upstream (cfg_Upstream c),
       cfg_Listeners := map default_Listener (cfg_Listeners c)\<rparr>"


section \<open>Accounts\<close>

text \<open>\<^verbatim>\<open>bcrypt.Cost\<close> is the argument \<open>cost\<close>: \<^const>\<open>None\<close> is its error.\<close>

definition MinBcryptCost :: int where "MinBcryptCost = 10"
definition MaxBcryptCost :: int where "MaxBcryptCost = 14"
definition BcryptCost :: int where "BcryptCost = 12"

definition UsableHash :: "(string \<Rightarrow> int option) \<Rightarrow> string \<Rightarrow> bool" where
  "UsableHash cost hash \<longleftrightarrow>
     (case cost hash of None \<Rightarrow> False | Some c \<Rightarrow> MinBcryptCost \<le> c \<and> c \<le> MaxBcryptCost)"

definition MaxUsernameLength :: nat where "MaxUsernameLength = 128"

abbreviation username_delimiters :: "char list" where
  "username_delimiters \<equiv> [CHR '':'', CHR '';'', CHR '','', CHR 0x22, CHR 0x5C]"

definition ValidUsername :: "string \<Rightarrow> bool" where
  "ValidUsername username \<longleftrightarrow>
     \<not> (username = [] \<or> length username > MaxUsernameLength) \<and>
     list_all (\<lambda>b. \<not> (b \<le> CHR '' '' \<or> b > CHR ''~'' \<or> b \<in> set username_delimiters)) username"

record RejectedAccount =
  rej_Username :: string
  rej_Reason :: string

definition account_slot :: "nat \<Rightarrow> string" where
  "account_slot i = ''accounts['' @ show_nat i @ '']''"

definition reason_username :: string where
  "reason_username =
     ''username must be at most '' @ show_nat MaxUsernameLength @
     '' printable ASCII characters without space or delimiter''"

definition reason_hash :: string where
  "reason_hash =
     ''passwordHash must be a bcrypt hash of cost '' @ show_int MinBcryptCost @ '' to '' @
     show_int MaxBcryptCost @
     ''; a malformed hash answers instantly and a costly one stalls the relay''"

text \<open>The loop of \<^verbatim>\<open>PartitionAccounts\<close>: the index, the usernames already served, and the two results,
  which the source builds by appending.\<close>

fun partition_loop ::
  "(string \<Rightarrow> int option) \<Rightarrow> nat \<Rightarrow> string set \<Rightarrow> Account list \<Rightarrow> Account list \<times> RejectedAccount list" where
  "partition_loop cost i seen [] = ([], [])"
| "partition_loop cost i seen (account # rest) =
     (let reject = (\<lambda>name reason.
            case partition_loop cost (Suc i) seen rest of
              (served, rejected) \<Rightarrow>
                (served, \<lparr>rej_Username = name, rej_Reason = reason\<rparr> # rejected))
      in
      if acc_Username account = [] then reject (account_slot i) ''username is required''
      else if acc_Username account \<in> seen then reject (acc_Username account) ''duplicate username''
      else if \<not> ValidUsername (acc_Username account) then reject (account_slot i) reason_username
      else if acc_PasswordHash account = [] then
        reject (acc_Username account) ''passwordHash is required''
      else if \<not> UsableHash cost (acc_PasswordHash account) then
        reject (acc_Username account) reason_hash
      else case partition_loop cost (Suc i) (insert (acc_Username account) seen) rest of
             (served, rejected) \<Rightarrow> (account # served, rejected))"

definition PartitionAccounts ::
  "(string \<Rightarrow> int option) \<Rightarrow> Config \<Rightarrow> Account list \<times> RejectedAccount list" where
  "PartitionAccounts cost c = partition_loop cost 0 {} (cfg_Accounts c)"


section \<open>Validation\<close>

text \<open>\<^verbatim>\<open>Milter.ParseAddress\<close>, the network and the address to dial.\<close>

datatype address_error = UnsupportedScheme string | AddressRequired

definition ParseAddress :: "Milter \<Rightarrow> address_error + (string \<times> string)" where
  "ParseAddress m =
     (if prefix ''tcp://'' (mil_Address m) then Inr (''tcp'', trim_prefix (mil_Address m) ''tcp://'')
      else if prefix ''unix://'' (mil_Address m) then Inr (''unix'', trim_prefix (mil_Address m) ''unix://'')
      else if index_sub ''://'' (mil_Address m) \<noteq> None then Inl (UnsupportedScheme (mil_Address m))
      else if mil_Address m = [] then Inl AddressRequired
      else Inr (''tcp'', mil_Address m))"

text \<open>One constructor per message \<^verbatim>\<open>Validate\<close> can report, with what it prints.\<close>

datatype config_error =
    NoListener
  | ListenerAddrRequired nat
  | ListenerMode string TLSMode
  | ListenerDuplicate string string
  | NoCertificate
  | CertificateIncomplete nat
  | UpstreamHostRequired
  | UpstreamTLS TLSMode
  | StoreAddressesRequired
  | StoreVerifyWithoutTLS
  | MilterAddress nat string address_error

fun validate_listeners :: "nat \<Rightarrow> string set \<Rightarrow> Listener list \<Rightarrow> config_error list" where
  "validate_listeners i seen [] = []"
| "validate_listeners i seen (l # ls) =
     (if lis_Addr l = [] then [ListenerAddrRequired i] else []) @
     (if lis_Mode l = TLSModeSTARTTLS \<or> lis_Mode l = TLSModeImplicit then []
      else [ListenerMode (lis_Name l) (lis_Mode l)]) @
     (if \<not> suffix '':0'' (lis_Addr l)
      then (if lis_Addr l \<in> seen then [ListenerDuplicate (lis_Name l) (lis_Addr l)] else []) @
           validate_listeners (Suc i) (insert (lis_Addr l) seen) ls
      else validate_listeners (Suc i) seen ls)"

definition complete_cert :: "CertificateRef \<Rightarrow> bool" where
  "complete_cert cert \<longleftrightarrow>
     (crt_CertFile cert \<noteq> [] \<and> crt_KeyFile cert \<noteq> []) \<or>
     (crt_CertPEM cert \<noteq> [] \<and> crt_KeyPEM cert \<noteq> [])"

definition validate_certificates :: "CertificateRef list \<Rightarrow> config_error list" where
  "validate_certificates certs =
     (if certs = [] then [NoCertificate] else []) @
     concat (map (\<lambda>(i, cert). if complete_cert cert then [] else [CertificateIncomplete i])
                 (enumerate 0 certs))"

definition validate_upstream :: "Upstream \<Rightarrow> config_error list" where
  "validate_upstream u =
     (if ups_Host u = [] then [UpstreamHostRequired] else []) @
     (if ups_TLS u \<in> {TLSModeSTARTTLS, TLSModeImplicit, TLSModeNone} then []
      else [UpstreamTLS (ups_TLS u)])"

definition validate_rateLimit :: "RateLimit option \<Rightarrow> config_error list" where
  "validate_rateLimit r =
     (case r of None \<Rightarrow> []
      | Some rl \<Rightarrow>
          (if rls_Addresses (rl_Store rl) = [] then [StoreAddressesRequired] else []) @
          (if rls_InsecureSkipVerify (rl_Store rl) \<and> \<not> rls_TLS (rl_Store rl)
           then [StoreVerifyWithoutTLS] else []))"

definition validate_milters :: "Milter list \<Rightarrow> config_error list" where
  "validate_milters ms =
     concat (map (\<lambda>(i, m). case ParseAddress m of Inl err \<Rightarrow> [MilterAddress i (mil_Name m) err] | Inr _ \<Rightarrow> [])
                 (enumerate 0 ms))"

text \<open>\<^verbatim>\<open>Validate\<close> returns nil when the list is empty and one error listing all of it otherwise.\<close>

definition Validate :: "Config \<Rightarrow> config_error list" where
  "Validate c =
     (if cfg_Listeners c = [] then [NoListener] else []) @
     validate_listeners 0 {} (cfg_Listeners c) @
     validate_certificates (tls_Certificates (cfg_TLS c)) @
     validate_upstream (cfg_Upstream c) @
     validate_rateLimit (cfg_RateLimit c) @
     validate_milters (cfg_Milters c)"


section \<open>What is served\<close>

text \<open>An account that could be served if it were the only one.\<close>

definition fit_account :: "(string \<Rightarrow> int option) \<Rightarrow> Account \<Rightarrow> bool" where
  "fit_account cost a \<longleftrightarrow>
     ValidUsername (acc_Username a) \<and> acc_PasswordHash a \<noteq> [] \<and> UsableHash cost (acc_PasswordHash a)"

text \<open>The first account of each username, apart from the usernames in a set.\<close>

fun first_of_each :: "string set \<Rightarrow> Account list \<Rightarrow> Account list" where
  "first_of_each seen [] = []"
| "first_of_each seen (a # as) =
     (if acc_Username a \<in> seen then first_of_each seen as
      else a # first_of_each (insert (acc_Username a) seen) as)"

lemma ValidUsername_Nil [simp]: "\<not> ValidUsername []"
  by (simp add: ValidUsername_def)

lemma fit_username: "fit_account cost a \<Longrightarrow> acc_Username a \<noteq> []"
  by (auto simp: fit_account_def)

lemma partition_loop_Cons:
  "partition_loop cost i seen (a # as) =
     (if fit_account cost a \<and> acc_Username a \<notin> seen
      then (a # fst (partition_loop cost (Suc i) (insert (acc_Username a) seen) as),
            snd (partition_loop cost (Suc i) (insert (acc_Username a) seen) as))
      else (fst (partition_loop cost (Suc i) seen as),
            \<lparr>rej_Username =
               (if acc_Username a = [] \<or> (acc_Username a \<notin> seen \<and> \<not> ValidUsername (acc_Username a))
                then account_slot i else acc_Username a),
             rej_Reason =
               (if acc_Username a = [] then ''username is required''
                else if acc_Username a \<in> seen then ''duplicate username''
                else if \<not> ValidUsername (acc_Username a) then reason_username
                else if acc_PasswordHash a = [] then ''passwordHash is required'' else reason_hash)\<rparr>
            # snd (partition_loop cost (Suc i) seen as)))"
  by (simp add: fit_account_def Let_def split: prod.split)

declare partition_loop.simps(2) [simp del]

lemma partition_served:
  "fst (partition_loop cost i seen as) = first_of_each seen (filter (fit_account cost) as)"
  by (induction as arbitrary: i seen) (auto simp: partition_loop_Cons)

lemma partition_count:
  "length (fst (partition_loop cost i seen as)) + length (snd (partition_loop cost i seen as)) = length as"
  by (induction as arbitrary: i seen) (auto simp: partition_loop_Cons)

lemma first_of_each_distinct:
  "distinct (map acc_Username (first_of_each seen as)) \<and>
   acc_Username ` set (first_of_each seen as) = acc_Username ` set as - seen"
  by (induction as arbitrary: seen) auto

lemma first_of_each_subseq: "subseq (first_of_each seen as) as"
  by (induction as arbitrary: seen) (auto simp: subseq_drop_many)

text \<open>Bytes that are safe in a log line, a status or a header.\<close>

definition printable :: "string \<Rightarrow> bool" where
  "printable s \<longleftrightarrow> list_all (\<lambda>b. CHR '' '' < b \<and> b \<le> CHR ''~'') s"

lemma printable_ValidUsername: "ValidUsername u \<Longrightarrow> printable u"
  unfolding ValidUsername_def printable_def list_all_iff by (meson linorder_not_le)

lemma printable_show_nat [simp]: "printable (show_nat n)"
  using show_nat_digits [of n]
  by (auto simp: printable_def list_all_iff is_digit_def less_char_def less_eq_char_def)

lemma printable_append [simp]: "printable (a @ b) \<longleftrightarrow> printable a \<and> printable b"
  by (simp add: printable_def)

lemma printable_account_slot [simp]: "printable (account_slot i)"
  unfolding account_slot_def printable_append
  using printable_show_nat by (simp add: printable_def less_char_def less_eq_char_def)

lemma partition_rejected_printable:
  "\<forall>u \<in> seen. printable u \<Longrightarrow>
   r \<in> set (snd (partition_loop cost i seen as)) \<Longrightarrow> printable (rej_Username r)"
proof (induction as arbitrary: i seen)
  case (Cons a as)
  have "\<forall>u \<in> insert (acc_Username a) seen. printable u" if "fit_account cost a"
    using that Cons.prems(1) by (auto simp: fit_account_def intro: printable_ValidUsername)
  then show ?case
    using Cons.IH [of "insert (acc_Username a) seen" "Suc i"] Cons.IH [of seen "Suc i"] Cons.prems
    by (auto simp: partition_loop_Cons intro: printable_ValidUsername split: if_splits)
qed simp


section \<open>What is valid\<close>

definition fixed_ports :: "Listener list \<Rightarrow> string list" where
  "fixed_ports ls = filter (\<lambda>a. \<not> suffix '':0'' a) (map lis_Addr ls)"

lemma validate_listeners_Nil:
  "validate_listeners i seen ls = [] \<longleftrightarrow>
     (\<forall>l \<in> set ls. lis_Addr l \<noteq> [] \<and> lis_Mode l \<in> {TLSModeSTARTTLS, TLSModeImplicit}) \<and>
     distinct (fixed_ports ls) \<and> set (fixed_ports ls) \<inter> seen = {}"
  by (induction ls arbitrary: i seen) (auto simp: fixed_ports_def)

lemma enumerate_all: "(\<forall>(i, x) \<in> set (enumerate n xs). P x) \<longleftrightarrow> (\<forall>x \<in> set xs. P x)"
  by (induction xs arbitrary: n) auto

lemma validate_certificates_Nil:
  "validate_certificates certs = [] \<longleftrightarrow> certs \<noteq> [] \<and> (\<forall>cert \<in> set certs. complete_cert cert)"
  using enumerate_all [of 0 certs complete_cert]
  by (auto simp: validate_certificates_def split: prod.splits if_splits)

lemma validate_upstream_Nil:
  "validate_upstream u = [] \<longleftrightarrow>
     ups_Host u \<noteq> [] \<and> ups_TLS u \<in> {TLSModeSTARTTLS, TLSModeImplicit, TLSModeNone}"
  by (simp add: validate_upstream_def)

lemma validate_rateLimit_Nil:
  "validate_rateLimit r = [] \<longleftrightarrow>
     (case r of None \<Rightarrow> True
      | Some rl \<Rightarrow> rls_Addresses (rl_Store rl) \<noteq> [] \<and>
                  (rls_InsecureSkipVerify (rl_Store rl) \<longrightarrow> rls_TLS (rl_Store rl)))"
  by (simp add: validate_rateLimit_def split: option.split)

lemma validate_milters_Nil:
  "validate_milters ms = [] \<longleftrightarrow> (\<forall>m \<in> set ms. \<not> isl (ParseAddress m))"
  using enumerate_all [of 0 ms "\<lambda>m. \<not> isl (ParseAddress m)"]
  by (auto simp: validate_milters_def isl_def split: prod.splits sum.splits)

lemmas Validate_parts =
  validate_listeners_Nil validate_certificates_Nil validate_upstream_Nil validate_rateLimit_Nil
  validate_milters_Nil

lemma ParseAddress_ok:
  "\<not> isl (ParseAddress m) \<longleftrightarrow>
     mil_Address m \<noteq> [] \<and>
     (prefix ''tcp://'' (mil_Address m) \<or> prefix ''unix://'' (mil_Address m) \<or>
      index_sub ''://'' (mil_Address m) = None)"
  by (auto simp: ParseAddress_def)

lemma or_default_idem [simp]: "d \<noteq> 0 \<Longrightarrow> or_default (or_default v d) d = or_default v d"
  by (simp add: or_default_def)


section \<open>Properties\<close>

text \<open>C38: the accounts served are, in order, the first of each username among those that are fit on their own
  (a valid username and a bcrypt hash inside the cost band). So usernames are distinct, every account
  served is fit, every fit username is served, and each account is either served or reported.\<close>

theorem PartitionAccounts_exact:
  "fst (PartitionAccounts cost c) = first_of_each {} (filter (fit_account cost) (cfg_Accounts c)) \<and>
   distinct (map acc_Username (fst (PartitionAccounts cost c))) \<and>
   acc_Username ` set (fst (PartitionAccounts cost c)) =
     acc_Username ` {a \<in> set (cfg_Accounts c). fit_account cost a} \<and>
   length (fst (PartitionAccounts cost c)) + length (snd (PartitionAccounts cost c)) =
     length (cfg_Accounts c)"
  using first_of_each_distinct [of "{}" "filter (fit_account cost) (cfg_Accounts c)"]
    partition_count [of cost 0 "{}" "cfg_Accounts c"]
  by (simp add: PartitionAccounts_def partition_served)

text \<open>one tenant's broken account changes nothing for the others. Whatever it holds, and wherever it
  stands in the list, the accounts served are those that are served without it.\<close>

theorem PartitionAccounts_isolation:
  assumes "\<not> fit_account cost broken"
  shows "fst (PartitionAccounts cost (c\<lparr>cfg_Accounts := before @ broken # after\<rparr>)) =
         fst (PartitionAccounts cost (c\<lparr>cfg_Accounts := before @ after\<rparr>))"
  using assms by (simp add: PartitionAccounts_def partition_served)

definition sample_account :: "string \<Rightarrow> string \<Rightarrow> Account" where
  "sample_account user hash =
     \<lparr>acc_Username = user, acc_PasswordHash = hash, acc_Disabled = False,
      acc_AllowedSenders = [''*@example.test''], acc_SkipHeaderFromCheck = False\<rparr>"

definition sample_config :: Config where
  "sample_config =
     \<lparr>cfg_Hostname = [],
      cfg_Listeners = [\<lparr>lis_Name = [], lis_Addr = '':587'', lis_Mode = []\<rparr>],
      cfg_TLS =
        \<lparr>tls_Certificates =
           [\<lparr>crt_Name = ''gw'', crt_CertFile = ''/c/tls.crt'', crt_KeyFile = ''/c/tls.key'',
             crt_CertPEM = [], crt_KeyPEM = []\<rparr>],
         tls_DefaultCertificate = []\<rparr>,
      cfg_Upstream =
        \<lparr>ups_Host = ''smtp.example.test'', ups_Port = 0, ups_TLS = ''starttls'',
         ups_InsecureSkipVerify = False, ups_RootCAPEM = [], ups_Username = [], ups_Password = [],
         ups_Timeout = 0\<rparr>,
      cfg_Accounts = [sample_account ''app'' ''hash''],
      cfg_Milters = [], cfg_DKIM = [], cfg_RateLimit = None,
      cfg_Limits =
        \<lparr>lim_MaxMessageBytes = 0, lim_MaxRecipients = 0, lim_ReadTimeout = 0, lim_WriteTimeout = 0,
         lim_MaxLineLength = 0, lim_MaxConnections = 0, lim_SpoolDir = [], lim_SpoolThreshold = 0\<rparr>,
      cfg_Metrics = \<lparr>mc_Token = []\<rparr>\<rparr>"

theorem PartitionAccounts_isolation_witness:
  "fst (PartitionAccounts (\<lambda>_. Some 12) (sample_config\<lparr>cfg_Accounts :=
       [sample_account ''app'' ''hash'', sample_account (''evil'' @ CRLF) ''hash'', sample_account ''b'' ''hash'']\<rparr>)) =
   [sample_account ''app'' ''hash'', sample_account ''b'' ''hash'']"
proof -
  have "\<not> fit_account (\<lambda>_. Some 12) (sample_account (''evil'' @ CRLF) ''hash'')" by code_simp
  moreover have "fst (PartitionAccounts (\<lambda>_. Some 12) (sample_config\<lparr>cfg_Accounts :=
       [sample_account ''app'' ''hash''] @ [sample_account ''b'' ''hash'']\<rparr>)) =
     [sample_account ''app'' ''hash'', sample_account ''b'' ''hash'']" by code_simp
  ultimately show ?thesis
    using PartitionAccounts_isolation [where c = sample_config and cost = "\<lambda>_. Some 12"
        and broken = "sample_account (''evil'' @ CRLF) ''hash''"
        and before = "[sample_account ''app'' ''hash'']"
        and after = "[sample_account ''b'' ''hash'']"] by simp
qed

text \<open>what is reported about an account that is left out can go to a log or a Kubernetes status: the
  name it is reported under holds printable ASCII only, whatever the username was.\<close>

theorem PartitionAccounts_rejected_printable:
  "list_all (\<lambda>r. printable (rej_Username r)) (snd (PartitionAccounts cost c))"
  using partition_rejected_printable [of "{}" _ cost 0 "cfg_Accounts c"]
  by (auto simp: PartitionAccounts_def list_all_iff)

text \<open>Validation accepts exactly the configurations in which every listener has an address and a TLS
  mode and no two listeners share a fixed port's address, there is a certificate and each one is
  complete, the upstream has a host and a known TLS mode, a quota has a store to count in (and skips
  verification only over TLS), and every milter address can be dialled.\<close>

theorem Validate_exact:
  "Validate c = [] \<longleftrightarrow>
     cfg_Listeners c \<noteq> [] \<and>
     (\<forall>l \<in> set (cfg_Listeners c).
        lis_Addr l \<noteq> [] \<and> lis_Mode l \<in> {TLSModeSTARTTLS, TLSModeImplicit}) \<and>
     distinct (fixed_ports (cfg_Listeners c)) \<and>
     tls_Certificates (cfg_TLS c) \<noteq> [] \<and>
     (\<forall>cert \<in> set (tls_Certificates (cfg_TLS c)). complete_cert cert) \<and>
     ups_Host (cfg_Upstream c) \<noteq> [] \<and>
     ups_TLS (cfg_Upstream c) \<in> {TLSModeSTARTTLS, TLSModeImplicit, TLSModeNone} \<and>
     (\<forall>rl. cfg_RateLimit c = Some rl \<longrightarrow>
        rls_Addresses (rl_Store rl) \<noteq> [] \<and>
        (rls_InsecureSkipVerify (rl_Store rl) \<longrightarrow> rls_TLS (rl_Store rl))) \<and>
     (\<forall>m \<in> set (cfg_Milters c).
        mil_Address m \<noteq> [] \<and>
        (prefix ''tcp://'' (mil_Address m) \<or> prefix ''unix://'' (mil_Address m) \<or>
         index_sub ''://'' (mil_Address m) = None))"
  by (cases "cfg_RateLimit c") (simp_all add: Validate_def Validate_parts ParseAddress_ok)

theorem Validate_exact_witness:
  "Validate sample_config = [ListenerMode [] []] \<and> Validate (applyDefaults sample_config) = [] \<and>
   lis_Mode (hd (cfg_Listeners (applyDefaults sample_config))) \<in> {TLSModeSTARTTLS, TLSModeImplicit}"
proof -
  have v: "Validate (applyDefaults sample_config) = []" by code_simp
  have m: "Validate sample_config = [ListenerMode [] []]" by code_simp
  from v have "cfg_Listeners (applyDefaults sample_config) \<noteq> [] \<and>
      (\<forall>l \<in> set (cfg_Listeners (applyDefaults sample_config)).
        lis_Addr l \<noteq> [] \<and> lis_Mode l \<in> {TLSModeSTARTTLS, TLSModeImplicit})"
    using Validate_exact [of "applyDefaults sample_config"] by blast
  then show ?thesis using v m hd_in_set by blast
qed

text \<open>filling in the defaults is idempotent, touches nothing but zero values, and leaves no limit and no
  timeout at zero; a listener always ends up with a mode.\<close>

theorem applyDefaults_idempotent:
  "applyDefaults (applyDefaults c) = applyDefaults c \<and>
   cfg_Accounts (applyDefaults c) = cfg_Accounts c \<and>
   0 \<notin> {lim_MaxMessageBytes (cfg_Limits (applyDefaults c)), lim_MaxRecipients (cfg_Limits (applyDefaults c)),
        lim_ReadTimeout (cfg_Limits (applyDefaults c)), lim_WriteTimeout (cfg_Limits (applyDefaults c)),
        lim_MaxLineLength (cfg_Limits (applyDefaults c)), lim_MaxConnections (cfg_Limits (applyDefaults c)),
        lim_SpoolThreshold (cfg_Limits (applyDefaults c)), ups_Timeout (cfg_Upstream (applyDefaults c)),
        ups_Port (cfg_Upstream (applyDefaults c))} \<and>
   list_all (\<lambda>l. lis_Mode l \<noteq> []) (cfg_Listeners (applyDefaults c))"
  by (auto simp: applyDefaults_def default_Limits_def default_Upstream_def default_Listener_def
      or_default_def default_limits tls_modes list_all_iff)

end
