(* ===== verification/Metrics.thy ===== *)
theory Metrics
  imports Go_Errors Go_Strings Go_Text
begin

text \<open>
  \<^verbatim>\<open>internal/gateway/metrics.go\<close>: what the dataplane counts, and the bearer token that guards the
  endpoint. The rest of the development records calls to \<^verbatim>\<open>Metrics\<close> as a list of \<open>metric\<close> values, in
  the order the code makes them; \<open>count_all\<close> says what they do to the counters. The collectors, their
  labels and the endpoint are in \<open>Observability\<close>.
\<close>


section \<open>Labels and calls\<close>

definition ResultRelayed :: string where "ResultRelayed = ''relayed''"
definition ResultRejected :: string where "ResultRejected = ''rejected''"
definition ResultDiscarded :: string where "ResultDiscarded = ''discarded''"
definition ResultDeferred :: string where "ResultDeferred = ''deferred''"

definition decisionAccept :: string where "decisionAccept = ''accept''"
definition decisionReject :: string where "decisionReject = ''reject''"
definition decisionDiscard :: string where "decisionDiscard = ''discard''"
definition decisionUnavailable :: string where "decisionUnavailable = ''unavailable''"

definition rateLimitAllowed :: string where "rateLimitAllowed = ''allowed''"
definition rateLimitDenied :: string where "rateLimitDenied = ''denied''"
definition rateLimitError :: string where "rateLimitError = ''error''"

definition dkimSigned :: string where "dkimSigned = ''signed''"
definition dkimRefused :: string where "dkimRefused = ''refused''"
definition dkimFailed :: string where "dkimFailed = ''failed''"

definition unknownAccount :: string where "unknownAccount = ''<unknown>''"

lemmas metric_labels =
  ResultRelayed_def ResultRejected_def ResultDiscarded_def ResultDeferred_def
  decisionAccept_def decisionReject_def decisionDiscard_def decisionUnavailable_def
  rateLimitAllowed_def rateLimitDenied_def rateLimitError_def
  dkimSigned_def dkimRefused_def dkimFailed_def unknownAccount_def

text \<open>One constructor per method of \<^verbatim>\<open>Metrics\<close>.\<close>

datatype metric =
    messageHandled string string
  | messageSpooled string
  | messageRelayed string nat
  | authFailed string
  | milterDecided string string
  | dkimResult string string
  | rateLimitDecided string string
  | upstreamDelivered int
  | configReloaded string nat nat

record Metrics =
  mt_messages :: "string \<times> string \<Rightarrow> nat"
  mt_messagesSpooled :: "string \<Rightarrow> nat"
  mt_messageBytes :: "string \<Rightarrow> nat"
  mt_authFailures :: "string \<Rightarrow> nat"
  mt_milterDecisions :: "string \<times> string \<Rightarrow> nat"
  mt_dkimSignatures :: "string \<times> string \<Rightarrow> nat"
  mt_rateLimit :: "string \<times> string \<Rightarrow> nat"
  mt_upstreamDelivery :: "int list"
  mt_configReloads :: "string \<Rightarrow> nat"
  mt_accounts :: nat
  mt_accountsRejected :: nat

definition NewMetrics :: Metrics where
  "NewMetrics =
     \<lparr>mt_messages = (\<lambda>_. 0), mt_messagesSpooled = (\<lambda>_. 0), mt_messageBytes = (\<lambda>_. 0),
      mt_authFailures = (\<lambda>_. 0), mt_milterDecisions = (\<lambda>_. 0), mt_dkimSignatures = (\<lambda>_. 0),
      mt_rateLimit = (\<lambda>_. 0), mt_upstreamDelivery = [], mt_configReloads = (\<lambda>_. 0),
      mt_accounts = 0, mt_accountsRejected = 0\<rparr>"

definition inc_by :: "'k \<Rightarrow> nat \<Rightarrow> ('k \<Rightarrow> nat) \<Rightarrow> 'k \<Rightarrow> nat" where
  "inc_by k n c = c(k := c k + n)"

text \<open>The methods. A nil \<^verbatim>\<open>*Metrics\<close> counts nothing.\<close>

fun count_call :: "metric \<Rightarrow> Metrics \<Rightarrow> Metrics" where
  "count_call (messageHandled account result) m =
     m\<lparr>mt_messages := inc_by (account, result) 1 (mt_messages m)\<rparr>"
| "count_call (messageSpooled account) m =
     m\<lparr>mt_messagesSpooled := inc_by account 1 (mt_messagesSpooled m)\<rparr>"
| "count_call (messageRelayed account bytes) m =
     m\<lparr>mt_messages := inc_by (account, ResultRelayed) 1 (mt_messages m),
       mt_messageBytes := inc_by account bytes (mt_messageBytes m)\<rparr>"
| "count_call (authFailed account) m =
     m\<lparr>mt_authFailures := inc_by account 1 (mt_authFailures m)\<rparr>"
| "count_call (milterDecided milter decision) m =
     m\<lparr>mt_milterDecisions := inc_by (milter, decision) 1 (mt_milterDecisions m)\<rparr>"
| "count_call (dkimResult domain result) m =
     m\<lparr>mt_dkimSignatures := inc_by (domain, result) 1 (mt_dkimSignatures m)\<rparr>"
| "count_call (rateLimitDecided account decision) m =
     m\<lparr>mt_rateLimit := inc_by (account, decision) 1 (mt_rateLimit m)\<rparr>"
| "count_call (upstreamDelivered d) m =
     m\<lparr>mt_upstreamDelivery := mt_upstreamDelivery m @ [d]\<rparr>"
| "count_call (configReloaded result served rejected) m =
     (let m = m\<lparr>mt_configReloads := inc_by result 1 (mt_configReloads m)\<rparr> in
      if result \<noteq> ''success'' then m
      else m\<lparr>mt_accounts := served, mt_accountsRejected := rejected\<rparr>)"

definition count_all :: "metric list \<Rightarrow> Metrics option \<Rightarrow> Metrics option" where
  "count_all calls = map_option (fold count_call calls)"


section \<open>The bearer token\<close>

datatype http_answer = Served | Unauthorized

text \<open>\<open>token\<close> is what the callback returns for this request, \<open>None\<close> when there is no callback;
  \<open>authorization\<close> is the value of the request's header.\<close>

definition requireBearer :: "unicode \<Rightarrow> string option \<Rightarrow> string \<Rightarrow> http_answer" where
  "requireBearer U token authorization =
     (let want = (case token of Some t \<Rightarrow> t | None \<Rightarrow> []) in
      if want = [] then Served
      else case cut SP authorization of
        (scheme, got, found) \<Rightarrow>
          let got = (if \<not> found \<or> \<not> equal_fold U scheme ''Bearer'' then [] else got) in
          if got \<noteq> want then Unauthorized else Served)"

lemma requireBearer_iff:
  "token \<noteq> [] \<Longrightarrow>
   requireBearer U (Some token) authorization = Served \<longleftrightarrow>
     (\<exists>scheme. SP \<notin> set scheme \<and> equal_fold U scheme ''Bearer'' \<and> authorization = scheme @ SP # token)"
  by (cases rule: cut_cases [of authorization SP])
     (auto simp: requireBearer_def Let_def dest: append_sep_inject)

text \<open>The gauges only follow reloads that succeeded.\<close>

lemma count_call_failed_reload:
  "result \<noteq> ''success'' \<Longrightarrow>
   mt_accounts (count_call (configReloaded result s r) m) = mt_accounts m \<and>
   mt_accountsRejected (count_call (configReloaded result s r) m) = mt_accountsRejected m"
  by simp

end
