(* ===== verification/Auth.thy ===== *)
theory Auth
  imports Config Metrics "HOL-Library.AList"
begin

text \<open>
  \<^verbatim>\<open>internal/gateway/auth.go\<close>: the store of accounts credentials are checked against, the SASL LOGIN
  exchange, and the passwords the operator generates. bcrypt is an argument. \<open>authenticate\<close> returns,
  beside its result, the hashes it ran bcrypt's comparison on, since that cost is what its handling of
  an unknown username is about.
\<close>


section \<open>The account store\<close>

record accountStore =
  as_byUsername :: "(string \<times> Account) list"
  as_dummyHash :: string

definition dummyPassword :: string where "dummyPassword = ''mailout-timing-equalizer''"

text \<open>\<open>generate\<close> is \<^verbatim>\<open>bcrypt.GenerateFromPassword\<close>; when it fails on the constant the process panics,
  which is \<^const>\<open>None\<close>.\<close>

definition newAccountStore ::
  "(string \<Rightarrow> int \<Rightarrow> string option) \<Rightarrow> Account list \<Rightarrow> accountStore option" where
  "newAccountStore generate accounts =
     map_option
       (\<lambda>h. \<lparr>as_byUsername = fold (\<lambda>acct. AList.update (acc_Username acct) acct) accounts [],
             as_dummyHash = h\<rparr>)
       (generate dummyPassword BcryptCost)"

definition lookup_account :: "accountStore \<Rightarrow> string \<Rightarrow> Account option" where
  "lookup_account s username = map_of (as_byUsername s) username"

text \<open>\<open>cmp\<close> is \<^verbatim>\<open>bcrypt.CompareHashAndPassword\<close> returning nil.\<close>

definition store_authenticate ::
  "(string \<Rightarrow> string \<Rightarrow> bool) \<Rightarrow> accountStore \<Rightarrow> string \<Rightarrow> string \<Rightarrow> Account result \<times> string list" where
  "store_authenticate cmp s username password =
     (case lookup_account s username of
        None \<Rightarrow> (Inl ErrAuthFailed, [as_dummyHash s])
      | Some acct \<Rightarrow>
          if \<not> cmp (acc_PasswordHash acct) password then (Inl ErrAuthFailed, [acc_PasswordHash acct])
          else if acc_Disabled acct then (Inl ErrAccountDisabled, [acc_PasswordHash acct])
          else (Inr acct, [acc_PasswordHash acct]))"

definition label :: "accountStore \<Rightarrow> string \<Rightarrow> string" where
  "label s username = (if lookup_account s username \<noteq> None then username else unknownAccount)"


section \<open>SASL LOGIN\<close>

record loginServer =
  ls_username :: string
  ls_state :: nat

definition newLoginServer :: loginServer where
  "newLoginServer = \<lparr>ls_username = [], ls_state = 0\<rparr>"

text \<open>The answer to one client response: the challenge, whether the exchange is done, and the error. The
  callback moves the session's own state on.\<close>

definition login_Next ::
  "(string \<Rightarrow> string \<Rightarrow> 's \<Rightarrow> go_error option \<times> 's) \<Rightarrow> bytes \<Rightarrow> loginServer \<Rightarrow> 's \<Rightarrow>
     (bytes \<times> bool \<times> go_error option) \<times> loginServer \<times> 's" where
  "login_Next auth response l st =
     (if ls_state l = 0 then
        if length response > 0 then
          ((''Password:'', False, None), l\<lparr>ls_username := response, ls_state := 2\<rparr>, st)
        else ((''Username:'', False, None), l\<lparr>ls_state := 1\<rparr>, st)
      else if ls_state l = 1 then
        ((''Password:'', False, None), l\<lparr>ls_username := response, ls_state := 2\<rparr>, st)
      else if ls_state l = 2 then
        (case auth (ls_username l) response st of
           (Some err, st) \<Rightarrow> (([], False, Some err), l\<lparr>ls_state := 3\<rparr>, st)
         | (None, st) \<Rightarrow> (([], True, None), l\<lparr>ls_state := 3\<rparr>, st))
      else (([], False, Some ErrAuthFailed), l, st))"

text \<open>A whole exchange: what the last response was answered with.\<close>

fun login_exchange ::
  "(string \<Rightarrow> string \<Rightarrow> 's \<Rightarrow> go_error option \<times> 's) \<Rightarrow> bytes list \<Rightarrow> loginServer \<Rightarrow> 's \<Rightarrow>
     (bytes \<times> bool \<times> go_error option) list \<times> loginServer \<times> 's" where
  "login_exchange auth [] l st = ([], l, st)"
| "login_exchange auth (r # rs) l st =
     (case login_Next auth r l st of
        (a, l, st) \<Rightarrow> (case login_exchange auth rs l st of (as, l, st) \<Rightarrow> (a # as, l, st)))"


section \<open>Generated passwords\<close>

definition PasswordBytes :: nat where "PasswordBytes = 24"

definition HashPassword :: "(string \<Rightarrow> int \<Rightarrow> string result) \<Rightarrow> string \<Rightarrow> string result" where
  "HashPassword generate password =
     (case generate password BcryptCost of
        Inl err \<Rightarrow> Inl (Wrap ''hash password'' err)
      | Inr h \<Rightarrow> Inr h)"

text \<open>\<^verbatim>\<open>base64.RawURLEncoding\<close>.\<close>

definition b64_alphabet :: string where
  "b64_alphabet = ''ABCDEFGHIJKLMNOPQRSTUVWXYZabcdefghijklmnopqrstuvwxyz0123456789-_''"

definition b64_char :: "nat \<Rightarrow> char" where
  "b64_char n = b64_alphabet ! (n mod 64)"

fun b64_encode :: "nat list \<Rightarrow> string" where
  "b64_encode [] = []"
| "b64_encode [a] = [b64_char (a div 4), b64_char (a mod 4 * 16)]"
| "b64_encode [a, b] = [b64_char (a div 4), b64_char (a mod 4 * 16 + b div 16), b64_char (b mod 16 * 4)]"
| "b64_encode (a # b # c # rest) =
     [b64_char (a div 4), b64_char (a mod 4 * 16 + b div 16), b64_char (b mod 16 * 4 + c div 64),
      b64_char (c mod 64)] @ b64_encode rest"

text \<open>\<open>random\<close> is what \<^verbatim>\<open>rand.Read\<close> filled the buffer with, as byte values.\<close>

definition GeneratePassword :: "nat list result \<Rightarrow> string result" where
  "GeneratePassword random =
     (case random of
        Inl err \<Rightarrow> Inl (Wrap ''generate password'' err)
      | Inr buf \<Rightarrow> Inr (b64_encode buf))"


section \<open>What the store holds\<close>

lemma map_of_fold_update:
  "map_of (fold (\<lambda>a. AList.update (acc_Username a) a) as m) =
   fold (\<lambda>a f. f(acc_Username a \<mapsto> a)) as (map_of m)"
  by (induction as arbitrary: m) (simp_all add: update_conv')

lemma fold_update_notin:
  "u \<notin> acc_Username ` set as \<Longrightarrow> fold (\<lambda>a f. f(acc_Username a \<mapsto> a)) as m u = m u"
  by (induction as arbitrary: m) auto

lemma fold_update_distinct:
  "distinct (map acc_Username as) \<Longrightarrow>
   fold (\<lambda>a f. f(acc_Username a \<mapsto> a)) as m u = Some x \<longleftrightarrow>
     (x \<in> set as \<and> acc_Username x = u) \<or> (u \<notin> acc_Username ` set as \<and> m u = Some x)"
proof (induction as arbitrary: m)
  case (Cons a as)
  then show ?case
    using fold_update_notin [of u as "m(acc_Username a \<mapsto> a)"]
    by (cases "acc_Username a = u") (auto simp: rev_image_eqI)
qed simp

text \<open>On accounts with distinct usernames, as a snapshot's are, the store is exactly the accounts.\<close>

lemma lookup_newAccountStore:
  assumes "newAccountStore generate as = Some s" "distinct (map acc_Username as)"
  shows "lookup_account s u = Some a \<longleftrightarrow> a \<in> set as \<and> acc_Username a = u"
  using assms(1) fold_update_distinct [OF assms(2), of Map.empty u a]
  by (auto simp: newAccountStore_def lookup_account_def map_of_fold_update)

lemma update_new: "k \<notin> fst ` set m \<Longrightarrow> AList.update k v m = m @ [(k, v)]"
  by (induction m) auto

lemma length_store:
  "distinct (map acc_Username as) \<Longrightarrow> acc_Username ` set as \<inter> fst ` set m = {} \<Longrightarrow>
   length (fold (\<lambda>a. AList.update (acc_Username a) a) as m) = length as + length m"
proof (induction as arbitrary: m)
  case (Cons a as)
  have "acc_Username a \<notin> fst ` set m" using Cons.prems(2) by auto
  then have "AList.update (acc_Username a) a m = m @ [(acc_Username a, a)]" by (rule update_new)
  then show ?case using Cons by auto
qed simp

lemma login_ended:
  "3 \<le> ls_state l \<Longrightarrow>
   login_exchange auth rs l st = (map (\<lambda>_. ([], False, Some ErrAuthFailed)) rs, l, st)"
  by (induction rs) (simp_all add: login_Next_def)

lemma b64_alphabet_distinct: "distinct b64_alphabet" "length b64_alphabet = 64"
  by code_simp+

lemma b64_char_inject: "m < 64 \<Longrightarrow> n < 64 \<Longrightarrow> b64_char m = b64_char n \<longleftrightarrow> m = n"
  using nth_eq_iff_index_eq [OF b64_alphabet_distinct(1), of m n] b64_alphabet_distinct(2)
  by (simp add: b64_char_def)

lemma b64_char_in: "b64_char n \<in> set b64_alphabet"
  by (simp add: b64_char_def b64_alphabet_distinct(2))

lemma b64_encode_alphabet: "set (b64_encode xs) \<subseteq> set b64_alphabet"
  by (induction xs rule: b64_encode.induct) (auto simp: b64_char_in)

lemma length_3_Suc:
  assumes "length xs = 3 * Suc n"
  obtains a b c r where "xs = a # b # c # r" "length r = 3 * n"
proof -
  obtain a xs1 where 1: "xs = a # xs1" using assms by (cases xs) auto
  obtain b xs2 where 2: "xs1 = b # xs2" using assms 1 by (cases xs1) auto
  obtain c r where 3: "xs2 = c # r" using assms 1 2 by (cases xs2) auto
  show thesis using that [of a b c r] assms 1 2 3 by simp
qed

lemma b64_encode_length: "length xs = 3 * n \<Longrightarrow> length (b64_encode xs) = 4 * n"
proof (induction n arbitrary: xs)
  case (Suc n)
  from Suc.prems obtain a b c r where "xs = a # b # c # r" "length r = 3 * n" by (rule length_3_Suc)
  with Suc.IH [of r] show ?case by simp
qed simp

lemma byte_split:
  assumes "(a::nat) < 256" "a' < 256" "b < 256" "b' < 256" "c < 256" "c' < 256"
    and "a div 4 = a' div 4" "a mod 4 * 16 + b div 16 = a' mod 4 * 16 + b' div 16"
    and "b mod 16 * 4 + c div 64 = b' mod 16 * 4 + c' div 64" "c mod 64 = c' mod 64"
  shows "a = a' \<and> b = b' \<and> c = c'"
proof -
  have "b div 16 < 16" "b' div 16 < 16" "c div 64 < 4" "c' div 64 < 4" using assms(1-6) by auto
  then have "a mod 4 = a' mod 4 \<and> b div 16 = b' div 16" "b mod 16 = b' mod 16 \<and> c div 64 = c' div 64"
    using base_inject [OF assms(8)] base_inject [OF assms(9)] by blast+
  then show ?thesis using assms(7,10) by (metis div_mult_mod_eq)
qed

lemma b64_encode_inject:
  "length xs = 3 * n \<Longrightarrow> length ys = 3 * n \<Longrightarrow> \<forall>x \<in> set xs. x < 256 \<Longrightarrow> \<forall>y \<in> set ys. y < 256 \<Longrightarrow>
   b64_encode xs = b64_encode ys \<Longrightarrow> xs = ys"
proof (induction n arbitrary: xs ys)
  case (Suc n)
  from Suc.prems(1) obtain a b c r where xs: "xs = a # b # c # r" "length r = 3 * n" by (rule length_3_Suc)
  from Suc.prems(2) obtain a' b' c' r' where ys: "ys = a' # b' # c' # r'" "length r' = 3 * n"
    by (rule length_3_Suc)
  have small: "a < 256" "a' < 256" "b < 256" "b' < 256" "c < 256" "c' < 256"
    using Suc.prems(3,4) xs ys by auto
  then have lt: "a div 4 < 64" "a' div 4 < 64" "a mod 4 * 16 + b div 16 < 64" "a' mod 4 * 16 + b' div 16 < 64"
    "b mod 16 * 4 + c div 64 < 64" "b' mod 16 * 4 + c' div 64 < 64" by auto
  have "a = a' \<and> b = b' \<and> c = c'"
    using Suc.prems(5) xs ys lt by (intro byte_split small) (simp_all add: b64_char_inject)
  moreover have "r = r'" using Suc.IH [of r r'] Suc.prems xs ys by simp
  ultimately show ?case using xs ys by simp
qed simp


section \<open>Properties\<close>

text \<open>C35: a login succeeds exactly when the username is a configured account's, the password matches its
  hash and the account is not disabled. Whatever the outcome, exactly one bcrypt comparison is run:
  on the account's own hash, or on the equalizer's when there is no such account.\<close>

theorem store_authenticate_exact:
  assumes "newAccountStore generate accounts = Some s" "distinct (map acc_Username accounts)"
  shows "(fst (store_authenticate cmp s username password) = Inr a \<longleftrightarrow>
            a \<in> set accounts \<and> acc_Username a = username \<and> cmp (acc_PasswordHash a) password \<and>
            \<not> acc_Disabled a) \<and>
         snd (store_authenticate cmp s username password) =
           [case find (\<lambda>x. acc_Username x = username) accounts of
              Some x \<Rightarrow> acc_PasswordHash x | None \<Rightarrow> as_dummyHash s]"
proof (cases "lookup_account s username")
  case None
  then have no: "\<forall>x \<in> set accounts. acc_Username x \<noteq> username"
    using lookup_newAccountStore [OF assms, of username] by auto
  then have "find (\<lambda>x. acc_Username x = username) accounts = None" by (simp add: find_None_iff)
  then show ?thesis using None no by (auto simp: store_authenticate_def)
next
  case (Some x)
  then have x: "x \<in> set accounts" "acc_Username x = username"
    using lookup_newAccountStore [OF assms, of username x] by auto
  have uniq: "y = x" if "y \<in> set accounts" "acc_Username y = username" for y
    using assms(2) that x by (auto simp: distinct_map inj_on_def)
  have "find (\<lambda>x. acc_Username x = username) accounts = Some x"
    by (rule find_unique) (use x uniq in blast)+
  moreover have "a \<in> set accounts \<and> acc_Username a = username \<longleftrightarrow> a = x" using x uniq by blast
  ultimately show ?thesis using Some by (auto simp: store_authenticate_def)
qed

theorem store_authenticate_exact_witness:
  "\<exists>s. newAccountStore (\<lambda>_ _. Some ''dummy'') [sample_account ''app'' ''pw''] = Some s \<and>
       fst (store_authenticate (\<lambda>h p. h = p) s ''app'' ''pw'') = Inr (sample_account ''app'' ''pw'') \<and>
       snd (store_authenticate (\<lambda>h p. h = p) s ''nobody'' ''pw'') = [''dummy'']"
proof -
  let ?as = "[sample_account ''app'' ''pw'']"
  obtain s where s: "newAccountStore (\<lambda>_ _. Some ''dummy'') ?as = Some s" "as_dummyHash s = ''dummy''"
    by (simp add: newAccountStore_def)
  have d: "distinct (map acc_Username ?as)" by simp
  show ?thesis
    using store_authenticate_exact [OF s(1) d, of "\<lambda>h p. h = p" "''app''" "''pw''" "sample_account ''app'' ''pw''"]
      store_authenticate_exact [OF s(1) d, of "\<lambda>h p. h = p" "''nobody''" "''pw''"] s
    by (auto simp: sample_account_def)
qed

text \<open>the LOGIN exchange verifies one pair of credentials and no more. With the username as the initial
  response or after the prompt, the callback runs once, on that username and the response that
  follows it; every response after that is refused without calling it again.\<close>

theorem login_verifies_once:
  "snd (snd (login_exchange (\<lambda>u p st. (verdict u p, st @ [(u, p)])) responses newLoginServer [])) =
     (case responses of
        u # p # _ \<Rightarrow> if u \<noteq> [] then [(u, p)]
                     else (case drop 2 responses of [] \<Rightarrow> [] | q # _ \<Rightarrow> [(p, q)])
      | _ \<Rightarrow> [])"
proof -
  let ?auth = "\<lambda>u p st. (verdict u p, st @ [(u, p)])"
  have pw: "snd (snd (login_exchange ?auth rs \<lparr>ls_username = u, ls_state = 2\<rparr> [])) =
      (case rs of [] \<Rightarrow> [] | q # _ \<Rightarrow> [(u, q)])" for u rs
    by (cases rs) (auto simp: login_Next_def login_ended split: option.splits prod.splits)
  have step: "snd (snd (login_exchange ?auth (r # rs) l [])) = snd (snd (login_exchange ?auth rs l' []))"
    if "login_Next ?auth r l [] = (x, l', [])" for r rs l l' x
    using that by (simp split: prod.split)
  have user: "snd (snd (login_exchange ?auth rs \<lparr>ls_username = [], ls_state = 1\<rparr> [])) =
      (case rs of [] \<Rightarrow> [] | u # ps \<Rightarrow> (case ps of [] \<Rightarrow> [] | q # _ \<Rightarrow> [(u, q)]))" for rs
  proof (cases rs)
    case (Cons u ps)
    have "login_Next ?auth u \<lparr>ls_username = [], ls_state = 1\<rparr> [] =
        ((''Password:'', False, None), \<lparr>ls_username = u, ls_state = 2\<rparr>, [])" by (simp add: login_Next_def)
    from step [OF this] show ?thesis using Cons pw by simp
  qed simp
  show ?thesis
  proof (cases responses)
    case (Cons r rs)
    have "login_Next ?auth r newLoginServer [] =
        (if r \<noteq> [] then ((''Password:'', False, None), \<lparr>ls_username = r, ls_state = 2\<rparr>, [])
         else ((''Username:'', False, None), \<lparr>ls_username = [], ls_state = 1\<rparr>, []))"
      by (simp add: login_Next_def newLoginServer_def)
    then have "snd (snd (login_exchange ?auth (r # rs) newLoginServer [])) =
        (if r \<noteq> [] then case rs of [] \<Rightarrow> [] | q # _ \<Rightarrow> [(r, q)]
         else case rs of [] \<Rightarrow> [] | u # ps \<Rightarrow> (case ps of [] \<Rightarrow> [] | q # _ \<Rightarrow> [(u, q)]))"
      using step [of r newLoginServer _ _ rs] pw user by (auto split: if_splits)
    then show ?thesis using Cons by (simp split: list.split)
  qed simp
qed

text \<open>a generated password is thirty-two characters of the URL-safe alphabet, and the encoding loses
  none of the randomness: different random bytes give different passwords.\<close>

theorem GeneratePassword_faithful:
  assumes "length buf = PasswordBytes" "length buf' = PasswordBytes"
    and "\<forall>x \<in> set buf \<union> set buf'. x < 256"
  shows "\<exists>p p'. GeneratePassword (Inr buf) = Inr p \<and> GeneratePassword (Inr buf') = Inr p' \<and>
           length p = 32 \<and> set p \<subseteq> set b64_alphabet \<and> (p = p' \<longrightarrow> buf = buf')"
  using b64_encode_length [of buf 8] b64_encode_alphabet [of buf] b64_encode_inject [of buf 8 buf'] assms
  by (auto simp: GeneratePassword_def PasswordBytes_def)

theorem GeneratePassword_faithful_witness:
  "GeneratePassword (Inr (replicate 24 255)) = Inr (replicate 32 CHR ''_'') \<and>
   set (replicate 32 CHR ''_'') \<subseteq> set b64_alphabet"
proof -
  have g: "GeneratePassword (Inr (replicate 24 255)) = Inr (replicate 32 CHR ''_'')" by code_simp
  have "\<forall>x \<in> set (replicate 24 (255::nat)) \<union> set (replicate 24 255). x < 256" by simp
  then show ?thesis
    using GeneratePassword_faithful [of "replicate 24 255" "replicate 24 255"] g
    by (simp add: PasswordBytes_def)
qed

end
