(* ===== verification/RateLimit.thy ===== *)
theory RateLimit
  imports Config Metrics
begin

text \<open>
  \<^verbatim>\<open>internal/gateway/ratelimit.go\<close>: the quota of an account, counted in a store that every replica of
  the gateway shares. The store and the clock are arguments. What the quota rests on is
  \<open>store_laws\<close>: \<^verbatim>\<open>INCRBY\<close> adds to one counter and returns its new value, and a call that failed either
  did or did not add.
\<close>


section \<open>The limiter\<close>

record 'w quota_env =
  clk_Unix :: "'w \<Rightarrow> int \<times> 'w"
  rd_Connect :: "RateLimitStore \<Rightarrow> 'w \<Rightarrow> nat \<times> 'w"
  rd_IncrBy :: "nat \<Rightarrow> string \<Rightarrow> int \<Rightarrow> Duration \<Rightarrow> Duration \<Rightarrow> 'w \<Rightarrow> int result \<times> 'w"
  rd_Close :: "nat \<Rightarrow> 'w \<Rightarrow> 'w"

definition rateLimitWindow :: Duration where "rateLimitWindow = 60 * 1000000000"
definition defaultRateLimitTimeout :: Duration where "defaultRateLimitTimeout = 2 * 1000000000"

definition sameStore :: "RateLimitStore \<Rightarrow> RateLimitStore \<Rightarrow> bool" where
  "sameStore a b \<longleftrightarrow>
     rls_Addresses a = rls_Addresses b \<and> rls_MasterName a = rls_MasterName b \<and> rls_DB a = rls_DB b \<and>
     rls_Username a = rls_Username b \<and> rls_Password a = rls_Password b \<and>
     rls_SentinelUsername a = rls_SentinelUsername b \<and>
     rls_SentinelPassword a = rls_SentinelPassword b \<and> rls_TLS a = rls_TLS b \<and>
     rls_InsecureSkipVerify a = rls_InsecureSkipVerify b \<and> rls_RootCAPEM a = rls_RootCAPEM b \<and>
     rls_Timeout a = rls_Timeout b"

text \<open>The client is the handle of a connection pool.\<close>

record limiter =
  li_client :: nat
  li_gateway :: string
  li_limits :: RateLimit

definition storeMode :: "RateLimitStore \<Rightarrow> string" where
  "storeMode store =
     (if rls_MasterName store \<noteq> [] then ''sentinel''
      else if length (rls_Addresses store) > 1 then ''cluster''
      else ''standalone'')"

text \<open>\<open>pem_ok\<close> is \<^verbatim>\<open>AppendCertsFromPEM\<close> on an empty pool. A nil limiter is \<^const>\<open>None\<close>.\<close>

definition newLimiter ::
  "('w, 'm) quota_env_scheme \<Rightarrow> (string \<Rightarrow> bool) \<Rightarrow> Config \<Rightarrow> 'w \<Rightarrow> limiter option result \<times> 'w" where
  "newLimiter E pem_ok cfg w =
     (case cfg_RateLimit cfg of
        None \<Rightarrow> (Inr None, w)
      | Some rl \<Rightarrow>
          (let store = rl_Store rl in
           if rls_Addresses store = [] then
             (Inl (Plain ''rateLimit.store.addresses is required''), w)
           else if rls_TLS store \<and> rls_RootCAPEM store \<noteq> [] \<and> \<not> pem_ok (rls_RootCAPEM store) then
             (Inl (Plain ''rateLimit.store: no certificate found in rootCAPEM''), w)
           else
             (case rd_Connect E store w of
                (client, w) \<Rightarrow>
                  (Inr (Some \<lparr>li_client = client, li_gateway = cfg_Hostname cfg, li_limits = rl\<rparr>), w))))"

definition limiter_close :: "('w, 'm) quota_env_scheme \<Rightarrow> limiter option \<Rightarrow> 'w \<Rightarrow> 'w" where
  "limiter_close E l w = (case l of None \<Rightarrow> w | Some l \<Rightarrow> rd_Close E (li_client l) w)"


section \<open>Counting\<close>

text \<open>Go's integer division truncates.\<close>

definition window_of :: "int \<Rightarrow> int" where
  "window_of unix = (if unix < 0 then - (- unix div 60) else unix div 60)"

definition key :: "limiter \<Rightarrow> string \<Rightarrow> string \<Rightarrow> int \<Rightarrow> string" where
  "key l account dimension unix =
     ''mailout:'' @ li_gateway l @ '':'' @ account @ '':'' @ dimension @ '':'' @ show_int (window_of unix)"

definition increment ::
  "('w, 'm) quota_env_scheme \<Rightarrow> limiter \<Rightarrow> string \<Rightarrow> string \<Rightarrow> int \<Rightarrow> Duration \<Rightarrow> 'w \<Rightarrow> int result \<times> 'w" where
  "increment E l account dimension by_n timeout w =
     (case clk_Unix E w of
        (unix, w) \<Rightarrow>
          rd_IncrBy E (li_client l) (key l account dimension unix) by_n (rateLimitWindow * 2) timeout w)"

text \<open>One turn of the loop in \<^verbatim>\<open>check\<close>.\<close>

definition check_dimension ::
  "('w, 'm) quota_env_scheme \<Rightarrow> limiter \<Rightarrow> string \<Rightarrow> string \<Rightarrow> int \<Rightarrow> int \<Rightarrow> Duration \<Rightarrow> 'w \<Rightarrow>
     smtp_error option \<times> metric list \<times> 'w" where
  "check_dimension E l account name limit by_n timeout w =
     (if limit \<le> 0 \<or> by_n \<le> 0 then (None, [], w)
      else case increment E l account name by_n timeout w of
        (Inl err, w) \<Rightarrow> (Some errStoreUnavailable, [rateLimitDecided account rateLimitError], w)
      | (Inr count, w) \<Rightarrow>
          if count > limit then
            (Some (errOverQuota name), [rateLimitDecided account rateLimitDenied], w)
          else (None, [], w))"

definition check_quota ::
  "('w, 'm) quota_env_scheme \<Rightarrow> limiter option \<Rightarrow> string \<Rightarrow> nat \<Rightarrow> 'w \<Rightarrow>
     smtp_error option \<times> metric list \<times> 'w" where
  "check_quota E lim account recipients w =
     (case lim of
        None \<Rightarrow> (None, [], w)
      | Some l \<Rightarrow>
          (let timeout = rls_Timeout (rl_Store (li_limits l));
               timeout = (if timeout = 0 then defaultRateLimitTimeout else timeout)
           in case check_dimension E l account ''messages'' (rl_MessagesPerMinute (li_limits l)) 1 timeout w of
                (Some err, ms, w) \<Rightarrow> (Some err, ms, w)
              | (None, ms, w) \<Rightarrow>
                (case check_dimension E l account ''recipients'' (rl_RecipientsPerMinute (li_limits l))
                        (int recipients) timeout w of
                   (Some err, ms, w) \<Rightarrow> (Some err, ms, w)
                 | (None, ms, w) \<Rightarrow> (None, [rateLimitDecided account rateLimitAllowed], w))))"


section \<open>Keys\<close>

lemma rpart_inject:
  "x @ COLON # a = y @ COLON # b \<Longrightarrow> COLON \<notin> set a \<Longrightarrow> COLON \<notin> set b \<Longrightarrow> x = y \<and> a = b"
  by (rule append_sep_inject_rev)

lemma colon_notin_ValidUsername: "ValidUsername u \<Longrightarrow> COLON \<notin> set u"
  unfolding ValidUsername_def list_all_iff by auto

lemma key_inject:
  assumes "key l a d t = key l' a' d' t'"
    and "COLON \<notin> set a" "COLON \<notin> set a'" "COLON \<notin> set d" "COLON \<notin> set d'"
  shows "li_gateway l = li_gateway l' \<and> a = a' \<and> d = d' \<and> window_of t = window_of t'"
proof -
  have "((''mailout:'' @ li_gateway l) @ COLON # a @ COLON # d) @ COLON # show_int (window_of t) =
        ((''mailout:'' @ li_gateway l') @ COLON # a' @ COLON # d') @ COLON # show_int (window_of t')"
    using assms(1) by (simp add: key_def)
  from rpart_inject [OF this colon_notin_show_int colon_notin_show_int]
  have 1: "((''mailout:'' @ li_gateway l) @ COLON # a) @ COLON # d =
      ((''mailout:'' @ li_gateway l') @ COLON # a') @ COLON # d'" "window_of t = window_of t'" by simp_all
  from rpart_inject [OF 1(1) assms(4,5)]
  have 2: "(''mailout:'' @ li_gateway l) @ COLON # a = (''mailout:'' @ li_gateway l') @ COLON # a'" "d = d'"
    by simp_all
  from rpart_inject [OF 2(1) assms(2,3)] show ?thesis using 1(2) 2(2) by simp
qed


section \<open>How much gets through\<close>

text \<open>\<open>cnt\<close> reads a counter of the store in a world.\<close>

definition store_laws :: "('w, 'm) quota_env_scheme \<Rightarrow> ('w \<Rightarrow> string \<Rightarrow> int) \<Rightarrow> bool" where
  "store_laws E cnt \<longleftrightarrow>
     (\<forall>w t w'. clk_Unix E w = (t, w') \<longrightarrow> cnt w' = cnt w) \<and>
     (\<forall>c k n ttl timeout w r w'. rd_IncrBy E c k n ttl timeout w = (r, w') \<longrightarrow>
        (\<forall>k'. k' \<noteq> k \<longrightarrow> cnt w' k' = cnt w k') \<and>
        (case r of
           Inr v \<Rightarrow> v = cnt w k + n \<and> cnt w' k = v
         | Inl _ \<Rightarrow> cnt w' k = cnt w k \<or> cnt w' k = cnt w k + n))"

lemma increment_law:
  assumes "store_laws E cnt" "increment E l a d n timeout w = (Inr v, w')"
  shows "cnt w' (key l a d (fst (clk_Unix E w))) = v \<and>
         v = cnt w (key l a d (fst (clk_Unix E w))) + n"
proof -
  obtain t w1 where c: "clk_Unix E w = (t, w1)" by fastforce
  then have "rd_IncrBy E (li_client l) (key l a d t) n (rateLimitWindow * 2) timeout w1 = (Inr v, w')"
    using assms(2) by (simp add: increment_def)
  moreover have "cnt w1 = cnt w" using assms(1) c unfolding store_laws_def by blast
  ultimately show ?thesis using assms(1) c unfolding store_laws_def by fastforce
qed

text \<open>A history of one counter: admissions by the gateway's replicas, each at its own moment and by its own
  limiter, interleaved with anything that does not lower the counter. The number is how much was
  admitted on it.\<close>

inductive admitted ::
  "('w, 'm) quota_env_scheme \<Rightarrow> ('w \<Rightarrow> string \<Rightarrow> int) \<Rightarrow> int \<Rightarrow> string \<Rightarrow> 'w \<Rightarrow> 'w \<Rightarrow> int \<Rightarrow> bool"
  for E cnt limit k where
  start: "admitted E cnt limit k w w 0"
| other: "admitted E cnt limit k w w1 n \<Longrightarrow> cnt w1 k \<le> cnt w2 k \<Longrightarrow> admitted E cnt limit k w w2 n"
| pass: "admitted E cnt limit k w w1 n \<Longrightarrow>
         check_dimension E l account d limit by_n timeout w1 = (None, ms, w2) \<Longrightarrow> 0 < by_n \<Longrightarrow>
         key l account d (fst (clk_Unix E w1)) = k \<Longrightarrow>
         admitted E cnt limit k w w2 (n + by_n)"

inductive_cases admittedE: "admitted E cnt limit k w w' n"

lemma check_dimension_pass:
  assumes "store_laws E cnt" "0 < limit" "0 < by_n"
    and "check_dimension E l account d limit by_n timeout w = (None, ms, w')"
  shows "cnt w' (key l account d (fst (clk_Unix E w))) \<le> limit \<and>
         cnt w' (key l account d (fst (clk_Unix E w))) =
           cnt w (key l account d (fst (clk_Unix E w))) + by_n"
proof -
  obtain v where "increment E l account d by_n timeout w = (Inr v, w')" "v \<le> limit"
    using assms(2-4) by (auto simp: check_dimension_def split: prod.splits sum.splits if_splits)
  then show ?thesis using increment_law [OF assms(1)] by metis
qed

lemma admitted_bound:
  assumes "store_laws E cnt" "0 < limit"
  shows "admitted E cnt limit k w w' n \<Longrightarrow> 0 \<le> cnt w k \<Longrightarrow>
         n \<le> limit \<and> 0 \<le> n \<and> cnt w k + n \<le> cnt w' k"
proof (induction rule: admitted.induct)
  case (pass w w1 n l account d by_n timeout ms w2)
  then show ?case using check_dimension_pass [OF assms pass(3,2)] by auto
qed (use assms in auto)


section \<open>Properties\<close>

text \<open>counters never mix. Two counters share a key only if they are the same gateway's, the same
  account's, of the same dimension and in the same minute, for any usernames the gateway serves.\<close>

theorem key_injective:
  assumes "ValidUsername a" "ValidUsername a'"
    and "d \<in> {''messages'', ''recipients''}" "d' \<in> {''messages'', ''recipients''}"
    and "key l a d t = key l' a' d' t'"
  shows "li_gateway l = li_gateway l' \<and> a = a' \<and> d = d' \<and> window_of t = window_of t'"
proof -
  have "COLON \<notin> set d" "COLON \<notin> set d'" using assms(3,4) by auto
  then show ?thesis using key_inject [OF assms(5)] assms(1,2) colon_notin_ValidUsername by blast
qed

definition sample_limiter :: limiter where
  "sample_limiter =
     \<lparr>li_client = 1, li_gateway = ''gw:1'',
      li_limits =
        \<lparr>rl_Store =
           \<lparr>rls_Addresses = [''valkey:6379''], rls_MasterName = [], rls_DB = 0, rls_Username = [],
            rls_Password = [], rls_SentinelUsername = [], rls_SentinelPassword = [], rls_TLS = False,
            rls_InsecureSkipVerify = False, rls_RootCAPEM = [], rls_Timeout = 0\<rparr>,
         rl_MessagesPerMinute = 2, rl_RecipientsPerMinute = 5\<rparr>\<rparr>"

theorem key_injective_witness:
  "key sample_limiter ''app'' ''messages'' 65 = key sample_limiter ''app'' ''messages'' 119 \<and>
   window_of 65 = window_of 119"
proof -
  have "key sample_limiter ''app'' ''messages'' 65 = key sample_limiter ''app'' ''messages'' 119" by code_simp
  moreover have "ValidUsername ''app''" by code_simp
  ultimately show ?thesis using key_injective by blast
qed

text \<open>A store that answers every call, with a clock that stands still.\<close>

definition map_store :: "(string \<Rightarrow> int) quota_env" where
  "map_store =
     \<lparr>clk_Unix = (\<lambda>w. (90, w)), rd_Connect = (\<lambda>_ w. (1, w)),
      rd_IncrBy = (\<lambda>_ k n _ _ w. (Inr (w k + n), w(k := w k + n))), rd_Close = (\<lambda>_ w. w)\<rparr>"

lemma map_store_laws [simp]: "store_laws map_store (\<lambda>w. w)"
  by (simp add: store_laws_def map_store_def)

text \<open>C11: within one counting window no more gets through than the limit, however the replicas' calls
  interleave, whatever fails, and whatever else happens to the store short of lowering the counter.
  This holds of messages and of recipients alike, counting each admission by what it asked for.\<close>

theorem quota_never_exceeded:
  assumes "store_laws E cnt" "0 < limit" "admitted E cnt limit k w w' n" "0 \<le> cnt w k"
  shows "n \<le> limit"
  using admitted_bound [OF assms(1,2,3,4)] by simp

theorem quota_never_exceeded_witness:
  "\<exists>w'. admitted map_store (\<lambda>w. w) 2 (key sample_limiter ''app'' ''messages'' 90) (\<lambda>_. 0) w' 2 \<and> (2::int) \<le> 2"
proof -
  let ?k = "key sample_limiter ''app'' ''messages'' 90"
  have pass: "check_dimension map_store sample_limiter ''app'' ''messages'' 2 1 t w = (None, [], w(?k := w ?k + 1))"
    if "w ?k \<le> 1" for t w
    using that by (simp add: check_dimension_def increment_def map_store_def)
  have a1: "admitted map_store (\<lambda>w. w) 2 ?k (\<lambda>_. 0) ((\<lambda>_. 0)(?k := 1)) (0 + 1)"
    using admitted.pass [OF admitted.start pass [of "\<lambda>_. 0" 0]] by (simp add: map_store_def)
  have "admitted map_store (\<lambda>w. w) 2 ?k (\<lambda>_. 0) ((\<lambda>_. 0)(?k := 2)) (0 + 1 + 1)"
    using admitted.pass [OF a1 pass [of _ 0]] by (simp add: map_store_def)
  then show ?thesis using quota_never_exceeded [OF map_store_laws] by fastforce
qed

lemma check_dimension_temporary:
  "check_dimension E l account d lim n t w = (Some e, ms, w') \<Longrightarrow> temporary e"
  by (auto simp: check_dimension_def temporary_def own_replies split: prod.splits sum.splits if_splits)

lemma check_dimension_answered:
  "check_dimension E l account d lim n t w = (None, ms, w') \<Longrightarrow> 0 < lim \<Longrightarrow> 0 < n \<Longrightarrow>
   \<exists>c. increment E l account d n t w = (Inr c, w') \<and> c \<le> lim"
  by (auto simp: check_dimension_def split: prod.splits sum.splits if_splits)

text \<open>C32: the quota fails closed. A message passes a dimension that has a limit only when the store answered
  and the count it returned is within the limit; every refusal is temporary, so the client keeps the
  message; and a gateway without a quota makes no call at all.\<close>

theorem check_quota_fails_closed:
  "check_quota E None account recipients w = (None, [], w) \<and>
   (check_quota E (Some l) account recipients w = (Some e, ms, w') \<longrightarrow> temporary e) \<and>
   (check_quota E (Some l) account recipients w = (None, ms, w') \<longrightarrow>
      ms = [rateLimitDecided account rateLimitAllowed] \<and>
      (0 < rl_MessagesPerMinute (li_limits l) \<longrightarrow>
        (\<exists>c timeout w1. increment E l account ''messages'' 1 timeout w = (Inr c, w1) \<and>
           c \<le> rl_MessagesPerMinute (li_limits l))) \<and>
      (0 < rl_RecipientsPerMinute (li_limits l) \<and> 0 < recipients \<longrightarrow>
        (\<exists>c timeout w1. increment E l account ''recipients'' (int recipients) timeout w1 = (Inr c, w') \<and>
           c \<le> rl_RecipientsPerMinute (li_limits l))))"
proof -
  define t where "t = (if rls_Timeout (rl_Store (li_limits l)) = 0 then defaultRateLimitTimeout
                       else rls_Timeout (rl_Store (li_limits l)))"
  obtain e1 m1 w1 where 1: "check_dimension E l account ''messages'' (rl_MessagesPerMinute (li_limits l)) 1 t w = (e1, m1, w1)"
    by (metis surj_pair)
  obtain e2 m2 w2 where 2: "check_dimension E l account ''recipients'' (rl_RecipientsPerMinute (li_limits l))
      (int recipients) t w1 = (e2, m2, w2)" by (metis surj_pair)
  have eq: "check_quota E (Some l) account recipients w =
      (case e1 of Some e \<Rightarrow> (Some e, m1, w1)
       | None \<Rightarrow> (case e2 of Some e \<Rightarrow> (Some e, m2, w2)
                  | None \<Rightarrow> (None, [rateLimitDecided account rateLimitAllowed], w2)))"
    using 1 2 by (simp add: check_quota_def t_def split: option.split)
  show ?thesis
  proof (intro conjI impI)
    assume "check_quota E (Some l) account recipients w = (Some e, ms, w')"
    then show "temporary e" using eq 1 2 check_dimension_temporary by (auto split: option.splits)
  next
    assume "check_quota E (Some l) account recipients w = (None, ms, w')" "0 < rl_MessagesPerMinute (li_limits l)"
    then show "\<exists>c timeout w1. increment E l account ''messages'' 1 timeout w = (Inr c, w1) \<and>
           c \<le> rl_MessagesPerMinute (li_limits l)"
      using eq 1 check_dimension_answered [of E l account _ _ 1] by (fastforce split: option.splits)
  next
    assume "check_quota E (Some l) account recipients w = (None, ms, w')"
      "0 < rl_RecipientsPerMinute (li_limits l) \<and> 0 < recipients"
    then show "\<exists>c timeout w1. increment E l account ''recipients'' (int recipients) timeout w1 = (Inr c, w') \<and>
           c \<le> rl_RecipientsPerMinute (li_limits l)"
      using eq 2 check_dimension_answered [of E l account _ _ "int recipients"]
      by (fastforce split: option.splits)
  qed (use eq in \<open>auto simp: check_quota_def split: option.splits\<close>)
qed

theorem check_quota_fails_closed_witness:
  "\<exists>w'. check_quota map_store (Some sample_limiter) ''app'' 3 (\<lambda>_. 0) =
     (None, [rateLimitDecided ''app'' rateLimitAllowed], w') \<and>
     (\<exists>c timeout w1. increment map_store sample_limiter ''app'' ''messages'' 1 timeout (\<lambda>_. 0) = (Inr c, w1) \<and> c \<le> 2)"
proof -
  obtain r ms w' where q: "check_quota map_store (Some sample_limiter) ''app'' 3 (\<lambda>_. 0) = (r, ms, w')"
    by (metis surj_pair)
  have "fst (check_quota map_store (Some sample_limiter) ''app'' 3 (\<lambda>_. 0)) = None" by code_simp
  with q have r: "check_quota map_store (Some sample_limiter) ''app'' 3 (\<lambda>_. 0) = (None, ms, w')" by simp
  have "0 < rl_MessagesPerMinute (li_limits sample_limiter)" "rl_MessagesPerMinute (li_limits sample_limiter) = 2"
    by code_simp+
  then show ?thesis
    using check_quota_fails_closed [of map_store "''app''" 3 "\<lambda>_. 0" sample_limiter _ ms w'] r by auto
qed

end
