(* ===== verification/Message.thy ===== *)
theory Message
  imports Go_Strings Go_Text
begin

text \<open>
  \<^verbatim>\<open>internal/gateway/message.go\<close>: a message split into its headers, in order, and its body; printing it
  back; and the header edits a milter can ask for. \<^verbatim>\<open>parseMessage\<close> reads from a byte slice, which never
  fails with anything but the end of the input, so its two error returns are unreachable and the
  model returns the message alone.
\<close>


section \<open>Parsing and printing\<close>

record headerField =
  hf_Name :: string
  hf_Value :: string

record parsedMessage =
  pm_Headers :: "headerField list"
  pm_Body :: bytes

text \<open>\<^verbatim>\<open>ReadString\<close> up to and including the next line feed, or all there is when there is none.\<close>

definition read_line :: "bytes \<Rightarrow> bytes \<times> bytes" where
  "read_line s =
     (if LF \<in> set s
      then (takeWhile (\<lambda>c. c \<noteq> LF) s @ [LF], tl (dropWhile (\<lambda>c. c \<noteq> LF) s))
      else (s, []))"

lemma read_line_append: "fst (read_line s) @ snd (read_line s) = s"
  using split_at_first [of LF s] by (auto simp: read_line_def)

lemma read_line_nonempty: "s \<noteq> [] \<Longrightarrow> fst (read_line s) \<noteq> []"
  by (auto simp: read_line_def)

lemma read_line_shorter:
  assumes "s \<noteq> []"
  shows "length (snd (read_line s)) < length s"
proof -
  have "length s = length (fst (read_line s)) + length (snd (read_line s))"
    by (metis length_append read_line_append)
  then show ?thesis using read_line_nonempty [OF assms] by (cases "fst (read_line s)") auto
qed

lemma read_line_rest: "(line, rest) = read_line s \<Longrightarrow> s \<noteq> [] \<Longrightarrow> length rest < length s"
  using read_line_shorter [of s] by (cases "read_line s") simp

text \<open>Appending to the value of the last header, as a folded line does.\<close>

definition fold_last :: "headerField list \<Rightarrow> string \<Rightarrow> headerField list" where
  "fold_last hs text =
     butlast hs @ [(last hs)\<lparr>hf_Value := hf_Value (last hs) @ CRLF @ text\<rparr>]"

function parse_loop :: "headerField list \<Rightarrow> bytes \<Rightarrow> parsedMessage" where
  "parse_loop hs data =
     (if data = [] then \<lparr>pm_Headers = hs, pm_Body = []\<rparr>
      else case read_line data of
        (line, rest) \<Rightarrow>
          let trimmed_line = trim_right line [CR, LF] in
          if trimmed_line = [] then \<lparr>pm_Headers = hs, pm_Body = rest\<rparr>
          else if (hd line = SP \<or> hd line = TAB) \<and> hs \<noteq> [] then
            parse_loop (fold_last hs trimmed_line) rest
          else case cut COLON trimmed_line of
            (name, value, found) \<Rightarrow>
              if \<not> found then \<lparr>pm_Headers = hs, pm_Body = line @ rest\<rparr>
              else
                let hs' = hs @ [\<lparr>hf_Name = name, hf_Value = trim_prefix value '' ''\<rparr>] in
                if LF \<notin> set data then \<lparr>pm_Headers = hs', pm_Body = []\<rparr>
                else parse_loop hs' rest)"
  by pat_completeness auto
termination
  by (relation "measure (\<lambda>(hs, data). length data)") (simp_all add: read_line_rest)

declare parse_loop.simps [simp del]

definition parseMessage :: "bytes \<Rightarrow> parsedMessage" where
  "parseMessage data = parse_loop [] data"

definition print_field :: "headerField \<Rightarrow> bytes" where
  "print_field f = hf_Name f @ '': '' @ hf_Value f @ CRLF"

text \<open>The writes of \<^verbatim>\<open>WriteHeaders\<close>, one per header and one for the blank line.\<close>

definition WriteHeaders :: "parsedMessage \<Rightarrow> bytes list" where
  "WriteHeaders m = map print_field (pm_Headers m) @ [CRLF]"

definition message_Bytes :: "parsedMessage \<Rightarrow> bytes" where
  "message_Bytes m = concat (map print_field (pm_Headers m)) @ CRLF @ pm_Body m"


section \<open>Header edits\<close>

definition addHeader :: "string \<Rightarrow> string \<Rightarrow> parsedMessage \<Rightarrow> parsedMessage" where
  "addHeader name value m =
     m\<lparr>pm_Headers := pm_Headers m @ [\<lparr>hf_Name = name, hf_Value = value\<rparr>]\<rparr>"

definition insertHeader :: "int \<Rightarrow> string \<Rightarrow> string \<Rightarrow> parsedMessage \<Rightarrow> parsedMessage" where
  "insertHeader index name value m =
     (let pos = index - 1;
          pos = (if pos < 0 then 0 else pos);
          pos = (if pos > int (length (pm_Headers m)) then int (length (pm_Headers m)) else pos)
      in m\<lparr>pm_Headers :=
             take (nat pos) (pm_Headers m) @ [\<lparr>hf_Name = name, hf_Value = value\<rparr>] @
             drop (nat pos) (pm_Headers m)\<rparr>)"

text \<open>The loop of \<^verbatim>\<open>changeHeader\<close>: \<^const>\<open>None\<close> when it falls through.\<close>

fun change_loop ::
  "unicode \<Rightarrow> int \<Rightarrow> string \<Rightarrow> string \<Rightarrow> int \<Rightarrow> headerField list \<Rightarrow> headerField list option" where
  "change_loop U index name value seen [] = None"
| "change_loop U index name value seen (h # hs) =
     (if \<not> equal_fold U (hf_Name h) name then
        map_option (Cons h) (change_loop U index name value seen hs)
      else
        let seen = seen + 1 in
        if seen \<noteq> index then map_option (Cons h) (change_loop U index name value seen hs)
        else if value = [] then Some hs
        else Some (h\<lparr>hf_Value := value\<rparr> # hs))"

definition changeHeader ::
  "unicode \<Rightarrow> int \<Rightarrow> string \<Rightarrow> string \<Rightarrow> parsedMessage \<Rightarrow> parsedMessage" where
  "changeHeader U index name value m =
     (case change_loop U index name value 0 (pm_Headers m) of
        Some hs \<Rightarrow> m\<lparr>pm_Headers := hs\<rparr>
      | None \<Rightarrow> if value \<noteq> [] then addHeader name value m else m)"


section \<open>Headers that survive printing\<close>

text \<open>A value is a first line and folded lines. None holds a line feed or ends in a carriage return, and
  folded lines start with white space.\<close>

definition folded :: "string list \<Rightarrow> string" where
  "folded cs = concat (map (\<lambda>c. CRLF @ c) cs)"

definition line_ok :: "string \<Rightarrow> bool" where
  "line_ok l \<longleftrightarrow> LF \<notin> set l \<and> (l = [] \<or> last l \<noteq> CR)"

definition cont_ok :: "string \<Rightarrow> bool" where
  "cont_ok c \<longleftrightarrow> c \<noteq> [] \<and> hd c \<in> {SP, TAB} \<and> line_ok c"

definition value_ok :: "string \<Rightarrow> bool" where
  "value_ok v \<longleftrightarrow> (\<exists>v0 cs. v = v0 @ folded cs \<and> line_ok v0 \<and> list_all cont_ok cs)"

definition name_ok :: "string \<Rightarrow> bool" where
  "name_ok n \<longleftrightarrow> COLON \<notin> set n \<and> LF \<notin> set n"

text \<open>Only the first header may start with white space: any other line that does is a folded line.\<close>

definition headers_ok :: "headerField list \<Rightarrow> bool" where
  "headers_ok hs \<longleftrightarrow>
     list_all (\<lambda>h. name_ok (hf_Name h) \<and> value_ok (hf_Value h)) hs \<and>
     list_all (\<lambda>h. hf_Name h = [] \<or> hd (hf_Name h) \<notin> {SP, TAB}) (tl hs)"

lemma read_line_LF [simp]: "LF \<notin> set a \<Longrightarrow> read_line (a @ LF # r) = (a @ [LF], r)"
  by (simp add: read_line_def)

lemma trim_right_CRLF:
  "line_ok l \<Longrightarrow> trim_right (l @ CRLF) [CR, LF] = l" "line_ok l \<Longrightarrow> trim_right (l @ [LF]) [CR, LF] = l"
  "line_ok l \<Longrightarrow> trim_right l [CR, LF] = l"
proof -
  assume "line_ok l"
  then have "l = [] \<or> last l \<notin> set [CR, LF]"
    by (cases l rule: rev_cases) (auto simp: line_ok_def)
  then have id: "trim_right l [CR, LF] = l" by (rule trim_right_id)
  show "trim_right (l @ CRLF) [CR, LF] = l" "trim_right (l @ [LF]) [CR, LF] = l" "trim_right l [CR, LF] = l"
    using id by (simp_all add: trim_right_append)
qed

text \<open>One step of the parser on each kind of line.\<close>

lemma parse_blank: "parse_loop hs (CRLF @ body) = \<lparr>pm_Headers = hs, pm_Body = body\<rparr>"
proof -
  have "read_line (CRLF @ body) = (CRLF, body)" using read_line_LF [of "[CR]" body] by simp
  moreover have "trim_right CRLF [CR, LF] = []" by (simp add: trim_right_def)
  ultimately show ?thesis by (simp add: parse_loop.simps [of hs])
qed

lemma parse_header_line:
  assumes "name_ok n" "line_ok v" "hs = [] \<or> n = [] \<or> hd n \<notin> {SP, TAB}"
  shows "parse_loop hs (n @ '': '' @ v @ CRLF @ rest) =
         parse_loop (hs @ [\<lparr>hf_Name = n, hf_Value = v\<rparr>]) rest"
proof -
  let ?l = "n @ '': '' @ v"
  have l: "line_ok ?l" using assms by (auto simp: line_ok_def name_ok_def last_append)
  have lf: "LF \<notin> set (?l @ [CR])" using assms by (auto simp: line_ok_def name_ok_def)
  have "read_line (?l @ CRLF @ rest) = (?l @ CRLF, rest)" using read_line_LF [OF lf] by simp
  moreover have "trim_right (?l @ CRLF) [CR, LF] = ?l" using trim_right_CRLF(1) [OF l] .
  moreover have "cut COLON ?l = (n, '' '' @ v, True)"
    using cut_found [of COLON n "'' '' @ v"] assms(1) by (simp add: name_ok_def)
  moreover have "hs = [] \<or> hd (?l @ CRLF) \<noteq> SP \<and> hd (?l @ CRLF) \<noteq> TAB"
    using assms(3) by (cases n) auto
  ultimately show ?thesis
    by (auto simp: parse_loop.simps [of hs] trim_prefix_def Let_def)
qed

lemma parse_folded_line:
  assumes "cont_ok c" "hs \<noteq> []"
  shows "parse_loop hs (c @ CRLF @ rest) = parse_loop (fold_last hs c) rest"
proof -
  have lf: "LF \<notin> set (c @ [CR])" using assms by (auto simp: cont_ok_def line_ok_def)
  have "read_line (c @ CRLF @ rest) = (c @ CRLF, rest)" using read_line_LF [OF lf] by simp
  moreover have "trim_right (c @ CRLF) [CR, LF] = c"
    using assms trim_right_CRLF(1) by (simp add: cont_ok_def)
  moreover have "c \<noteq> []" "hd (c @ CRLF) = SP \<or> hd (c @ CRLF) = TAB"
    using assms by (auto simp: cont_ok_def)
  ultimately show ?thesis using assms(2) by (simp add: parse_loop.simps [of hs])
qed

lemma parse_folded_lines:
  "list_all cont_ok cs \<Longrightarrow>
   parse_loop (hs @ [\<lparr>hf_Name = n, hf_Value = v\<rparr>]) (concat (map (\<lambda>c. c @ CRLF) cs) @ rest) =
   parse_loop (hs @ [\<lparr>hf_Name = n, hf_Value = v @ folded cs\<rparr>]) rest"
proof (induction cs arbitrary: v)
  case (Cons c cs)
  then show ?case
    using parse_folded_line [of c "hs @ [\<lparr>hf_Name = n, hf_Value = v\<rparr>]"]
    by (simp add: fold_last_def folded_def)
qed (simp add: folded_def)

lemma folded_shift: "folded cs @ CRLF = CRLF @ concat (map (\<lambda>c. c @ CRLF) cs)"
  by (induction cs) (simp_all add: folded_def)

lemma parse_field:
  assumes "name_ok (hf_Name h)" "value_ok (hf_Value h)"
    and "hs = [] \<or> hf_Name h = [] \<or> hd (hf_Name h) \<notin> {SP, TAB}"
  shows "parse_loop hs (print_field h @ rest) = parse_loop (hs @ [h]) rest"
proof -
  obtain v0 cs where v: "hf_Value h = v0 @ folded cs" "line_ok v0" "list_all cont_ok cs"
    using assms(2) by (auto simp: value_ok_def)
  have "print_field h @ rest =
      hf_Name h @ '': '' @ v0 @ CRLF @ (concat (map (\<lambda>c. c @ CRLF) cs) @ rest)"
    using folded_shift [of cs] v(1) by (simp add: print_field_def)
  then show ?thesis
    using parse_header_line [OF assms(1) v(2) assms(3)] parse_folded_lines [OF v(3)] v(1)
    by (cases h) simp
qed

lemma parse_printed:
  "list_all (\<lambda>h. name_ok (hf_Name h) \<and> value_ok (hf_Value h)) hs \<Longrightarrow>
   list_all (\<lambda>h. hf_Name h = [] \<or> hd (hf_Name h) \<notin> {SP, TAB}) (if acc = [] then tl hs else hs) \<Longrightarrow>
   parse_loop acc (concat (map print_field hs) @ CRLF @ body) =
     \<lparr>pm_Headers = acc @ hs, pm_Body = body\<rparr>"
proof (induction hs arbitrary: acc)
  case Nil
  then show ?case using parse_blank by simp
next
  case (Cons h hs)
  then have "parse_loop acc (print_field h @ concat (map print_field hs) @ CRLF @ body) =
      parse_loop (acc @ [h]) (concat (map print_field hs) @ CRLF @ body)"
    by (intro parse_field) (auto split: if_splits)
  then show ?case using Cons by (auto split: if_splits)
qed

lemma parse_Bytes:
  assumes "headers_ok (pm_Headers m)"
  shows "parseMessage (message_Bytes m) = m"
  using parse_printed [of "pm_Headers m" "[]" "pm_Body m"] assms
  by (simp add: headers_ok_def parseMessage_def message_Bytes_def)

text \<open>Whatever the input, the headers the parser finds are of that kind.\<close>

lemma read_line_body:
  assumes "s \<noteq> []"
  shows "LF \<notin> set (trim_right (fst (read_line s)) [CR, LF])"
    and "line_ok (trim_right (fst (read_line s)) [CR, LF])"
proof -
  let ?l = "if LF \<in> set s then takeWhile (\<lambda>c. c \<noteq> LF) s else s"
  have t: "trim_right (fst (read_line s)) [CR, LF] = trim_right ?l [CR, LF]"
    by (simp add: read_line_def trim_right_append)
  show lf: "LF \<notin> set (trim_right (fst (read_line s)) [CR, LF])"
    unfolding t using set_trim_right_subset [of ?l "[CR, LF]"] notin_takeWhile_neq [of LF s]
    by (auto split: if_splits)
  show "line_ok (trim_right (fst (read_line s)) [CR, LF])"
    unfolding line_ok_def using lf last_trim_right [of "fst (read_line s)" "[CR, LF]"] by auto
qed

lemma value_ok_line: "line_ok v \<Longrightarrow> value_ok v"
  unfolding value_ok_def by (rule exI [of _ v], rule exI [of _ "[]"]) (simp add: folded_def)

lemma value_ok_fold: "value_ok v \<Longrightarrow> cont_ok c \<Longrightarrow> value_ok (v @ CRLF @ c)"
proof -
  assume "value_ok v" "cont_ok c"
  then obtain v0 cs where "v = v0 @ folded cs" "line_ok v0" "list_all cont_ok (cs @ [c])"
    by (auto simp: value_ok_def)
  then show ?thesis
    unfolding value_ok_def by (intro exI [of _ v0] exI [of _ "cs @ [c]"]) (simp add: folded_def)
qed

lemma headers_ok_fold:
  assumes "headers_ok hs" "hs \<noteq> []" "cont_ok c"
  shows "headers_ok (fold_last hs c)"
proof (cases hs rule: rev_cases)
  case (snoc xs h)
  then show ?thesis
    using assms value_ok_fold [of "hf_Value h" c]
    by (cases xs) (auto simp: headers_ok_def fold_last_def)
qed (use assms in simp)

lemma headers_ok_snoc:
  "headers_ok hs \<Longrightarrow> name_ok n \<Longrightarrow> line_ok v \<Longrightarrow> hs = [] \<or> n = [] \<or> hd n \<notin> {SP, TAB} \<Longrightarrow>
   headers_ok (hs @ [\<lparr>hf_Name = n, hf_Value = v\<rparr>])"
  by (cases hs) (auto simp: headers_ok_def value_ok_line)

lemma line_ok_suffix: "line_ok (a @ b) \<Longrightarrow> line_ok b"
  by (cases "b = []") (auto simp: line_ok_def)

lemma line_ok_suffix': "suffix b a \<Longrightarrow> line_ok a \<Longrightarrow> line_ok b"
  unfolding suffix_def using line_ok_suffix by blast

lemma hd_trim_right: "trim_right l cs \<noteq> [] \<Longrightarrow> hd (trim_right l cs) = hd l"
  using trim_right_prefix [of l cs] by (metis hd_append2 prefix_def)

lemma parse_loop_step:
  assumes "data \<noteq> []" "read_line data = (line, rest)" "t = trim_right line [CR, LF]"
  shows "parse_loop hs data =
     (if t = [] then \<lparr>pm_Headers = hs, pm_Body = rest\<rparr>
      else if (hd line = SP \<or> hd line = TAB) \<and> hs \<noteq> [] then parse_loop (fold_last hs t) rest
      else case cut COLON t of (n, v, found) \<Rightarrow>
        if \<not> found then \<lparr>pm_Headers = hs, pm_Body = line @ rest\<rparr>
        else if LF \<notin> set data then
          \<lparr>pm_Headers = hs @ [\<lparr>hf_Name = n, hf_Value = trim_prefix v '' ''\<rparr>], pm_Body = []\<rparr>
        else parse_loop (hs @ [\<lparr>hf_Name = n, hf_Value = trim_prefix v '' ''\<rparr>]) rest)"
  using assms by (simp add: parse_loop.simps [of hs data] Let_def split: prod.split)

lemma parse_loop_ok: "headers_ok hs \<Longrightarrow> headers_ok (pm_Headers (parse_loop hs data))"
proof (induction hs data rule: parse_loop.induct)
  case (1 hs data)
  show ?case
  proof (cases "data = []")
    case True
    then show ?thesis using 1 by (simp add: parse_loop.simps [of hs])
  next
    case ne: False
    obtain line rest where lr: "read_line data = (line, rest)" by fastforce
    define t where "t = trim_right line [CR, LF]"
    have tok: "line_ok t" using read_line_body(2) [OF ne] lr by (simp add: t_def)
    have hd: "t \<noteq> [] \<Longrightarrow> hd t = hd line" unfolding t_def by (rule hd_trim_right)
    note eq = parse_loop_step [OF ne lr t_def, of hs]
    consider (stop) "t = []" | (fold) "t \<noteq> []" "hd line \<in> {SP, TAB}" "hs \<noteq> []"
      | (field) "t \<noteq> []" "hs = [] \<or> hd line \<notin> {SP, TAB}" by blast
    then show ?thesis
    proof cases
      case stop
      then show ?thesis using 1 eq by simp
    next
      case fold
      then have "cont_ok t" using tok hd by (simp add: cont_ok_def)
      then have "headers_ok (fold_last hs t)" using 1(3) fold headers_ok_fold by blast
      then show ?thesis using 1(1) [OF ne lr [symmetric]] fold eq t_def by auto
    next
      case field
      show ?thesis
      proof (cases rule: cut_cases [of t COLON])
        case (found n v)
        have "line_ok (trim_prefix v '' '')"
          using tok found(1) trim_prefix_suffix [of v "'' ''"] line_ok_suffix [of "n @ [COLON]" v]
          by (auto dest: line_ok_suffix')
        moreover have "name_ok n" using found tok by (auto simp: name_ok_def line_ok_def)
        moreover have "hs = [] \<or> n = [] \<or> hd n \<notin> {SP, TAB}"
          using field hd found(1) by (cases n) auto
        ultimately have ok: "headers_ok (hs @ [\<lparr>hf_Name = n, hf_Value = trim_prefix v '' ''\<rparr>])"
          using 1(3) headers_ok_snoc by blast
        then show ?thesis using 1(2) [OF ne lr [symmetric]] field eq found(3) t_def by auto
      next
        case missing
        then show ?thesis using 1 eq field by auto
      qed
    qed
  qed
qed

lemma parseMessage_ok: "headers_ok (pm_Headers (parseMessage data))"
  unfolding parseMessage_def by (rule parse_loop_ok) (simp add: headers_ok_def)

text \<open>What the edits do.\<close>

abbreviation named :: "unicode \<Rightarrow> string \<Rightarrow> headerField \<Rightarrow> bool" where
  "named U name h \<equiv> equal_fold U (hf_Name h) name"

lemma change_loop_hit:
  "named U name h \<Longrightarrow> int (length (filter (named U name) before)) + 1 + seen = index \<Longrightarrow>
   change_loop U index name value seen (before @ h # after) =
     Some (if value = [] then before @ after else before @ h\<lparr>hf_Value := value\<rparr> # after)"
  by (induction before arbitrary: seen) (auto simp: Let_def ac_simps)

lemma change_loop_miss:
  "index \<le> seen \<or> int (length (filter (named U name) hs)) + seen < index \<Longrightarrow>
   change_loop U index name value seen hs = None"
  by (induction hs arbitrary: seen) (auto simp: Let_def)

text \<open>Edits of well-formed headers with well-formed content stay printable.\<close>

definition field_ok :: "string \<Rightarrow> string \<Rightarrow> bool" where
  "field_ok name value \<longleftrightarrow>
     name_ok name \<and> (name = [] \<or> hd name \<notin> {SP, TAB}) \<and> value_ok value"

lemma addHeader_ok:
  "headers_ok (pm_Headers m) \<Longrightarrow> field_ok name value \<Longrightarrow>
   headers_ok (pm_Headers (addHeader name value m))"
  by (cases "pm_Headers m") (auto simp: headers_ok_def field_ok_def addHeader_def)


section \<open>Properties\<close>

text \<open>C40: printing and parsing are inverse on messages whose headers a header block can carry: names with
  no colon and no line feed, values whose further lines are folded. The headers keep their order,
  names, values and foldings, and the body comes back byte for byte.\<close>

theorem parse_print_roundtrip:
  assumes "headers_ok (pm_Headers m)"
  shows "parseMessage (message_Bytes m) = m"
  using assms by (rule parse_Bytes)

theorem parse_print_roundtrip_witness:
  "parseMessage (message_Bytes \<lparr>pm_Headers =
       [\<lparr>hf_Name = ''From'', hf_Value = ''app@example.test''\<rparr>,
        \<lparr>hf_Name = ''To'', hf_Value = ''a@x.test,'' @ CRLF @ '' b@x.test''\<rparr>], pm_Body = ''hi''\<rparr>) =
   \<lparr>pm_Headers =
       [\<lparr>hf_Name = ''From'', hf_Value = ''app@example.test''\<rparr>,
        \<lparr>hf_Name = ''To'', hf_Value = ''a@x.test,'' @ CRLF @ '' b@x.test''\<rparr>], pm_Body = ''hi''\<rparr>"
proof (rule parse_print_roundtrip)
  have "line_ok ''app@example.test''" "line_ok ''a@x.test,''" "cont_ok '' b@x.test''" by code_simp+
  moreover have "name_ok ''From''" "name_ok ''To''" by code_simp+
  ultimately show "headers_ok (pm_Headers \<lparr>pm_Headers =
       [\<lparr>hf_Name = ''From'', hf_Value = ''app@example.test''\<rparr>,
        \<lparr>hf_Name = ''To'', hf_Value = ''a@x.test,'' @ CRLF @ '' b@x.test''\<rparr>], pm_Body = ''hi''\<rparr>)"
    using value_ok_line value_ok_fold [of "''a@x.test,''" "'' b@x.test''"] by (simp add: headers_ok_def)
qed

text \<open>parsing reaches a normal form in one step. For any bytes whatever, parsing, printing and parsing
  again gives what the first parse gave, so a message rewritten for one filter reads the same to the
  next.\<close>

theorem parse_stable: "parseMessage (message_Bytes (parseMessage data)) = parseMessage data"
  by (rule parse_Bytes) (rule parseMessage_ok)

text \<open>a filter's change of the n-th header of a name changes that one, or removes it when the new value
  is empty, and leaves every other header and their order alone; when there is no n-th one, a value is
  appended and an empty value changes nothing.\<close>

theorem changeHeader_exact:
  "(pm_Headers m = before @ h # after \<and> named U name h \<and>
    index = int (length (filter (named U name) before)) + 1 \<longrightarrow>
      pm_Headers (changeHeader U index name value m) =
        (if value = [] then before @ after else before @ h\<lparr>hf_Value := value\<rparr> # after)) \<and>
   (index \<le> 0 \<or> int (length (filter (named U name) (pm_Headers m))) < index \<longrightarrow>
      changeHeader U index name value m = (if value = [] then m else addHeader name value m))"
  using change_loop_hit [of U h name before 0 index "value" after]
    change_loop_miss [of index 0 U name "pm_Headers m" "value"]
  by (auto simp: changeHeader_def)

theorem changeHeader_exact_witness:
  "pm_Headers (changeHeader ascii_unicode 2 ''subject'' ''new'' \<lparr>pm_Headers =
       [\<lparr>hf_Name = ''Subject'', hf_Value = ''a''\<rparr>, \<lparr>hf_Name = ''SUBJECT'', hf_Value = ''b''\<rparr>],
     pm_Body = []\<rparr>) =
     [\<lparr>hf_Name = ''Subject'', hf_Value = ''a''\<rparr>, \<lparr>hf_Name = ''SUBJECT'', hf_Value = ''new''\<rparr>]"
proof -
  let ?a = "\<lparr>hf_Name = ''Subject'', hf_Value = ''a''\<rparr>" and ?b = "\<lparr>hf_Name = ''SUBJECT'', hf_Value = ''b''\<rparr>"
  have "named ascii_unicode ''subject'' ?b" by code_simp
  moreover have "filter (named ascii_unicode ''subject'') [?a] = [?a]" by code_simp
  ultimately show ?thesis
    using changeHeader_exact [of "\<lparr>pm_Headers = [?a, ?b], pm_Body = []\<rparr>" "[?a]" ?b "[]" ascii_unicode
        "''subject''" 2 "''new''"] by simp
qed

end
