(* ===== verification/Byte_Store.thy ===== *)
theory Byte_Store
  imports Go_Errors
begin

text \<open>
  \<^verbatim>\<open>io.Copy\<close>, and the contract of what it copies into: an \<^verbatim>\<open>io.Writer\<close> that appends, and a store that
  gives back what was appended. The locales state the contract over any state and any world; the
  spool is the program's implementation of it.
\<close>

text \<open>\<^verbatim>\<open>io.Copy\<close> from a reader that delivers chunks and then ends or fails: a failed or short write stops
  it, and so does the reader's own error.\<close>

fun io_Copy ::
  "(bytes \<Rightarrow> 's \<Rightarrow> 'w \<Rightarrow> (nat \<times> go_error option) \<times> 's \<times> 'w) \<Rightarrow> bytes list \<Rightarrow> go_error option \<Rightarrow>
   's \<Rightarrow> 'w \<Rightarrow> go_error option \<times> 's \<times> 'w" where
  "io_Copy put [] rerr s w = (rerr, s, w)"
| "io_Copy put (c # cs) rerr s w =
     (case put c s w of
        ((n, Some err), s, w) \<Rightarrow> (Some err, s, w)
      | ((n, None), s, w) \<Rightarrow>
          if n \<noteq> length c then (Some (Plain ''short write''), s, w) else io_Copy put cs rerr s w)"

locale byte_sink =
  fixes ok :: "'s \<Rightarrow> bool"
    and content :: "'s \<Rightarrow> bytes"
    and put :: "bytes \<Rightarrow> 's \<Rightarrow> 'w \<Rightarrow> (nat \<times> go_error option) \<times> 's \<times> 'w"
  assumes put_law:
    "ok s \<Longrightarrow> put p s w = ((n, err), s', w') \<Longrightarrow>
     ok s' \<and> n \<le> length p \<and> (err = None \<longrightarrow> n = length p) \<and> content s' = content s @ take n p"
begin

text \<open>What a copy leaves in the sink: everything when it reports success, a prefix otherwise.\<close>

lemma copy_law:
  "ok s \<Longrightarrow> io_Copy put cs rerr s w = (err, s', w') \<Longrightarrow>
   ok s' \<and> (\<exists>k. content s' = content s @ take k (concat cs)) \<and>
   (err = None \<longrightarrow> rerr = None \<and> content s' = content s @ concat cs)"
proof (induction cs arbitrary: s w)
  case Nil
  then show ?case by auto
next
  case (Cons c cs)
  obtain n e s1 w1 where put: "put c s w = ((n, e), s1, w1)" by (metis surj_pair)
  note law = put_law [OF Cons.prems(1) put]
  show ?case
  proof (cases e)
    case None
    with law have s1: "ok s1" "n = length c" "content s1 = content s @ c" by auto
    then have "io_Copy put cs rerr s1 w1 = (err, s', w')" using Cons.prems(2) put None by simp
    from Cons.IH [OF s1(1) this] obtain k where
      "ok s'" "content s' = content s1 @ take k (concat cs)"
      "err = None \<longrightarrow> rerr = None \<and> content s' = content s1 @ concat cs" by blast
    moreover have "take (length c + k) (concat (c # cs)) = c @ take k (concat cs)" by simp
    ultimately show ?thesis using s1 by (metis append.assoc concat.simps(2))
  next
    case (Some x)
    then have "err = Some x" "s' = s1" using Cons.prems(2) put by auto
    moreover have "take n c = take n (concat (c # cs))" using law by simp
    ultimately show ?thesis using law by (metis option.distinct(1))
  qed
qed

end

locale byte_store = byte_sink ok content put
  for ok :: "'s \<Rightarrow> bool" and content :: "'s \<Rightarrow> bytes"
    and put :: "bytes \<Rightarrow> 's \<Rightarrow> 'w \<Rightarrow> (nat \<times> go_error option) \<times> 's \<times> 'w" +
  fixes load :: "'s \<Rightarrow> 'w \<Rightarrow> bytes result \<times> 's \<times> 'w"
  assumes load_law:
    "ok s \<Longrightarrow> load s w = (Inr d, s', w') \<Longrightarrow> d = content s \<and> content s' = content s"
begin

text \<open>What was copied in, in whatever chunks, is what is read back.\<close>

lemma copy_then_load:
  "ok s \<Longrightarrow> io_Copy put cs rerr s w = (None, s', w') \<Longrightarrow> load s' w'' = (Inr d, s'', w''') \<Longrightarrow>
   d = content s @ concat cs"
  using copy_law load_law by blast

end

end
