(* ===== verification/Spool.thy ===== *)
theory Spool
  imports Byte_Store Go_Strings Config
begin

text \<open>
  \<^verbatim>\<open>internal/gateway/spool.go\<close>: the buffer that holds one message, on the heap while it is small and in
  an unlinked temporary file past a threshold. The operating system is an argument: a record of the
  calls the code makes, each of which moves a world of type \<open>'w\<close> on and may fail. What the code
  relies on is \<open>os_laws\<close>: a write that reports no error took everything, a read that reports no
  error delivered everything, and neither invents bytes.
\<close>


section \<open>The operating system\<close>

record 'w os_env =
  os_TempDir :: string
  os_CreateTemp :: "string \<Rightarrow> string \<Rightarrow> 'w \<Rightarrow> go_error option \<times> 'w"
  os_Remove :: "'w \<Rightarrow> go_error option \<times> 'w"
  file_Write :: "bytes \<Rightarrow> 'w \<Rightarrow> (nat \<times> go_error option) \<times> 'w"
  file_Seek :: "nat \<Rightarrow> 'w \<Rightarrow> go_error option \<times> 'w"
  file_Read :: "bytes \<Rightarrow> 'w \<Rightarrow> (bytes list \<times> go_error option) \<times> 'w"
  file_Truncate :: "'w \<Rightarrow> go_error option \<times> 'w"
  file_Close :: "'w \<Rightarrow> 'w"

definition os_laws :: "('w, 'm) os_env_scheme \<Rightarrow> bool" where
  "os_laws E \<longleftrightarrow>
     (\<forall>p w n err w'. file_Write E p w = ((n, err), w') \<longrightarrow>
        n \<le> length p \<and> (err = None \<longrightarrow> n = length p)) \<and>
     (\<forall>d w chunks err w'. file_Read E d w = ((chunks, err), w') \<longrightarrow>
        prefix (concat chunks) d \<and> (err = None \<longrightarrow> concat chunks = d))"

lemma file_WriteD:
  "os_laws E \<Longrightarrow> file_Write E p w = ((n, err), w') \<Longrightarrow> n \<le> length p \<and> (err = None \<longrightarrow> n = length p)"
  unfolding os_laws_def by blast

lemma file_ReadD:
  "os_laws E \<Longrightarrow> file_Read E d w = ((chunks, err), w') \<Longrightarrow>
   prefix (concat chunks) d \<and> (err = None \<longrightarrow> concat chunks = d)"
  unfolding os_laws_def by blast


section \<open>The spool\<close>

record spool_file =
  sf_data :: bytes
  sf_pos :: nat

text \<open>\<open>sp_gen\<close> is not in the source: it tells the objects apart that hold one message's body one after the
  other, which matters where a deferred \<^verbatim>\<open>Close\<close> is on the first of them.\<close>

record spool =
  sp_dir :: string
  sp_threshold :: int
  sp_buf :: bytes
  sp_file :: "spool_file option"
  sp_n :: nat
  sp_gen :: nat

definition spoolFilePrefix :: string where "spoolFilePrefix = ''mailout-body-''"

definition new_spool :: "string \<Rightarrow> int \<Rightarrow> spool" where
  "new_spool dir threshold =
     \<lparr>sp_dir = dir, sp_threshold = threshold, sp_buf = [], sp_file = None, sp_n = 0,
      sp_gen = 0\<rparr>"

definition newSpoolFactory :: "Limits \<Rightarrow> unit \<Rightarrow> spool" where
  "newSpoolFactory limits _ = new_spool (lim_SpoolDir limits) (lim_SpoolThreshold limits)"

text \<open>Writing to a file at its position, over what is there.\<close>

definition write_at :: "nat \<Rightarrow> bytes \<Rightarrow> bytes \<Rightarrow> bytes" where
  "write_at pos p d = take pos d @ p @ drop (pos + length p) d"

definition fwrite ::
  "('w, 'm) os_env_scheme \<Rightarrow> bytes \<Rightarrow> spool_file \<Rightarrow> 'w \<Rightarrow> (nat \<times> go_error option) \<times> spool_file \<times> 'w" where
  "fwrite E p f w =
     (case file_Write E p w of
        ((n, err), w) \<Rightarrow>
          ((n, err), f\<lparr>sf_data := write_at (sf_pos f) (take n p) (sf_data f), sf_pos := sf_pos f + n\<rparr>, w))"

definition spoolDir :: "('w, 'm) os_env_scheme \<Rightarrow> spool \<Rightarrow> string" where
  "spoolDir E s = (if sp_dir s = [] then os_TempDir E else sp_dir s)"

definition overflow ::
  "('w, 'm) os_env_scheme \<Rightarrow> spool \<Rightarrow> 'w \<Rightarrow> go_error option \<times> spool \<times> 'w" where
  "overflow E s w =
     (case os_CreateTemp E (sp_dir s) (spoolFilePrefix @ ''*'') w of
        (Some err, w) \<Rightarrow> (Some (Wrap (''spool to '' @ spoolDir E s) err), s, w)
      | (None, w) \<Rightarrow>
        (case os_Remove E w of
           (Some err, w) \<Rightarrow> (Some (Wrap ''unlink spool file'' err), s, file_Close E w)
         | (None, w) \<Rightarrow>
           (case fwrite E (sp_buf s) \<lparr>sf_data = [], sf_pos = 0\<rparr> w of
              ((_, Some err), _, w) \<Rightarrow> (Some (Wrap ''move body to spool'' err), s, file_Close E w)
            | ((_, None), f, w) \<Rightarrow> (None, s\<lparr>sp_buf := [], sp_file := Some f\<rparr>, w))))"

definition Write ::
  "('w, 'm) os_env_scheme \<Rightarrow> bytes \<Rightarrow> spool \<Rightarrow> 'w \<Rightarrow> (nat \<times> go_error option) \<times> spool \<times> 'w" where
  "Write E p s w =
     (case (if sp_file s = None \<and> int (sp_n s) + int (length p) > sp_threshold s
            then overflow E s w else (None, s, w)) of
        (Some err, s, w) \<Rightarrow> ((0, Some err), s, w)
      | (None, s, w) \<Rightarrow>
        (case sp_file s of
           Some f \<Rightarrow>
             (case fwrite E p f w of
                ((written, err), f, w) \<Rightarrow>
                  ((written, err), s\<lparr>sp_file := Some f, sp_n := sp_n s + written\<rparr>, w))
         | None \<Rightarrow>
             ((length p, None), s\<lparr>sp_buf := sp_buf s @ p, sp_n := sp_n s + length p\<rparr>, w)))"

definition sibling :: "spool \<Rightarrow> spool" where
  "sibling s = (new_spool (sp_dir s) (sp_threshold s))\<lparr>sp_gen := Suc (sp_gen s)\<rparr>"

definition spooled :: "spool \<Rightarrow> bool" where
  "spooled s \<longleftrightarrow> sp_file s \<noteq> None"

definition spool_Len :: "spool \<Rightarrow> nat" where
  "spool_Len s = sp_n s"

text \<open>A reader is the bytes it will deliver. On the heap it delivers them; in a file it starts at the
  position the seek left and \<open>consume\<close> says what the reads give and where they leave the position.\<close>

definition seek :: "('w, 'm) os_env_scheme \<Rightarrow> string \<Rightarrow> nat \<Rightarrow> spool \<Rightarrow> spool_file \<Rightarrow> 'w \<Rightarrow>
    bytes result \<times> spool \<times> 'w" where
  "seek E what offset s f w =
     (case file_Seek E offset w of
        (Some err, w) \<Rightarrow> (Inl (Wrap what err), s, w)
      | (None, w) \<Rightarrow> (Inr (drop offset (sf_data f)), s\<lparr>sp_file := Some (f\<lparr>sf_pos := offset\<rparr>)\<rparr>, w))"

definition Reader :: "('w, 'm) os_env_scheme \<Rightarrow> spool \<Rightarrow> 'w \<Rightarrow> bytes result \<times> spool \<times> 'w" where
  "Reader E s w =
     (case sp_file s of
        None \<Rightarrow> (Inr (sp_buf s), s, w)
      | Some f \<Rightarrow> seek E ''rewind spool'' 0 s f w)"

text \<open>Slicing past the end panics; that is the error branch on the heap.\<close>

definition ReaderAt ::
  "('w, 'm) os_env_scheme \<Rightarrow> nat \<Rightarrow> spool \<Rightarrow> 'w \<Rightarrow> bytes result \<times> spool \<times> 'w" where
  "ReaderAt E offset s w =
     (let offset = (if offset > sp_n s then sp_n s else offset) in
      case sp_file s of
        None \<Rightarrow>
          if offset > length (sp_buf s) then (Inl (Plain ''panic: slice bounds out of range''), s, w)
          else (Inr (drop offset (sp_buf s)), s, w)
      | Some f \<Rightarrow> seek E ''seek spool'' offset s f w)"

definition consume ::
  "('w, 'm) os_env_scheme \<Rightarrow> bytes \<Rightarrow> spool \<Rightarrow> 'w \<Rightarrow> (bytes list \<times> go_error option) \<times> spool \<times> 'w" where
  "consume E data s w =
     (case sp_file s of
        None \<Rightarrow> (([data], None), s, w)
      | Some f \<Rightarrow>
          (case file_Read E data w of
             ((chunks, err), w) \<Rightarrow>
               ((chunks, err), s\<lparr>sp_file := Some (f\<lparr>sf_pos := sf_pos f + length (concat chunks)\<rparr>)\<rparr>, w)))"

definition spool_Bytes :: "('w, 'm) os_env_scheme \<Rightarrow> spool \<Rightarrow> 'w \<Rightarrow> bytes result \<times> spool \<times> 'w" where
  "spool_Bytes E s w =
     (case sp_file s of
        None \<Rightarrow> (Inr (sp_buf s), s, w)
      | Some _ \<Rightarrow>
        (case Reader E s w of
           (Inl err, s, w) \<Rightarrow> (Inl err, s, w)
         | (Inr data, s, w) \<Rightarrow>
           (case consume E data s w of
              ((chunks, Some err), s, w) \<Rightarrow> (Inl err, s, w)
            | ((chunks, None), s, w) \<Rightarrow> (Inr (concat chunks), s, w))))"

definition maxHeaderBytes :: nat where "maxHeaderBytes = 1024 * 1024"

text \<open>The separators, in the order they are looked for, and the block up to the first one found.\<close>

definition end_of_header :: "bytes \<Rightarrow> bytes \<times> bool" where
  "end_of_header block =
     (case index_sub (CRLF @ CRLF) block of
        Some i \<Rightarrow> (take (i + 4) block, True)
      | None \<Rightarrow>
        (case index_sub [LF, LF] block of
           Some i \<Rightarrow> (take (i + 2) block, True)
         | None \<Rightarrow> (block, False)))"

definition headerBlock ::
  "('w, 'm) os_env_scheme \<Rightarrow> spool \<Rightarrow> 'w \<Rightarrow> (bytes \<times> bool) result \<times> spool \<times> 'w" where
  "headerBlock E s w =
     (case Reader E s w of
        (Inl err, s, w) \<Rightarrow> (Inl err, s, w)
      | (Inr data, s, w) \<Rightarrow>
        (case consume E (take maxHeaderBytes data) s w of
           ((chunks, Some err), s, w) \<Rightarrow> (Inl err, s, w)
         | ((chunks, None), s, w) \<Rightarrow> (Inr (end_of_header (concat chunks)), s, w)))"

definition spool_Reset ::
  "('w, 'm) os_env_scheme \<Rightarrow> bytes \<Rightarrow> spool \<Rightarrow> 'w \<Rightarrow> go_error option \<times> spool \<times> 'w" where
  "spool_Reset E data s w =
     (case sp_file s of
        Some f \<Rightarrow>
          (case file_Truncate E w of
             (Some err, w) \<Rightarrow> (Some (Wrap ''truncate spool'' err), s, w)
           | (None, w) \<Rightarrow>
             (let s = s\<lparr>sp_file := Some (f\<lparr>sf_data := []\<rparr>)\<rparr> in
              case file_Seek E 0 w of
                (Some err, w) \<Rightarrow> (Some (Wrap ''rewind spool'' err), s, w)
              | (None, w) \<Rightarrow>
                (case Write E data (s\<lparr>sp_file := Some \<lparr>sf_data = [], sf_pos = 0\<rparr>, sp_n := 0\<rparr>) w of
                   ((_, err), s, w) \<Rightarrow> (err, s, w))))
      | None \<Rightarrow>
          (case Write E data (s\<lparr>sp_buf := [], sp_n := 0\<rparr>) w of ((_, err), s, w) \<Rightarrow> (err, s, w)))"

definition spool_Close :: "('w, 'm) os_env_scheme \<Rightarrow> spool \<Rightarrow> 'w \<Rightarrow> spool \<times> 'w" where
  "spool_Close E s w =
     (case sp_file s of
        None \<Rightarrow> (s\<lparr>sp_buf := []\<rparr>, w)
      | Some _ \<Rightarrow> (s\<lparr>sp_buf := [], sp_file := None\<rparr>, file_Close E w))"

text \<open>\<^verbatim>\<open>SweepSpool\<close>: \<open>readDir\<close> gives a directory's entries, names with a directory flag, and
  \<open>removable\<close> says which removals the system grants; the result is the directory swept and the names
  removed from it.\<close>

definition SweepSpool ::
  "string \<Rightarrow> (string \<Rightarrow> (string \<times> bool) list option) \<Rightarrow> (string \<Rightarrow> bool) \<Rightarrow> string \<Rightarrow> string \<times> string list" where
  "SweepSpool tempDir readDir removable dir =
     (let dir = (if dir = [] then tempDir else dir) in
      case readDir dir of
        None \<Rightarrow> (dir, [])
      | Some es \<Rightarrow>
          (dir, filter removable
            (map fst (filter (\<lambda>(name, isDir). \<not> (isDir \<or> \<not> prefix spoolFilePrefix name)) es))))"

definition probeSpool :: "('w, 'm) os_env_scheme \<Rightarrow> string \<Rightarrow> 'w \<Rightarrow> go_error option \<times> 'w" where
  "probeSpool E dir w =
     (case os_CreateTemp E dir (spoolFilePrefix @ ''probe-*'') w of
        (Some err, w) \<Rightarrow>
          (let target = (if dir = [] then os_TempDir E else dir) in
           (Some (Wrap (''spool directory '' @ target @ '' is not writable'') err), w))
      | (None, w) \<Rightarrow> os_Remove E (file_Close E w))"


section \<open>What a spool holds\<close>

definition content :: "spool \<Rightarrow> bytes" where
  "content s = (case sp_file s of None \<Rightarrow> sp_buf s | Some f \<Rightarrow> sf_data f)"

text \<open>The count is right, the heap is bounded by the threshold, and a spooled body keeps nothing on the
  heap.\<close>

definition spool_inv :: "spool \<Rightarrow> bool" where
  "spool_inv s \<longleftrightarrow>
     sp_n s = length (content s) \<and>
     (case sp_file s of
        None \<Rightarrow> sp_n s = 0 \<or> int (sp_n s) \<le> sp_threshold s
      | Some f \<Rightarrow> sp_buf s = [])"

text \<open>The file's position is at its end, so that the next write appends.\<close>

definition at_end :: "spool \<Rightarrow> bool" where
  "at_end s \<longleftrightarrow> (case sp_file s of None \<Rightarrow> True | Some f \<Rightarrow> sf_pos f = length (sf_data f))"

definition spool_ok :: "('w, 'm) os_env_scheme \<Rightarrow> spool \<Rightarrow> bool" where
  "spool_ok E s \<longleftrightarrow> os_laws E \<and> spool_inv s \<and> at_end s"

lemma content_new [simp]: "content (new_spool dir t) = []"
  by (simp add: content_def new_spool_def)

lemma content_gen [simp]: "content (s\<lparr>sp_gen := g\<rparr>) = content s"
  by (simp add: content_def split: option.split)

lemma spool_ok_gen [simp]: "spool_ok E (s\<lparr>sp_gen := g\<rparr>) = spool_ok E s"
  by (simp add: spool_ok_def spool_inv_def at_end_def split: option.split)

lemma new_spool_ok: "os_laws E \<Longrightarrow> spool_ok E (new_spool dir t)"
  by (simp add: spool_ok_def spool_inv_def at_end_def new_spool_def content_def)

lemma write_at_end: "write_at (length d) p d = d @ p"
  by (simp add: write_at_def)

lemma heap_bound: "spool_inv s \<Longrightarrow> length (sp_buf s) = 0 \<or> int (length (sp_buf s)) \<le> sp_threshold s"
  by (auto simp: spool_inv_def content_def split: option.splits)

lemma overflow_law:
  assumes "spool_ok E s" "overflow E s w = (err, s', w')" "sp_file s = None"
  shows "spool_ok E s' \<and> content s' = content s \<and> sp_n s' = sp_n s \<and>
         (if err = None then sp_file s' \<noteq> None else s' = s)"
proof (cases err)
  case (Some e)
  then have "s' = s" using assms(2)
    by (auto simp: overflow_def split: prod.splits option.splits)
  then show ?thesis using assms Some by simp
next
  case None
  with assms(2) obtain w1 n f where f: "fwrite E (sp_buf s) \<lparr>sf_data = [], sf_pos = 0\<rparr> w1 = ((n, None), f, w')"
    "s' = s\<lparr>sp_buf := [], sp_file := Some f\<rparr>"
    by (auto simp: overflow_def split: prod.splits option.splits)
  then have "n = length (sp_buf s)" "f = \<lparr>sf_data = sp_buf s, sf_pos = n\<rparr>"
    using assms(1) file_WriteD [of E "sp_buf s" w1 n None w']
    by (auto simp: fwrite_def write_at_def spool_ok_def split: prod.splits)
  then show ?thesis
    using assms(1,3) f(2) None by (simp add: spool_ok_def spool_inv_def at_end_def content_def)
qed

lemma fwrite_law:
  assumes "os_laws E" "fwrite E p f w = ((n, err), f', w')" "sf_pos f = length (sf_data f)"
  shows "n \<le> length p \<and> (err = None \<longrightarrow> n = length p) \<and>
         f' = \<lparr>sf_data = sf_data f @ take n p, sf_pos = length (sf_data f) + n\<rparr>"
  using assms file_WriteD [OF assms(1), of p w]
  by (cases f) (auto simp: fwrite_def write_at_end split: prod.splits)

lemma Write_file:
  assumes "spool_ok E s" "sp_file s = Some f" "Write E p s w = ((n, err), s', w')"
  shows "spool_ok E s' \<and> n \<le> length p \<and> (err = None \<longrightarrow> n = length p) \<and>
         content s' = content s @ take n p"
proof -
  obtain f' where f: "fwrite E p f w = ((n, err), f', w')" "s' = s\<lparr>sp_file := Some f', sp_n := sp_n s + n\<rparr>"
    using assms(2,3) by (auto simp: Write_def split: prod.splits)
  have "sf_pos f = length (sf_data f)" "os_laws E" using assms(1,2) by (simp_all add: spool_ok_def at_end_def)
  from fwrite_law [OF this(2) f(1) this(1)] show ?thesis
    using assms(1,2) f(2) by (simp add: spool_ok_def spool_inv_def at_end_def content_def)
qed

lemma Write_heap:
  assumes "spool_ok E s" "sp_file s = None" "\<not> int (sp_n s) + int (length p) > sp_threshold s"
    and "Write E p s w = ((n, err), s', w')"
  shows "spool_ok E s' \<and> n \<le> length p \<and> (err = None \<longrightarrow> n = length p) \<and>
         content s' = content s @ take n p"
  using assms by (auto simp: Write_def spool_ok_def spool_inv_def at_end_def content_def)

lemma Write_law:
  assumes "spool_ok E s" "Write E p s w = ((n, err), s', w')"
  shows "spool_ok E s' \<and> n \<le> length p \<and> (err = None \<longrightarrow> n = length p) \<and>
         content s' = content s @ take n p"
proof -
  consider (disk) f where "sp_file s = Some f"
    | (mem) "sp_file s = None" "\<not> int (sp_n s) + int (length p) > sp_threshold s"
    | (grow) "sp_file s = None" "int (sp_n s) + int (length p) > sp_threshold s"
    by (cases "sp_file s") auto
  then show ?thesis
  proof cases
    case disk
    then show ?thesis by (rule Write_file [OF assms(1) _ assms(2)])
  next
    case mem
    then show ?thesis by (rule Write_heap [OF assms(1) _ _ assms(2)])
  next
    case grow
    obtain e s0 w0 where ov: "overflow E s w = (e, s0, w0)" by (metis surj_pair)
    note law = overflow_law [OF assms(1) ov grow(1)]
    show ?thesis
    proof (cases e)
      case None
      then obtain f where f: "sp_file s0 = Some f" "spool_ok E s0" "content s0 = content s"
        using law by auto
      have "Write E p s w = Write E p s0 w0" using None ov grow f(1) by (simp add: Write_def)
      with assms(2) have "Write E p s0 w0 = ((n, err), s', w')" by simp
      from Write_file [OF f(2,1) this] f(3) show ?thesis by simp
    next
      case (Some x)
      then have "n = 0" "err = Some x" "s' = s" using assms(2) ov grow law by (auto simp: Write_def)
      then show ?thesis using assms(1) by simp
    qed
  qed
qed

text \<open>Reading leaves the body alone, and delivers it when nothing fails.\<close>

lemma Reader_law:
  "Reader E s w = (r, s', w') \<Longrightarrow>
   content s' = content s \<and> sp_n s' = sp_n s \<and> sp_buf s' = sp_buf s \<and> sp_threshold s' = sp_threshold s \<and>
   sp_dir s' = sp_dir s \<and> (sp_file s' = None \<longleftrightarrow> sp_file s = None) \<and>
   (\<forall>d. r = Inr d \<longrightarrow> d = content s \<and> (\<forall>f. sp_file s' = Some f \<longrightarrow> sf_pos f = 0))"
  by (auto simp: Reader_def seek_def content_def split: option.splits prod.splits)

lemma consume_law:
  assumes "os_laws E" "consume E d s w = ((chunks, err), s', w')"
  shows "content s' = content s \<and> sp_n s' = sp_n s \<and> sp_buf s' = sp_buf s \<and>
         sp_threshold s' = sp_threshold s \<and> sp_dir s' = sp_dir s \<and>
         (sp_file s' = None \<longleftrightarrow> sp_file s = None) \<and>
         prefix (concat chunks) d \<and> (err = None \<longrightarrow> concat chunks = d)"
  using assms(2) file_ReadD [OF assms(1), of d w]
  by (auto simp: consume_def content_def split: option.splits prod.splits)

lemma same_content_inv:
  "spool_inv s \<Longrightarrow> content s' = content s \<Longrightarrow> sp_n s' = sp_n s \<Longrightarrow> sp_buf s' = sp_buf s \<Longrightarrow>
   sp_threshold s' = sp_threshold s \<Longrightarrow> (sp_file s' = None \<longleftrightarrow> sp_file s = None) \<Longrightarrow> spool_inv s'"
  by (auto simp: spool_inv_def split: option.splits)

lemma spool_Bytes_law:
  assumes "spool_ok E s" "spool_Bytes E s w = (Inr d, s', w')"
  shows "d = content s \<and> content s' = content s"
proof (cases "sp_file s")
  case None
  then show ?thesis using assms(2) by (auto simp: spool_Bytes_def content_def)
next
  case (Some f)
  then obtain d0 s1 w1 chunks where r: "Reader E s w = (Inr d0, s1, w1)"
    and c: "consume E d0 s1 w1 = ((chunks, None), s', w')" "d = concat chunks"
    using assms(2) by (auto simp: spool_Bytes_def split: prod.splits sum.splits option.splits)
  then show ?thesis
    using Reader_law [OF r] consume_law [of E d0 s1 w1 chunks None s' w'] assms(1)
    by (simp add: spool_ok_def)
qed

text \<open>The spool is a byte store: clients use the copy lemmas through these names.\<close>

interpretation spool_store: byte_store "spool_ok E" content "Write E" "spool_Bytes E" for E
  by unfold_locales (fact Write_law, fact spool_Bytes_law)

text \<open>The storage decision never changes.\<close>

lemma overflow_frame:
  "overflow E s w = (err, s', w') \<Longrightarrow> sp_threshold s' = sp_threshold s \<and> sp_dir s' = sp_dir s"
  by (auto simp: overflow_def split: prod.splits option.splits)

lemma Write_frame:
  "Write E p s w = (r, s', w') \<Longrightarrow> sp_threshold s' = sp_threshold s \<and> sp_dir s' = sp_dir s"
  by (auto simp: Write_def dest: overflow_frame split: prod.splits option.splits if_splits)

lemma io_Copy_frame:
  "io_Copy (Write E) cs rerr s w = (err, s', w') \<Longrightarrow>
   sp_threshold s' = sp_threshold s \<and> sp_dir s' = sp_dir s"
proof (induction cs arbitrary: s w)
  case (Cons c cs)
  obtain n e s1 w1 where "Write E c s w = ((n, e), s1, w1)" by (metis surj_pair)
  with Cons Write_frame [OF this] show ?case by (auto split: option.splits if_splits)
qed simp

text \<open>A system on which nothing fails.\<close>

definition os_healthy :: "('w, 'm) os_env_scheme \<Rightarrow> bool" where
  "os_healthy E \<longleftrightarrow>
     (\<forall>d p w. fst (os_CreateTemp E d p w) = None) \<and> (\<forall>w. fst (os_Remove E w) = None) \<and>
     (\<forall>p w. snd (fst (file_Write E p w)) = None) \<and> (\<forall>n w. fst (file_Seek E n w) = None) \<and>
     (\<forall>d w. snd (fst (file_Read E d w)) = None)"

lemma overflow_healthy: "os_healthy E \<Longrightarrow> fst (overflow E s w) = None"
  unfolding os_healthy_def
  by (auto simp: overflow_def fwrite_def split: prod.splits option.splits) (metis fst_conv snd_conv option.distinct(1))+

lemma fwrite_healthy: "os_healthy E \<Longrightarrow> snd (fst (fwrite E p f w)) = None"
  unfolding os_healthy_def by (auto simp: fwrite_def split: prod.splits) (metis fst_conv snd_conv)

lemma Write_healthy:
  assumes "os_healthy E"
  shows "snd (fst (Write E p s w)) = None"
  using overflow_healthy [OF assms, of s w] fwrite_healthy [OF assms, of p]
  by (auto simp: Write_def split: prod.splits option.splits) (metis fst_conv snd_conv)+

lemma io_Copy_healthy:
  assumes "os_healthy E" "spool_ok E s"
  shows "fst (io_Copy (Write E) cs None s w) = None"
  using assms(2)
proof (induction cs arbitrary: s w)
  case (Cons c cs)
  obtain n e s1 w1 where wr: "Write E c s w = ((n, e), s1, w1)" by (metis surj_pair)
  moreover have "e = None" using Write_healthy [OF assms(1), of c s w] wr by simp
  moreover have "n = length c" "spool_ok E s1"
    using Write_law [OF Cons.prems wr] \<open>e = None\<close> by simp_all
  ultimately show ?case using Cons.IH by simp
qed simp

lemma spool_Bytes_healthy:
  assumes "os_healthy E"
  shows "\<exists>d s' w'. spool_Bytes E s w = (Inr d, s', w')"
proof -
  have seek: "\<exists>w'. file_Seek E n w = (None, w')" for n w
    using assms by (metis os_healthy_def fst_conv surj_pair)
  have read: "\<exists>c w'. file_Read E d w = ((c, None), w')" for d w
    using assms by (metis os_healthy_def fst_conv snd_conv surj_pair)
  show ?thesis
  proof (cases "sp_file s")
    case None
    then show ?thesis by (simp add: spool_Bytes_def)
  next
    case (Some f)
    obtain w1 where "file_Seek E 0 w = (None, w1)" using seek by blast
    moreover obtain c w2 where "file_Read E (sf_data f) w1 = ((c, None), w2)" using read by blast
    ultimately show ?thesis using Some by (simp add: spool_Bytes_def Reader_def seek_def consume_def)
  qed
qed

text \<open>The header block.\<close>

lemma headerBlock_law:
  assumes "os_laws E" "headerBlock E s w = (r, s', w')"
  shows "content s' = content s \<and> sp_n s' = sp_n s \<and> sp_buf s' = sp_buf s \<and>
         sp_threshold s' = sp_threshold s \<and> sp_dir s' = sp_dir s \<and>
         (sp_file s' = None \<longleftrightarrow> sp_file s = None) \<and>
         (\<forall>b. r = Inr b \<longrightarrow> b = end_of_header (take maxHeaderBytes (content s)))"
proof -
  obtain r0 s1 w1 where rd: "Reader E s w = (r0, s1, w1)" by (metis surj_pair)
  show ?thesis
  proof (cases r0)
    case (Inl e)
    then show ?thesis using assms(2) rd Reader_law [OF rd] by (auto simp: headerBlock_def)
  next
    case (Inr d)
    obtain c e s2 w2 where cs: "consume E (take maxHeaderBytes d) s1 w1 = ((c, e), s2, w2)"
      by (metis surj_pair)
    then show ?thesis
      using assms(2) rd Inr Reader_law [OF rd] consume_law [OF assms(1) cs]
      by (auto simp: headerBlock_def split: option.splits)
  qed
qed

definition blank_at :: "bytes \<Rightarrow> bytes \<Rightarrow> nat \<Rightarrow> bool" where
  "blank_at sep block i \<longleftrightarrow> prefix sep (drop i block)"

lemma index_sub_prefix: "index_sub p s = Some i \<Longrightarrow> prefix p (drop i s)"
  using index_sub_Some [of p s i] by (metis take_is_prefix)

lemma end_of_header_False:
  "snd (end_of_header block) = False \<Longrightarrow>
   fst (end_of_header block) = block \<and> (\<forall>i. \<not> blank_at (CRLF @ CRLF) block i \<and> \<not> blank_at [LF, LF] block i)"
  unfolding end_of_header_def blank_at_def
  using index_sub_None [of "CRLF @ CRLF" block] index_sub_None [of "[LF, LF]" block]
  by (auto split: option.splits)

lemma end_of_header_True:
  assumes "snd (end_of_header block)"
  obtains (crlf) i where "blank_at (CRLF @ CRLF) block i" "\<forall>j < i. \<not> blank_at (CRLF @ CRLF) block j"
      "fst (end_of_header block) = take i block @ CRLF @ CRLF"
  | (lf) i where "blank_at [LF, LF] block i" "\<forall>j < i. \<not> blank_at [LF, LF] block j"
      "\<forall>j. \<not> blank_at (CRLF @ CRLF) block j"
      "fst (end_of_header block) = take i block @ [LF, LF]"
proof (cases "index_sub (CRLF @ CRLF) block")
  case (Some i)
  have "take 4 (drop i block) = CRLF @ CRLF" using index_sub_Some [OF Some] by (simp add: numeral_eq_Suc)
  then have "fst (end_of_header block) = take i block @ CRLF @ CRLF"
    using Some by (simp add: end_of_header_def take_add)
  then show ?thesis
    using crlf [of i] index_sub_prefix [OF Some] index_sub_least [OF Some] by (simp add: blank_at_def)
next
  case None
  then obtain i where i: "index_sub [LF, LF] block = Some i"
    using assms by (auto simp: end_of_header_def split: option.splits)
  have "take 2 (drop i block) = [LF, LF]" using index_sub_Some [OF i] by (simp add: numeral_2_eq_2)
  then have "fst (end_of_header block) = take i block @ [LF, LF]"
    using None i take_add [of i 2 block] by (simp add: end_of_header_def)
  then show ?thesis
    using lf [of i] index_sub_prefix [OF i] index_sub_least [OF i] index_sub_None [OF None]
    by (simp add: blank_at_def)
qed

lemma end_of_header_prefix: "prefix (fst (end_of_header block)) block"
  by (auto simp: end_of_header_def take_is_prefix split: option.splits)

text \<open>Where a header block ends, without the search: at the first blank line with carriage returns, or
  else at the first without, or nowhere.\<close>

definition header_end :: "bytes \<Rightarrow> bytes \<Rightarrow> bool \<Rightarrow> bool" where
  "header_end h block terminated \<longleftrightarrow>
     (if terminated
      then \<exists>i. (blank_at (CRLF @ CRLF) h i \<and> (\<forall>j < i. \<not> blank_at (CRLF @ CRLF) h j) \<and>
                block = take i h @ CRLF @ CRLF) \<or>
               ((\<forall>j. \<not> blank_at (CRLF @ CRLF) h j) \<and>
                blank_at [LF, LF] h i \<and> (\<forall>j < i. \<not> blank_at [LF, LF] h j) \<and>
                block = take i h @ [LF, LF])
      else block = h \<and> (\<forall>i. \<not> blank_at (CRLF @ CRLF) h i \<and> \<not> blank_at [LF, LF] h i))"

lemma end_of_header_spec: "header_end h (fst (end_of_header h)) (snd (end_of_header h))"
proof (cases "snd (end_of_header h)")
  case True
  show ?thesis
    unfolding header_end_def using True by (cases rule: end_of_header_True [OF True]) auto
next
  case False
  then show ?thesis using end_of_header_False [of h] by (simp add: header_end_def)
qed


section \<open>Properties\<close>

text \<open>A system that never fails and counts the descriptors it has open.\<close>

definition plain_os :: "nat os_env" where
  "plain_os =
     \<lparr>os_TempDir = ''/tmp'', os_CreateTemp = (\<lambda>_ _ w. (None, Suc w)), os_Remove = (\<lambda>w. (None, w)),
      file_Write = (\<lambda>p w. ((length p, None), w)), file_Seek = (\<lambda>_ w. (None, w)),
      file_Read = (\<lambda>d w. (([d], None), w)), file_Truncate = (\<lambda>w. (None, w)),
      file_Close = (\<lambda>w. w - 1)\<rparr>"

lemma plain_os_laws [simp]: "os_laws plain_os" "os_healthy plain_os"
  by (simp_all add: os_laws_def os_healthy_def plain_os_def)

text \<open>C13: where the body is kept does not show. Copying a message into a fresh spool, in whatever chunks it
  arrives and whatever the threshold, succeeds on a working system and reads back as exactly the
  bytes that came in, with the right length.\<close>

theorem spool_roundtrip:
  assumes "os_laws E" "os_healthy E"
  shows "\<exists>s w'. io_Copy (Write E) chunks None (new_spool dir threshold) w = (None, s, w') \<and>
                spool_Len s = length (concat chunks) \<and>
                (\<exists>s'' w''. spool_Bytes E s w' = (Inr (concat chunks), s'', w''))"
proof -
  note new = new_spool_ok [OF assms(1), of dir threshold]
  obtain s w' where cp: "io_Copy (Write E) chunks None (new_spool dir threshold) w = (None, s, w')"
    using io_Copy_healthy [OF assms(2) new, of chunks w] by (metis fst_conv surj_pair)
  note law = spool_store.copy_law [OF new cp]
  obtain d s'' w'' where rd: "spool_Bytes E s w' = (Inr d, s'', w'')"
    using spool_Bytes_healthy [OF assms(2), of s w'] by blast
  have "d = concat chunks" using spool_store.copy_then_load [OF new cp rd] by simp
  moreover have "spool_Len s = length (concat chunks)"
    using law by (simp add: spool_ok_def spool_inv_def spool_Len_def)
  ultimately show ?thesis using cp rd by blast
qed

theorem spool_roundtrip_witness:
  "\<exists>s w'. io_Copy (Write plain_os) [''abc'', ''defgh''] None (new_spool [] 4) 0 = (None, s, w') \<and>
          spool_Len s = 8 \<and> (\<exists>s'' w''. spool_Bytes plain_os s w' = (Inr ''abcdefgh'', s'', w''))"
proof -
  have "concat [''abc'', ''defgh''] = ''abcdefgh''" "length ''abcdefgh'' = 8" by simp_all
  then show ?thesis
    using spool_roundtrip [OF plain_os_laws, of "[''abc'', ''defgh'']" "[]" 4 0] by metis
qed

text \<open>A body never holds more than the threshold on the heap, whatever is written to it, in whatever
  chunks, and whichever of the system's calls fail on the way.\<close>

theorem spool_heap_bounded:
  assumes "os_laws E" "io_Copy (Write E) chunks rerr (new_spool dir threshold) w = (err, s, w')"
  shows "int (length (sp_buf s)) \<le> max 0 threshold \<and>
         (\<exists>k. content s = take k (concat chunks))"
proof -
  note law = spool_store.copy_law [OF new_spool_ok [OF assms(1), of dir threshold] assms(2)]
  have "sp_threshold s = threshold" using io_Copy_frame [OF assms(2)] by (simp add: new_spool_def)
  then have "int (length (sp_buf s)) \<le> max 0 threshold"
    using law heap_bound [of s] by (auto simp: spool_ok_def)
  then show ?thesis using law by simp
qed

theorem spool_heap_bounded_witness:
  "int (length (sp_buf (fst (snd (io_Copy (Write plain_os) [''abc'', ''defgh''] None (new_spool [] 4) 0))))) \<le> max 0 4"
proof -
  obtain err s w' where "io_Copy (Write plain_os) [''abc'', ''defgh''] None (new_spool [] 4) 0 = (err, s, w')"
    by (metis surj_pair)
  then show ?thesis using spool_heap_bounded [OF plain_os_laws(1)] by fastforce
qed

text \<open>the header block is found where it ends. Reading it leaves the body as it was; an unterminated
  answer means neither kind of blank line occurs in the first megabyte; a terminated one is the
  body up to and including the first blank line with carriage returns, or, when there is none, the
  first without.\<close>

theorem headerBlock_exact:
  assumes "os_laws E" "headerBlock E s w = (Inr (block, terminated), s', w')"
  shows "content s' = content s \<and> prefix block (content s) \<and>
         header_end (take maxHeaderBytes (content s)) block terminated"
proof -
  let ?h = "take maxHeaderBytes (content s)"
  have c: "content s' = content s" and b: "(block, terminated) = end_of_header ?h"
    using headerBlock_law [OF assms] by auto
  have "prefix block (content s)"
    using end_of_header_prefix [of ?h] take_is_prefix prefix_order.trans b by (metis fst_conv)
  then show ?thesis using c end_of_header_spec [of ?h] unfolding b [symmetric] by simp
qed

theorem headerBlock_exact_witness:
  "\<exists>s' w'. headerBlock plain_os (new_spool [] 100\<lparr>sp_buf := ''A: b'' @ CRLF @ CRLF @ ''x'', sp_n := 9\<rparr>) 0 =
             (Inr (''A: b'' @ CRLF @ CRLF, True), s', w') \<and>
           content s' = ''A: b'' @ CRLF @ CRLF @ ''x''"
proof -
  let ?s = "new_spool [] 100\<lparr>sp_buf := ''A: b'' @ CRLF @ CRLF @ ''x'', sp_n := 9\<rparr>"
  have "headerBlock plain_os ?s 0 = (Inr (''A: b'' @ CRLF @ CRLF, True), ?s, 0)" by code_simp
  moreover from headerBlock_exact [OF plain_os_laws(1) this] have "content ?s = content ?s" by blast
  ultimately show ?thesis by (simp add: content_def new_spool_def)
qed

end
