(* ===== verification/Relay.thy ===== *)
theory Relay
  imports Spool
begin

text \<open>
  \<^verbatim>\<open>internal/gateway/relay.go\<close>: handing a message to the upstream. The SMTP client of the go-smtp
  package and the network are arguments, as one more layer of the environment; beside its result
  \<open>send\<close> returns the calls it made on them, in order, each with what it answered. Deadlines are not
  modelled: a call that times out is a call that fails.
\<close>


section \<open>The upstream\<close>

datatype upstream_call =
    Dial bool string
  | StartTLS
  | Hello string
  | AuthPlain string string
  | MailFrom string
  | RcptTo string
  | Data
  | DataWrite bytes
  | DataClose
  | Quit

type_synonym calls = "(upstream_call \<times> go_error option) list"

text \<open>\<open>up_Call\<close> answers every call but \<open>DataWrite\<close>, which reports how much it took.\<close>

record 'w relay_env = "'w os_env" +
  up_Call :: "upstream_call \<Rightarrow> 'w \<Rightarrow> go_error option \<times> 'w"
  up_Write :: "bytes \<Rightarrow> 'w \<Rightarrow> (nat \<times> go_error option) \<times> 'w"
  up_Close :: "'w \<Rightarrow> 'w"

record Message =
  msg_From :: string
  msg_To :: "string list"
  msg_Body :: spool
  msg_Account :: string

record relayer =
  ry_upstream :: Upstream
  ry_heloName :: string

text \<open>\<open>pem_ok\<close> is \<^verbatim>\<open>AppendCertsFromPEM\<close> on an empty pool.\<close>

definition newRelayer :: "(string \<Rightarrow> bool) \<Rightarrow> Config \<Rightarrow> relayer result" where
  "newRelayer pem_ok cfg =
     (let pem = ups_RootCAPEM (cfg_Upstream cfg) in
      if pem \<noteq> [] \<and> \<not> pem_ok pem then Inl (Plain ''upstream.rootCAPEM: no certificate found'')
      else Inr \<lparr>ry_upstream = cfg_Upstream cfg, ry_heloName = cfg_Hostname cfg\<rparr>)"

definition upstreamUnavailable :: go_error where
  "upstreamUnavailable = SMTPErr (smtp_reply 421 (4, 4, 1) ''Upstream server unavailable'')"

definition wrapUpstream :: "string \<Rightarrow> go_error \<Rightarrow> go_error" where
  "wrapUpstream stage err =
     (case errors_As err of
        Some e \<Rightarrow> SMTPErr e
      | None \<Rightarrow> SMTPErr (smtp_reply 451 (4, 4, 2) (''Upstream failure during '' @ stage)))"


section \<open>Delivery\<close>

text \<open>Commands one after the other, each failure wrapped with its own stage.\<close>

fun run_calls ::
  "('w, 'm) relay_env_scheme \<Rightarrow> (string \<times> upstream_call) list \<Rightarrow> 'w \<Rightarrow> go_error option \<times> calls \<times> 'w" where
  "run_calls E [] w = (None, [], w)"
| "run_calls E ((stage, c) # rest) w =
     (case up_Call E c w of
        (Some err, w) \<Rightarrow> (Some (wrapUpstream stage err), [(c, Some err)], w)
      | (None, w) \<Rightarrow>
          (case run_calls E rest w of (r, made, w) \<Rightarrow> (r, (c, None) # made, w)))"

definition dial :: "('w, 'm) relay_env_scheme \<Rightarrow> relayer \<Rightarrow> 'w \<Rightarrow> go_error option \<times> calls \<times> 'w" where
  "dial E r w =
     (let addr = Upstream_Address (ry_upstream r);
          mode = ups_TLS (ry_upstream r);
          d = Dial (mode = TLSModeImplicit) addr
      in case up_Call E d w of
           (Some err, w) \<Rightarrow> (Some upstreamUnavailable, [(d, Some err)], w)
         | (None, w) \<Rightarrow>
             if mode = TLSModeSTARTTLS then
               (case up_Call E StartTLS w of
                  (Some err, w) \<Rightarrow>
                    (Some (wrapUpstream ''STARTTLS'' err), [(d, None), (StartTLS, Some err)], up_Close E w)
                | (None, w) \<Rightarrow> (None, [(d, None), (StartTLS, None)], w))
             else (None, [(d, None)], w))"

text \<open>The envelope, up to the point where the upstream asks for the message.\<close>

definition envelope :: "relayer \<Rightarrow> Message \<Rightarrow> (string \<times> upstream_call) list" where
  "envelope r msg =
     [(''EHLO'', Hello (ry_heloName r))] @
     (if ups_Username (ry_upstream r) \<noteq> []
      then [(''AUTH'', AuthPlain (ups_Username (ry_upstream r)) (ups_Password (ry_upstream r)))]
      else []) @
     [(''MAIL FROM'', MailFrom (msg_From msg))] @
     map (\<lambda>rcpt. (''RCPT TO'', RcptTo rcpt)) (msg_To msg) @
     [(''DATA'', Data)]"

text \<open>\<^verbatim>\<open>io.Copy\<close> to the data writer; the state it threads is the calls made so far.\<close>

definition data_put ::
  "('w, 'm) relay_env_scheme \<Rightarrow> bytes \<Rightarrow> calls \<Rightarrow> 'w \<Rightarrow> (nat \<times> go_error option) \<times> calls \<times> 'w" where
  "data_put E p made w =
     (case up_Write E p w of ((n, err), w) \<Rightarrow> ((n, err), made @ [(DataWrite (take n p), err)], w))"

text \<open>Closing the writer ends the message, on the error paths too, where its answer is dropped.\<close>

definition end_data :: "('w, 'm) relay_env_scheme \<Rightarrow> 'w \<Rightarrow> go_error option \<times> calls \<times> 'w" where
  "end_data E w = (case up_Call E DataClose w of (r, w) \<Rightarrow> (r, [(DataClose, r)], w))"

definition send_body ::
  "('w, 'm) relay_env_scheme \<Rightarrow> spool \<Rightarrow> 'w \<Rightarrow> go_error option \<times> calls \<times> spool \<times> 'w" where
  "send_body E s w =
     (case Reader E s w of
        (Inl err, s, w) \<Rightarrow>
          (case end_data E w of (_, made, w) \<Rightarrow> (Some err, made, s, w))
      | (Inr data, s, w) \<Rightarrow>
        (case consume E data s w of
           ((chunks, rerr), s, w) \<Rightarrow>
             (case io_Copy (data_put E) chunks rerr [] w of
                (Some err, written, w) \<Rightarrow>
                  (case end_data E w of
                     (_, made, w) \<Rightarrow> (Some (wrapUpstream ''DATA write'' err), written @ made, s, w))
              | (None, written, w) \<Rightarrow>
                  (case end_data E w of
                     (Some err, made, w) \<Rightarrow>
                       (Some (wrapUpstream ''DATA close'' err), written @ made, s, w)
                   | (None, made, w) \<Rightarrow>
                       (case up_Call E Quit w of
                          (q, w) \<Rightarrow> (None, written @ made @ [(Quit, q)], s, w))))))"

definition send ::
  "('w, 'm) relay_env_scheme \<Rightarrow> relayer \<Rightarrow> Message \<Rightarrow> 'w \<Rightarrow> go_error option \<times> calls \<times> Message \<times> 'w" where
  "send E r msg w =
     (case dial E r w of
        (Some err, made, w) \<Rightarrow> (Some err, made, msg, w)
      | (None, made, w) \<Rightarrow>
        (case run_calls E (envelope r msg) w of
           (Some err, made', w) \<Rightarrow> (Some err, made @ made', msg, up_Close E w)
         | (None, made', w) \<Rightarrow>
           (case send_body E (msg_Body msg) w of
              (err, made'', s, w) \<Rightarrow>
                (err, made @ made' @ made'', msg\<lparr>msg_Body := s\<rparr>, up_Close E w))))"


section \<open>What was said to the upstream\<close>

definition all_ok :: "calls \<Rightarrow> bool" where
  "all_ok cs \<longleftrightarrow> list_all (\<lambda>(_, r). r = None) cs"

lemma all_ok_simps [simp]:
  "all_ok []" "all_ok ((c, r) # cs) \<longleftrightarrow> r = None \<and> all_ok cs" "all_ok (a @ b) \<longleftrightarrow> all_ok a \<and> all_ok b"
  by (simp_all add: all_ok_def)

lemma run_calls_ok:
  "run_calls E cs w = (None, made, w') \<Longrightarrow> made = map (\<lambda>(_, c). (c, None)) cs"
  by (induction cs arbitrary: w made) (auto split: prod.splits option.splits)

lemma run_calls_err:
  "run_calls E cs w = (Some err, made, w') \<Longrightarrow>
   \<exists>before stage c e. made = map (\<lambda>(_, c). (c, None)) before @ [(c, Some e)] \<and>
     prefix (before @ [(stage, c)]) cs \<and> err = wrapUpstream stage e"
proof (induction cs arbitrary: w made)
  case (Cons a cs)
  obtain stage c where a: "a = (stage, c)" by fastforce
  obtain r w1 where c: "up_Call E c w = (r, w1)" by fastforce
  show ?case
  proof (cases r)
    case (Some e)
    then show ?thesis using Cons.prems a c
      by (intro exI [of _ "[]"] exI [of _ stage] exI [of _ c] exI [of _ e]) simp
  next
    case None
    obtain r2 made2 w2 where rest: "run_calls E cs w1 = (r2, made2, w2)" by (metis surj_pair)
    then have "run_calls E cs w1 = (Some err, made2, w')" "made = (c, None) # made2"
      using Cons.prems a c None by auto
    with Cons.IH [OF this(1)] obtain before stage' c' e where
      "made2 = map (\<lambda>(_, c). (c, None)) before @ [(c', Some e)]" "prefix (before @ [(stage', c')]) cs"
      "err = wrapUpstream stage' e" by blast
    with \<open>made = (c, None) # made2\<close> show ?thesis
      by (intro exI [of _ "a # before"] exI [of _ stage'] exI [of _ c'] exI [of _ e]) (simp add: a)
  qed
qed simp

definition written :: "calls \<Rightarrow> bytes" where
  "written cs = concat (map (\<lambda>(c, _). case c of DataWrite p \<Rightarrow> p | _ \<Rightarrow> []) cs)"

lemma written_simps [simp]:
  "written [] = []" "written (a @ b) = written a @ written b"
  "written ((DataWrite p, r) # cs) = p @ written cs"
  by (simp_all add: written_def)

text \<open>The contract of an \<^verbatim>\<open>io.Writer\<close>, which the data writer is.\<close>

definition up_laws :: "('w, 'm) relay_env_scheme \<Rightarrow> bool" where
  "up_laws E \<longleftrightarrow>
     (\<forall>p w n err w'. up_Write E p w = ((n, err), w') \<longrightarrow> n \<le> length p \<and> (err = None \<longrightarrow> n = length p))"

lemma up_WriteD:
  "up_laws E \<Longrightarrow> up_Write E p w = ((n, err), w') \<Longrightarrow> n \<le> length p \<and> (err = None \<longrightarrow> n = length p)"
  unfolding up_laws_def by blast

interpretation upstream_sink: byte_sink "\<lambda>_. up_laws E" written "data_put E" for E
proof
  fix s p w n err s' w'
  assume E: "up_laws E" and put: "data_put E p s w = ((n, err), s', w')"
  then have w: "up_Write E p w = ((n, err), w')" and s': "s' = s @ [(DataWrite (take n p), err)]"
    by (auto simp: data_put_def split: prod.splits)
  show "up_laws E \<and> n \<le> length p \<and> (err = None \<longrightarrow> n = length p) \<and> written s' = written s @ take n p"
    using E s' up_WriteD [OF E w] by simp
qed

definition is_write :: "upstream_call \<times> go_error option \<Rightarrow> bool" where
  "is_write e \<longleftrightarrow> (case fst e of DataWrite _ \<Rightarrow> True | _ \<Rightarrow> False)"

lemma copy_writes:
  "io_Copy (data_put E) chunks rerr made w = (r, made', w') \<Longrightarrow>
   \<exists>new. made' = made @ new \<and> list_all is_write new \<and> (r = None \<longrightarrow> all_ok new)"
proof (induction chunks arbitrary: made w)
  case (Cons c cs)
  obtain n e w1 where wr: "up_Write E c w = ((n, e), w1)" by (metis surj_pair)
  let ?made = "made @ [(DataWrite (take n c), e)]"
  have put: "data_put E c made w = ((n, e), ?made, w1)" using wr by (simp add: data_put_def)
  have one: "list_all is_write [(DataWrite (take n c), e)]" by (simp add: is_write_def)
  consider x where "e = Some x" | "e = None" "n \<noteq> length c" | "e = None" "n = length c" by blast
  then show ?case
  proof cases
    case 3
    then have "io_Copy (data_put E) cs rerr ?made w1 = (r, made', w')" using Cons.prems put by simp
    from Cons.IH [OF this] obtain new where
      "made' = ?made @ new" "list_all is_write new" "r = None \<longrightarrow> all_ok new" by blast
    then show ?thesis using one 3 by (intro exI [of _ "[(DataWrite (take n c), e)] @ new"]) simp
  qed (use Cons.prems put one in \<open>auto intro!: exI [of _ "[(DataWrite (take n c), e)]"]\<close>)
qed simp

lemma send_body_ok:
  assumes "os_laws E" "up_laws E" "send_body E s w = (None, made, s', w')"
  shows "\<exists>writes q. made = writes @ [(DataClose, None), (Quit, q)] \<and> list_all is_write writes \<and>
           all_ok writes \<and> written writes = content s"
proof -
  obtain r0 s1 w1 where rd: "Reader E s w = (r0, s1, w1)" by (metis surj_pair)
  then obtain d where d: "r0 = Inr d" using assms(3)
    by (cases r0) (auto simp: send_body_def end_data_def split: prod.splits)
  obtain chunks rerr s2 w2 where cs: "consume E d s1 w1 = ((chunks, rerr), s2, w2)" by (metis surj_pair)
  obtain r wr w3 where cp: "io_Copy (data_put E) chunks rerr [] w2 = (r, wr, w3)" by (metis surj_pair)
  have r: "r = None" using assms(3) rd d cs cp
    by (cases r) (auto simp: send_body_def end_data_def split: prod.splits)
  with assms(3) rd d cs cp obtain q where made: "made = wr @ [(DataClose, None), (Quit, q)]"
    by (auto simp: send_body_def end_data_def split: prod.splits option.splits)
  have "rerr = None" "written wr = concat chunks"
    using upstream_sink.copy_law [OF assms(2) cp] r by auto
  moreover have "concat chunks = content s"
    using consume_law [OF assms(1) cs] Reader_law [OF rd] d \<open>rerr = None\<close> by simp
  moreover have "list_all is_write wr \<and> all_ok wr" using copy_writes [OF cp] r by auto
  ultimately show ?thesis using made by auto
qed

lemma dial_ok: "dial E r w = (None, made, w') \<Longrightarrow> all_ok made"
  by (auto simp: dial_def Let_def split: prod.splits option.splits if_splits)

text \<open>What an error from the upstream's side looks like to the client.\<close>

definition upstream_answer :: "calls \<Rightarrow> go_error \<Rightarrow> bool" where
  "upstream_answer made err \<longleftrightarrow>
     (\<exists>e. err = SMTPErr e \<and> (temporary e \<or> (\<exists>c u. (c, Some u) \<in> set made \<and> errors_As u = Some e)))"

lemma wrapUpstream_answer: "(c, Some u) \<in> set made \<Longrightarrow> upstream_answer made (wrapUpstream stage u)"
  by (auto simp: wrapUpstream_def upstream_answer_def temporary_def split: option.split)

lemma upstream_answer_append: "upstream_answer a err \<or> upstream_answer b err \<Longrightarrow> upstream_answer (a @ b) err"
  by (auto simp: upstream_answer_def)

lemma dial_err: "dial E r w = (Some err, made, w') \<Longrightarrow> upstream_answer made err"
  by (auto simp: dial_def Let_def intro: wrapUpstream_answer split: prod.splits option.splits if_splits)
     (auto simp: upstream_answer_def upstreamUnavailable_def temporary_def)

lemma run_calls_answer: "run_calls E cs w = (Some err, made, w') \<Longrightarrow> upstream_answer made err"
  using run_calls_err [of E cs w err made w'] by (auto intro: wrapUpstream_answer)

text \<open>Errors of the file system are not SMTP answers.\<close>

definition os_errors :: "('w, 'm) os_env_scheme \<Rightarrow> bool" where
  "os_errors E \<longleftrightarrow>
     (\<forall>d w chunks e w'. file_Read E d w = ((chunks, Some e), w') \<longrightarrow> errors_As e = None)"

lemma os_errorsD: "os_errors E \<Longrightarrow> file_Read E d w = ((chunks, Some e), w') \<Longrightarrow> errors_As e = None"
  unfolding os_errors_def by blast

lemma consume_errors:
  "os_errors E \<Longrightarrow> consume E d s w = ((chunks, Some e), s', w') \<Longrightarrow> errors_As e = None"
  by (auto simp: consume_def dest: os_errorsD split: option.splits prod.splits)

lemma copy_error:
  "io_Copy (data_put E) chunks rerr made w = (Some e, made', w') \<Longrightarrow>
   (\<exists>c. (c, Some e) \<in> set made') \<or> rerr = Some e \<or> errors_As e = None"
proof (induction chunks arbitrary: made w)
  case (Cons c cs)
  obtain n r w1 where "up_Write E c w = ((n, r), w1)" by (metis surj_pair)
  then show ?case using Cons by (auto simp: data_put_def split: option.splits if_splits)
qed simp

lemma wrapUpstream_plain: "errors_As e = None \<Longrightarrow> upstream_answer made (wrapUpstream stage e)"
  by (simp add: wrapUpstream_def upstream_answer_def temporary_def)

lemma send_body_err:
  assumes "os_errors E" "send_body E s w = (Some err, made, s', w')"
  shows "upstream_answer made err \<or> (\<exists>s1 w1. Reader E s w = (Inl err, s1, w1))"
proof -
  obtain r0 s1 w1 where rd: "Reader E s w = (r0, s1, w1)" by (metis surj_pair)
  show ?thesis
  proof (cases r0)
    case (Inl e)
    then show ?thesis using assms(2) rd by (auto simp: send_body_def end_data_def split: prod.splits)
  next
    case (Inr d)
    obtain chunks rerr s2 w2 where cs: "consume E d s1 w1 = ((chunks, rerr), s2, w2)" by (metis surj_pair)
    obtain r wr w3 where cp: "io_Copy (data_put E) chunks rerr [] w2 = (r, wr, w3)" by (metis surj_pair)
    obtain dc w4 where dc: "up_Call E DataClose w3 = (dc, w4)" by fastforce
    show ?thesis
    proof (cases r)
      case None
      then obtain e where "err = wrapUpstream ''DATA close'' e" "made = wr @ [(DataClose, Some e)]"
        using assms(2) rd Inr cs cp dc
        by (cases dc) (auto simp: send_body_def end_data_def split: prod.splits)
      then show ?thesis using wrapUpstream_answer [of DataClose e] by simp
    next
      case (Some e)
      then have eq: "err = wrapUpstream ''DATA write'' e" "made = wr @ [(DataClose, dc)]"
        using assms(2) rd Inr cs cp dc by (auto simp: send_body_def end_data_def)
      have "rerr = Some e \<Longrightarrow> errors_As e = None"
        using consume_errors [OF assms(1), of d s1 w1 chunks e s2 w2] cs by simp
      with copy_error [OF cp [unfolded Some]] consider c where "(c, Some e) \<in> set wr" | "errors_As e = None"
        by auto
      then show ?thesis
      proof cases
        case 1
        then have "(c, Some e) \<in> set made" using eq(2) by simp
        then show ?thesis unfolding eq(1) by (auto intro: wrapUpstream_answer)
      next
        case 2
        then show ?thesis unfolding eq(1) by (auto intro: wrapUpstream_plain)
      qed
    qed
  qed
qed


text \<open>A message that the upstream took whole: its envelope, exactly its bytes, and a positive answer to the
  end of the data, with no refusal before.\<close>

definition delivered :: "relayer \<Rightarrow> Message \<Rightarrow> calls \<Rightarrow> bool" where
  "delivered r msg made \<longleftrightarrow>
     (\<exists>dialed writes q.
        made = dialed @ map (\<lambda>(_, c). (c, None)) (envelope r msg) @ writes @ [(DataClose, None), (Quit, q)] \<and>
        all_ok dialed \<and> all_ok writes \<and> list_all is_write writes \<and>
        written writes = content (msg_Body msg))"

lemma send_delivers:
  assumes "os_laws E" "up_laws E" "send E r msg w = (None, made, msg', w')"
  shows "delivered r msg made"
proof -
  obtain d md w1 where d: "dial E r w = (d, md, w1)" by (metis surj_pair)
  obtain e me w2 where e: "run_calls E (envelope r msg) w1 = (e, me, w2)" by (metis surj_pair)
  obtain b mb s w3 where b: "send_body E (msg_Body msg) w2 = (b, mb, s, w3)" by (metis surj_pair)
  have ok: "d = None" "e = None" "b = None" and made: "made = md @ me @ mb"
    using assms(3) d e b by (auto simp: send_def split: option.splits)
  from send_body_ok [OF assms(1,2) b [unfolded ok]] obtain writes q where
    "mb = writes @ [(DataClose, None), (Quit, q)]" "list_all is_write writes" "all_ok writes"
    "written writes = content (msg_Body msg)" by blast
  moreover have "me = map (\<lambda>(_, c). (c, None)) (envelope r msg)"
    using run_calls_ok [OF e [unfolded ok(2)]] .
  moreover have "all_ok md" using dial_ok [OF d [unfolded ok(1)]] .
  ultimately show ?thesis unfolding made delivered_def by blast
qed


section \<open>Properties\<close>

text \<open>C19: the client is told its message was accepted only when the upstream accepted it whole. On success
  the upstream was reached, greeted, given exactly this envelope (sender, then every recipient in
  order), then exactly the bytes of the body, and its answer to the end of the message was positive;
  no call before that one failed.\<close>

theorem send_success:
  assumes "os_laws E" "up_laws E" "send E r msg w = (None, made, msg', w')"
  shows "\<exists>dialed writes q.
           made = dialed @ map (\<lambda>(_, c). (c, None)) (envelope r msg) @ writes @ [(DataClose, None), (Quit, q)] \<and>
           all_ok dialed \<and> all_ok writes \<and> list_all is_write writes \<and>
           written writes = content (msg_Body msg)"
  using send_delivers [OF assms] unfolding delivered_def .


text \<open>A demonstration environment over the system of \<open>plain_os\<close>: the upstream accepts everything except
  what a predicate rejects.\<close>

definition demo_relay :: "(upstream_call \<Rightarrow> go_error option) \<Rightarrow> (bytes \<Rightarrow> bytes list \<times> go_error option) \<Rightarrow> nat relay_env" where
  "demo_relay answer read =
     \<lparr>os_TempDir = ''/tmp'', os_CreateTemp = (\<lambda>_ _ w. (None, Suc w)), os_Remove = (\<lambda>w. (None, w)),
      file_Write = (\<lambda>p w. ((length p, None), w)), file_Seek = (\<lambda>_ w. (None, w)),
      file_Read = (\<lambda>d w. (read d, w)), file_Truncate = (\<lambda>w. (None, w)), file_Close = (\<lambda>w. w - 1),
      up_Call = (\<lambda>c w. (answer c, w)), up_Write = (\<lambda>p w. ((length p, None), w)), up_Close = (\<lambda>w. w)\<rparr>"

lemma demo_relay_laws [simp]:
  "os_laws (demo_relay answer (\<lambda>d. ([d], None)))" "up_laws (demo_relay answer read)"
  "os_errors (demo_relay answer (\<lambda>d. ([d], None)))"
  by (simp_all add: os_laws_def up_laws_def os_errors_def demo_relay_def)

definition sample_relayer :: relayer where
  "sample_relayer = \<lparr>ry_upstream = cfg_Upstream (applyDefaults sample_config), ry_heloName = ''gw''\<rparr>"

definition sample_body :: bytes where
  "sample_body = ''From: app@example.test'' @ CRLF @ CRLF @ ''hello''"

definition sample_message :: Message where
  "sample_message =
     \<lparr>msg_From = ''app@example.test'', msg_To = [''a@x.test'', ''b@x.test''],
      msg_Body = (new_spool [] 100)\<lparr>sp_buf := sample_body, sp_n := length sample_body\<rparr>,
      msg_Account = ''app''\<rparr>"

theorem send_success_witness:
  "fst (send (demo_relay (\<lambda>_. None) (\<lambda>d. ([d], None))) sample_relayer sample_message 0) = None \<and>
   (\<exists>writes. written writes = content (msg_Body sample_message) \<and> all_ok writes)"
proof -
  let ?E = "demo_relay (\<lambda>_. None) (\<lambda>d. ([d], None))"
  obtain r made m w where s: "send ?E sample_relayer sample_message 0 = (r, made, m, w)" by (metis surj_pair)
  have "fst (send ?E sample_relayer sample_message 0) = None" by code_simp
  then show ?thesis using send_success [of ?E sample_relayer sample_message 0 made m w] s by auto
qed


text \<open>Closing the data writer after a failed copy ends the message for the upstream. When the spool's file
  can be read only in part, the gateway answers its client with a temporary error, having told the
  upstream that the part it read was the whole message.\<close>

lemma send_truncated:
  "let E = demo_relay (\<lambda>_. None) (\<lambda>d. ([take 10 d], Some (Plain ''input/output error'')));
       m = sample_message\<lparr>msg_Body := (new_spool [] 4)
             \<lparr>sp_file := Some \<lparr>sf_data = sample_body, sf_pos = 0\<rparr>, sp_n := length sample_body\<rparr>\<rparr>
   in case send E sample_relayer m 0 of
        (err, made, _) \<Rightarrow>
          err = Some (SMTPErr (smtp_reply 451 (4, 4, 2) ''Upstream failure during DATA write'')) \<and>
          drop (length made - 2) made = [(DataWrite (take 10 sample_body), None), (DataClose, None)]"
  by code_simp

end
