(* ===== verification/Milter_Chain.thy ===== *)
theory Milter_Chain
  imports Relay Message Metrics
begin

text \<open>
  \<^verbatim>\<open>internal/gateway/milter.go\<close>: passing a message through the configured filters and folding their
  changes into it. The milter client of the go-milter package is one more layer of the environment;
  which of its actions end the conversation (\<^verbatim>\<open>StopProcessing\<close>) is part of it. \<^verbatim>\<open>net.ParseIP\<close> is an
  argument that says whether a text is an address that is not IPv4.
\<close>


section \<open>The milter protocol\<close>

datatype macro =
  MTAFQDN | DaemonName | IfName | AuthAuthen | AuthType | TlsVersion | Cipher | MailAddr

datatype family = FamilyInet | FamilyInet6

datatype milter_cmd =
    MConn string family nat string
  | MHelo string
  | MMail string
  | MRcpt string
  | MDataStart
  | MHeaderField string string
  | MHeaderEnd

datatype action_type = ActionDiscard | OtherAction nat

record milter_action =
  ma_Type :: action_type
  ma_SMTPCode :: nat
  ma_SMTPReply :: string

datatype modify_action =
    ActionAddHeader string string
  | ActionInsertHeader nat string string
  | ActionChangeHeader nat string string
  | ActionReplaceBody bytes
  | ActionChangeFrom string
  | ActionAddRcpt string
  | ActionDelRcpt string
  | ActionQuarantine string
  | OtherModification nat

text \<open>The body goes to the filter through a reader: the chunks it delivers and how it ended.\<close>

record 'w milter_env = "'w relay_env" +
  mil_Session :: "Milter \<Rightarrow> (macro \<times> string) list \<Rightarrow> 'w \<Rightarrow> go_error option \<times> 'w"
  mil_Call :: "milter_cmd \<Rightarrow> 'w \<Rightarrow> milter_action option result \<times> 'w"
  mil_BodyReadFrom :: "bytes list \<times> go_error option \<Rightarrow> 'w \<Rightarrow>
                         (modify_action list \<times> milter_action option) result \<times> 'w"
  mil_Close :: "'w \<Rightarrow> 'w"
  mil_StopProcessing :: "milter_action \<Rightarrow> bool"
  net_ParseIP_v6 :: "string \<Rightarrow> bool"

record sessionInfo =
  si_Hostname :: string
  si_RemoteIP :: string
  si_RemotePort :: nat
  si_TLSVersion :: string
  si_TLSCipher :: string
  si_AuthUser :: string
  si_MTAName :: string

text \<open>A chain is its filters' configurations, with every name resolved.\<close>

type_synonym milterChain = "Milter list"

definition defaultMilterTimeout :: Duration where "defaultMilterTimeout = 30 * 1000000000"

definition filter_name :: "nat \<Rightarrow> Milter \<Rightarrow> string" where
  "filter_name i mc = (if mil_Name mc = [] then ''milters['' @ show_nat i @ '']'' else mil_Name mc)"

fun resolve_filters :: "nat \<Rightarrow> Milter list \<Rightarrow> milterChain result" where
  "resolve_filters i [] = Inr []"
| "resolve_filters i (mc # ms) =
     (case ParseAddress mc of
        Inl err \<Rightarrow> Inl (Plain (''milter '' @ filter_name i mc))
      | Inr _ \<Rightarrow>
          (case resolve_filters (Suc i) ms of
             Inl err \<Rightarrow> Inl err
           | Inr fs \<Rightarrow>
               Inr (mc\<lparr>mil_Name := filter_name i mc,
                       mil_Timeout := (if mil_Timeout mc = 0 then defaultMilterTimeout
                                       else mil_Timeout mc)\<rparr> # fs)))"

definition newMilterChain :: "Config \<Rightarrow> milterChain result" where
  "newMilterChain cfg = resolve_filters 0 (cfg_Milters cfg)"

definition chain_empty :: "milterChain \<Rightarrow> bool" where
  "chain_empty c \<longleftrightarrow> length c = 0"


section \<open>Verdicts\<close>

definition smtpErrorFromAction :: "milter_action \<Rightarrow> smtp_error" where
  "smtpErrorFromAction act =
     (let code = int (ma_SMTPCode act);
          code = (if code < 400 then 550 else code);
          message = trim_space (ma_SMTPReply act);
          message = (if message = [] then ''Rejected by filter'' else message);
          message = (case cut SP message of
                       (field, rest, found) \<Rightarrow> if found \<and> length field = 3 then rest else message);
          enhanced = (if code < 500 then (4, 7, 1) else (5, 7, 1))
      in smtp_reply code enhanced message)"

definition check_action ::
  "('w, 'm) milter_env_scheme \<Rightarrow> milter_action option result \<Rightarrow> go_error option" where
  "check_action E answer =
     (case answer of
        Inl err \<Rightarrow> Some err
      | Inr None \<Rightarrow> None
      | Inr (Some act) \<Rightarrow>
          if mil_StopProcessing E act then Some (SMTPErr (smtpErrorFromAction act))
          else if ma_Type act = ActionDiscard then Some ErrDiscard
          else None)"

fun run_cmds :: "('w, 'm) milter_env_scheme \<Rightarrow> milter_cmd list \<Rightarrow> 'w \<Rightarrow> go_error option \<times> 'w" where
  "run_cmds E [] w = (None, w)"
| "run_cmds E (c # cs) w =
     (case mil_Call E c w of
        (answer, w) \<Rightarrow>
          (case check_action E answer of Some err \<Rightarrow> (Some err, w) | None \<Rightarrow> run_cmds E cs w))"


section \<open>Modifications\<close>

definition unbracket :: "string \<Rightarrow> string" where
  "unbracket addr = trim_suffix (trim_prefix addr ''<'') ''>''"

definition removeRecipient :: "unicode \<Rightarrow> string list \<Rightarrow> string \<Rightarrow> string list" where
  "removeRecipient U list addr = filter (\<lambda>r. \<not> equal_fold U r addr) list"

text \<open>The writes of \<^verbatim>\<open>WriteHeaders\<close>, stopping at the first that fails.\<close>

fun write_each ::
  "('w, 'm) os_env_scheme \<Rightarrow> bytes list \<Rightarrow> spool \<Rightarrow> 'w \<Rightarrow> go_error option \<times> spool \<times> 'w" where
  "write_each E [] s w = (None, s, w)"
| "write_each E (c # cs) s w =
     (case Write E c s w of
        ((_, Some err), s, w) \<Rightarrow> (Some err, s, w)
      | ((_, None), s, w) \<Rightarrow> write_each E cs s w)"

text \<open>Where the new body comes from: the replacement, or the old body past its header block.\<close>

definition rewrite_source ::
  "('w, 'm) os_env_scheme \<Rightarrow> Message \<Rightarrow> nat \<Rightarrow> spool option \<Rightarrow> 'w \<Rightarrow>
     (bytes list \<times> go_error option) result \<times> Message \<times> 'w" where
  "rewrite_source E msg headerLen replacement w =
     (case replacement of
        Some rep \<Rightarrow>
          (case Reader E rep w of
             (Inl err, rep, w) \<Rightarrow> (Inl err, msg, w)
           | (Inr data, rep, w) \<Rightarrow>
               (case consume E data rep w of (rd, rep, w) \<Rightarrow> (Inr rd, msg, w)))
      | None \<Rightarrow>
          (case ReaderAt E headerLen (msg_Body msg) w of
             (Inl err, body, w) \<Rightarrow> (Inl err, msg\<lparr>msg_Body := body\<rparr>, w)
           | (Inr data, body, w) \<Rightarrow>
               (case consume E data body w of (rd, body, w) \<Rightarrow> (Inr rd, msg\<lparr>msg_Body := body\<rparr>, w))))"

text \<open>On every error the new spool is closed and the message keeps the old one.\<close>

definition rewriteBody ::
  "('w, 'm) os_env_scheme \<Rightarrow> Message \<Rightarrow> parsedMessage \<Rightarrow> nat \<Rightarrow> spool option \<Rightarrow> 'w \<Rightarrow>
     go_error option \<times> Message \<times> 'w" where
  "rewriteBody E msg parsed headerLen replacement w =
     (case write_each E (WriteHeaders parsed) (sibling (msg_Body msg)) w of
        (Some err, out, w) \<Rightarrow> (Some err, msg, snd (spool_Close E out w))
      | (None, out, w) \<Rightarrow>
        (case rewrite_source E msg headerLen replacement w of
           (Inl err, msg, w) \<Rightarrow> (Some err, msg, snd (spool_Close E out w))
         | (Inr (chunks, rerr), msg, w) \<Rightarrow>
           (case io_Copy (Write E) chunks rerr out w of
              (Some err, out, w) \<Rightarrow> (Some err, msg, snd (spool_Close E out w))
            | (None, out, w) \<Rightarrow>
                (None, msg\<lparr>msg_Body := out\<rparr>, snd (spool_Close E (msg_Body msg) w)))))"

record mods =
  md_msg :: Message
  md_parsed :: parsedMessage
  md_replacement :: "spool option"
  md_headersChanged :: bool

definition apply_act ::
  "('w, 'm) os_env_scheme \<Rightarrow> unicode \<Rightarrow> Milter \<Rightarrow> modify_action \<Rightarrow> mods \<Rightarrow> 'w \<Rightarrow>
     go_error option \<times> mods \<times> 'w" where
  "apply_act E U f act st w =
     (case act of
        ActionAddHeader name hval \<Rightarrow>
          (None, st\<lparr>md_parsed := addHeader name hval (md_parsed st), md_headersChanged := True\<rparr>, w)
      | ActionInsertHeader index name hval \<Rightarrow>
          (None, st\<lparr>md_parsed := insertHeader (int index) name hval (md_parsed st),
                    md_headersChanged := True\<rparr>, w)
      | ActionChangeHeader index name hval \<Rightarrow>
          (None, st\<lparr>md_parsed := changeHeader U (int index) name hval (md_parsed st),
                    md_headersChanged := True\<rparr>, w)
      | ActionReplaceBody chunk \<Rightarrow>
          (let rep = (case md_replacement st of None \<Rightarrow> sibling (msg_Body (md_msg st)) | Some rep \<Rightarrow> rep) in
           case Write E chunk rep w of
             ((_, err), rep, w) \<Rightarrow> (err, st\<lparr>md_replacement := Some rep\<rparr>, w))
      | ActionChangeFrom from \<Rightarrow>
          (None, st\<lparr>md_msg := (md_msg st)\<lparr>msg_From := unbracket from\<rparr>\<rparr>, w)
      | ActionAddRcpt rcpt \<Rightarrow>
          (None, st\<lparr>md_msg := (md_msg st)\<lparr>msg_To := msg_To (md_msg st) @ [unbracket rcpt]\<rparr>\<rparr>, w)
      | ActionDelRcpt rcpt \<Rightarrow>
          (None, st\<lparr>md_msg := (md_msg st)
                     \<lparr>msg_To := removeRecipient U (msg_To (md_msg st)) (unbracket rcpt)\<rparr>\<rparr>, w)
      | ActionQuarantine reason \<Rightarrow>
          (Some (SMTPErr (smtp_reply 554 (5, 7, 1) (''Message quarantined by '' @ mil_Name f))), st, w)
      | OtherModification t \<Rightarrow> (None, st, w))"

fun apply_acts ::
  "('w, 'm) os_env_scheme \<Rightarrow> unicode \<Rightarrow> Milter \<Rightarrow> modify_action list \<Rightarrow> mods \<Rightarrow> 'w \<Rightarrow>
     go_error option \<times> mods \<times> 'w" where
  "apply_acts E U f [] st w = (None, st, w)"
| "apply_acts E U f (act # acts) st w =
     (case apply_act E U f act st w of
        (Some err, st, w) \<Rightarrow> (Some err, st, w)
      | (None, st, w) \<Rightarrow> apply_acts E U f acts st w)"

definition close_replacement :: "('w, 'm) os_env_scheme \<Rightarrow> spool option \<Rightarrow> 'w \<Rightarrow> 'w" where
  "close_replacement E rep w = (case rep of None \<Rightarrow> w | Some s \<Rightarrow> snd (spool_Close E s w))"

definition applyModifications ::
  "('w, 'm) os_env_scheme \<Rightarrow> unicode \<Rightarrow> Milter \<Rightarrow> Message \<Rightarrow> parsedMessage \<Rightarrow> nat \<Rightarrow>
     modify_action list \<Rightarrow> 'w \<Rightarrow> go_error option \<times> Message \<times> 'w" where
  "applyModifications E U f msg parsed headerLen acts w =
     (case apply_acts E U f acts
             \<lparr>md_msg = msg, md_parsed = parsed, md_replacement = None, md_headersChanged = False\<rparr> w of
        (Some err, st, w) \<Rightarrow> (Some err, md_msg st, close_replacement E (md_replacement st) w)
      | (None, st, w) \<Rightarrow>
        (case (if md_headersChanged st \<or> md_replacement st \<noteq> None
               then rewriteBody E (md_msg st) (md_parsed st) headerLen (md_replacement st) w
               else (None, md_msg st, w)) of
           (Some err, msg, w) \<Rightarrow> (Some err, msg, close_replacement E (md_replacement st) w)
         | (None, msg, w) \<Rightarrow>
             (if msg_To msg = []
              then Some (SMTPErr (smtp_reply 554 (5, 7, 1) ''All recipients removed by filters''))
              else None,
              msg, close_replacement E (md_replacement st) w)))"


section \<open>One filter, and the chain\<close>

definition session_macros :: "Message \<Rightarrow> sessionInfo \<Rightarrow> (macro \<times> string) list" where
  "session_macros msg info =
     [(MTAFQDN, si_MTAName info), (DaemonName, ''mailout''), (IfName, si_MTAName info)] @
     (if si_AuthUser info \<noteq> [] then [(AuthAuthen, si_AuthUser info), (AuthType, ''PLAIN'')] else []) @
     (if si_TLSVersion info \<noteq> [] then [(TlsVersion, si_TLSVersion info), (Cipher, si_TLSCipher info)] else []) @
     [(MailAddr, msg_From msg)]"

definition envelope_cmds :: "('w, 'm) milter_env_scheme \<Rightarrow> Message \<Rightarrow> sessionInfo \<Rightarrow> milter_cmd list" where
  "envelope_cmds E msg info =
     (let family = (if net_ParseIP_v6 E (si_RemoteIP info) then FamilyInet6 else FamilyInet) in
      [MConn (si_Hostname info) family (si_RemotePort info) (si_RemoteIP info), MHelo (si_Hostname info),
       MMail (msg_From msg)] @ map MRcpt (msg_To msg) @ [MDataStart])"

definition header_cmds :: "parsedMessage \<Rightarrow> milter_cmd list" where
  "header_cmds parsed = map (\<lambda>h. MHeaderField (hf_Name h) (hf_Value h)) (pm_Headers parsed) @ [MHeaderEnd]"

text \<open>The conversation after the header block has been read: an unterminated one is not parsed, and all of
  the message is body.\<close>

definition filter_body ::
  "('w, 'm) milter_env_scheme \<Rightarrow> unicode \<Rightarrow> Milter \<Rightarrow> Message \<Rightarrow> bytes \<Rightarrow> bool \<Rightarrow> 'w \<Rightarrow>
     go_error option \<times> Message \<times> 'w" where
  "filter_body E U f msg header terminated w =
     (let parsed = (if terminated then parseMessage header else \<lparr>pm_Headers = [], pm_Body = []\<rparr>);
          header = (if terminated then header else [])
      in case run_cmds E (header_cmds parsed) w of
           (Some err, w) \<Rightarrow> (Some err, msg, w)
         | (None, w) \<Rightarrow>
           (case ReaderAt E (length header) (msg_Body msg) w of
              (Inl err, body, w) \<Rightarrow> (Some err, msg\<lparr>msg_Body := body\<rparr>, w)
            | (Inr data, body, w) \<Rightarrow>
              (case consume E data body w of
                 (reader, body, w) \<Rightarrow>
                   (case mil_BodyReadFrom E reader w of
                      (Inl err, w) \<Rightarrow> (Some (Wrap ''send body'' err), msg\<lparr>msg_Body := body\<rparr>, w)
                    | (Inr (acts, act), w) \<Rightarrow>
                      (case check_action E (Inr act) of
                         Some err \<Rightarrow> (Some err, msg\<lparr>msg_Body := body\<rparr>, w)
                       | None \<Rightarrow>
                           applyModifications E U f (msg\<lparr>msg_Body := body\<rparr>) parsed (length header) acts w)))))"

definition runOne ::
  "('w, 'm) milter_env_scheme \<Rightarrow> unicode \<Rightarrow> Milter \<Rightarrow> Message \<Rightarrow> sessionInfo \<Rightarrow> 'w \<Rightarrow>
     go_error option \<times> Message \<times> 'w" where
  "runOne E U f msg info w =
     (case mil_Session E f (session_macros msg info) w of
        (Some err, w) \<Rightarrow> (Some (Wrap ''open milter session'' err), msg, w)
      | (None, w) \<Rightarrow>
        (case (case run_cmds E (envelope_cmds E msg info) w of
                 (Some err, w) \<Rightarrow> (Some err, msg, w)
               | (None, w) \<Rightarrow>
                 (case headerBlock E (msg_Body msg) w of
                    (Inl err, body, w) \<Rightarrow> (Some err, msg\<lparr>msg_Body := body\<rparr>, w)
                  | (Inr (header, terminated), body, w) \<Rightarrow>
                      filter_body E U f (msg\<lparr>msg_Body := body\<rparr>) header terminated w)) of
           (r, msg, w) \<Rightarrow> (r, msg, mil_Close E w)))"

definition filter_unavailable :: "Milter \<Rightarrow> go_error" where
  "filter_unavailable f =
     SMTPErr (smtp_reply 451 (4, 7, 1) (''Filter '' @ mil_Name f @ '' unavailable, try again later''))"

fun run_chain ::
  "('w, 'm) milter_env_scheme \<Rightarrow> unicode \<Rightarrow> milterChain \<Rightarrow> Message \<Rightarrow> sessionInfo \<Rightarrow> 'w \<Rightarrow>
     go_error option \<times> metric list \<times> Message \<times> 'w" where
  "run_chain E U [] msg info w = (None, [], msg, w)"
| "run_chain E U (f # fs) msg info w =
     (case runOne E U f msg info w of
        (None, msg, w) \<Rightarrow>
          (case run_chain E U fs msg info w of
             (r, ms, msg, w) \<Rightarrow> (r, milterDecided (mil_Name f) decisionAccept # ms, msg, w))
      | (Some err, msg, w) \<Rightarrow>
          (case errors_As err of
             Some e \<Rightarrow> (Some (SMTPErr e), [milterDecided (mil_Name f) decisionReject], msg, w)
           | None \<Rightarrow>
               if errors_Is_discard err then
                 (Some err, [milterDecided (mil_Name f) decisionDiscard], msg, w)
               else if mil_FailOpen f then
                 (case run_chain E U fs msg info w of
                    (r, ms, msg, w) \<Rightarrow> (r, milterDecided (mil_Name f) decisionUnavailable # ms, msg, w))
               else
                 (Some (filter_unavailable f), [milterDecided (mil_Name f) decisionUnavailable], msg, w)))"


section \<open>What a rewritten message holds\<close>

lemma sibling_ok: "os_laws E \<Longrightarrow> spool_ok E (sibling s)"
  by (simp add: sibling_def new_spool_ok)

lemma content_sibling [simp]: "content (sibling s) = []"
  by (simp add: sibling_def)

lemma write_each_law:
  "spool_ok E s \<Longrightarrow> write_each E cs s w = (None, s', w') \<Longrightarrow>
   spool_ok E s' \<and> content s' = content s @ concat cs"
proof (induction cs arbitrary: s w)
  case (Cons c cs)
  obtain n e s1 w1 where wr: "Write E c s w = ((n, e), s1, w1)" by (metis surj_pair)
  then have "e = None" "write_each E cs s1 w1 = (None, s', w')" using Cons.prems(2) by (auto split: option.splits)
  then show ?case using Cons.IH [of s1 w1] Write_law [OF Cons.prems(1) wr] by simp
qed simp

text \<open>What a message keeps through any read: everything but the position in its file.\<close>

definition same_body :: "spool \<Rightarrow> spool \<Rightarrow> bool" where
  "same_body s s' \<longleftrightarrow>
     content s' = content s \<and> sp_n s' = sp_n s \<and> sp_buf s' = sp_buf s \<and>
     sp_threshold s' = sp_threshold s \<and> sp_dir s' = sp_dir s \<and> (sp_file s' = None \<longleftrightarrow> sp_file s = None)"

lemma same_body_refl [simp]: "same_body s s"
  by (simp add: same_body_def)

lemma same_body_trans: "same_body a b \<Longrightarrow> same_body b c \<Longrightarrow> same_body a c"
  by (simp add: same_body_def)

lemma same_body_inv: "same_body s s' \<Longrightarrow> spool_inv s \<Longrightarrow> spool_inv s'"
  by (rule same_content_inv [of s]) (simp_all add: same_body_def)

lemma same_body_content: "same_body s s' \<Longrightarrow> content s' = content s"
  by (simp add: same_body_def)

lemma Reader_same: "Reader E s w = (r, s', w') \<Longrightarrow> same_body s s'"
  by (drule Reader_law) (simp add: same_body_def)

lemma consume_same: "os_laws E \<Longrightarrow> consume E d s w = ((c, e), s', w') \<Longrightarrow> same_body s s'"
  by (drule (1) consume_law) (simp add: same_body_def)

lemma headerBlock_same: "os_laws E \<Longrightarrow> headerBlock E s w = (r, s', w') \<Longrightarrow> same_body s s'"
  by (drule (1) headerBlock_law) (simp add: same_body_def)

lemma ReaderAt_law:
  assumes "spool_inv s" "ReaderAt E n s w = (r, s', w')"
  shows "same_body s s' \<and> (\<forall>d. r = Inr d \<longrightarrow> d = drop n (content s))"
proof -
  have "sp_n s = length (content s)" using assms(1) by (simp add: spool_inv_def)
  then show ?thesis using assms(2)
    by (auto simp: ReaderAt_def seek_def content_def same_body_def Let_def
        split: option.splits prod.splits if_splits)
qed

definition source_content :: "Message \<Rightarrow> nat \<Rightarrow> spool option \<Rightarrow> bytes" where
  "source_content msg headerLen replacement =
     (case replacement of Some rep \<Rightarrow> content rep | None \<Rightarrow> drop headerLen (content (msg_Body msg)))"

lemma rewrite_source_law:
  assumes "os_laws E" "spool_inv (msg_Body msg)" "rewrite_source E msg n replacement w = (r, msg', w')"
  shows "(\<exists>body. msg' = msg\<lparr>msg_Body := body\<rparr> \<and> same_body (msg_Body msg) body) \<and>
         (\<forall>chunks. r = Inr (chunks, None) \<longrightarrow> concat chunks = source_content msg n replacement)"
proof (cases replacement)
  case None
  obtain r0 b w1 where rd: "ReaderAt E n (msg_Body msg) w = (r0, b, w1)" by (metis surj_pair)
  note law = ReaderAt_law [OF assms(2) rd]
  show ?thesis
  proof (cases r0)
    case (Inl e)
    then show ?thesis using assms(3) None rd law by (auto simp: rewrite_source_def)
  next
    case (Inr d)
    obtain c e b2 w2 where cs: "consume E d b w1 = ((c, e), b2, w2)" by (metis surj_pair)
    have "same_body (msg_Body msg) b2" using law consume_same [OF assms(1) cs] same_body_trans by blast
    moreover have "e = None \<longrightarrow> concat c = drop n (content (msg_Body msg))"
      using consume_law [OF assms(1) cs] law Inr by simp
    ultimately show ?thesis
      using assms(3) None rd Inr cs by (auto simp: rewrite_source_def source_content_def)
  qed
next
  case (Some rep)
  obtain r0 b w1 where rd: "Reader E rep w = (r0, b, w1)" by (metis surj_pair)
  have same: "\<exists>body. msg = msg\<lparr>msg_Body := body\<rparr> \<and> same_body (msg_Body msg) body"
    by (rule exI [of _ "msg_Body msg"]) simp
  show ?thesis
  proof (cases r0)
    case (Inl e)
    then show ?thesis using assms(3) Some rd same by (auto simp: rewrite_source_def)
  next
    case (Inr d)
    obtain c e b2 w2 where cs: "consume E d b w1 = ((c, e), b2, w2)" by (metis surj_pair)
    have "e = None \<longrightarrow> concat c = content rep"
      using consume_law [OF assms(1) cs] Reader_law [OF rd] Inr by simp
    then show ?thesis
      using assms(3) Some rd Inr cs same by (auto simp: rewrite_source_def source_content_def)
  qed
qed

lemma rewriteBody_law:
  assumes "os_laws E" "spool_inv (msg_Body msg)" "rewriteBody E msg parsed n replacement w = (err, msg', w')"
  shows "\<exists>body. msg' = msg\<lparr>msg_Body := body\<rparr> \<and> spool_inv body \<and>
           content body = (if err = None then concat (WriteHeaders parsed) @ source_content msg n replacement
                           else content (msg_Body msg))"
proof -
  obtain e1 out w1 where wh: "write_each E (WriteHeaders parsed) (sibling (msg_Body msg)) w = (e1, out, w1)"
    by (metis surj_pair)
  have keep: "\<exists>body. msg = msg\<lparr>msg_Body := body\<rparr> \<and> spool_inv body \<and> content body = content (msg_Body msg)"
    by (rule exI [of _ "msg_Body msg"]) (simp add: assms(2))
  show ?thesis
  proof (cases e1)
    case (Some e)
    then show ?thesis using assms(3) wh keep by (auto simp: rewriteBody_def)
  next
    case None
    note out = write_each_law [OF sibling_ok [OF assms(1)] wh [unfolded None]]
    obtain r m2 w2 where src: "rewrite_source E msg n replacement w1 = (r, m2, w2)" by (metis surj_pair)
    from rewrite_source_law [OF assms(1,2) src] obtain body where
      m2: "m2 = msg\<lparr>msg_Body := body\<rparr>" and sb: "same_body (msg_Body msg) body"
      and read: "\<forall>chunks. r = Inr (chunks, None) \<longrightarrow> concat chunks = source_content msg n replacement" by blast
    note body = same_body_inv [OF sb assms(2)] same_body_content [OF sb]
    show ?thesis
    proof (cases r)
      case (Inl e)
      then show ?thesis using assms(3) wh None src m2 body by (auto simp: rewriteBody_def)
    next
      case (Inr rd)
      obtain chunks rerr where rd: "rd = (chunks, rerr)" by fastforce
      obtain e3 out3 w3 where cp: "io_Copy (Write E) chunks rerr out w2 = (e3, out3, w3)" by (metis surj_pair)
      note law = spool_store.copy_law [OF conjunct1 [OF out] cp]
      show ?thesis
      proof (cases e3)
        case (Some e)
        then show ?thesis using assms(3) wh None src m2 body Inr rd cp by (auto simp: rewriteBody_def)
      next
        case ok: None
        then have "content out3 = concat (WriteHeaders parsed) @ source_content msg n replacement" "spool_inv out3"
          using law out read Inr rd by (auto simp: spool_ok_def)
        then show ?thesis using assms(3) wh None src m2 Inr rd cp ok by (auto simp: rewriteBody_def)
      qed
    qed
  qed
qed


section \<open>The modifications as a specification\<close>

text \<open>
  What the requested modifications mean for a message, without spools: the envelope, the header fields, the
  body, and whether the stored message has to be written anew.
\<close>

record amsg =
  am_From :: string
  am_To :: "string list"
  am_parsed :: parsedMessage
  am_Body :: bytes
  am_Replaced :: bool
  am_Changed :: bool

fun amend :: "unicode \<Rightarrow> modify_action \<Rightarrow> amsg \<Rightarrow> amsg" where
  "amend U (ActionAddHeader name hval) m =
     m\<lparr>am_parsed := addHeader name hval (am_parsed m), am_Changed := True\<rparr>"
| "amend U (ActionInsertHeader index name hval) m =
     m\<lparr>am_parsed := insertHeader (int index) name hval (am_parsed m), am_Changed := True\<rparr>"
| "amend U (ActionChangeHeader index name hval) m =
     m\<lparr>am_parsed := changeHeader U (int index) name hval (am_parsed m), am_Changed := True\<rparr>"
| "amend U (ActionReplaceBody chunk) m =
     m\<lparr>am_Body := (if am_Replaced m then am_Body m @ chunk else chunk), am_Replaced := True,
       am_Changed := True\<rparr>"
| "amend U (ActionChangeFrom from) m = m\<lparr>am_From := unbracket from\<rparr>"
| "amend U (ActionAddRcpt rcpt) m = m\<lparr>am_To := am_To m @ [unbracket rcpt]\<rparr>"
| "amend U (ActionDelRcpt rcpt) m = m\<lparr>am_To := removeRecipient U (am_To m) (unbracket rcpt)\<rparr>"
| "amend U (ActionQuarantine reason) m = m"
| "amend U (OtherModification t) m = m"

definition amended :: "unicode \<Rightarrow> modify_action list \<Rightarrow> Message \<Rightarrow> parsedMessage \<Rightarrow> nat \<Rightarrow> amsg" where
  "amended U acts msg parsed headerLen =
     fold (amend U) acts
       \<lparr>am_From = msg_From msg, am_To = msg_To msg, am_parsed = parsed,
        am_Body = drop headerLen (content (msg_Body msg)), am_Replaced = False, am_Changed = False\<rparr>"

definition quarantines :: "modify_action \<Rightarrow> bool" where
  "quarantines act \<longleftrightarrow> (case act of ActionQuarantine _ \<Rightarrow> True | _ \<Rightarrow> False)"

definition abs_mods :: "nat \<Rightarrow> mods \<Rightarrow> amsg" where
  "abs_mods n st =
     \<lparr>am_From = msg_From (md_msg st), am_To = msg_To (md_msg st), am_parsed = md_parsed st,
      am_Body = source_content (md_msg st) n (md_replacement st),
      am_Replaced = (md_replacement st \<noteq> None),
      am_Changed = (md_headersChanged st \<or> md_replacement st \<noteq> None)\<rparr>"

text \<open>What every modification keeps: the stored body and the account, and a replacement that can be written.\<close>

definition mods_ok :: "('w, 'm) os_env_scheme \<Rightarrow> mods \<Rightarrow> bool" where
  "mods_ok E st \<longleftrightarrow> os_laws E \<and> (\<forall>rep. md_replacement st = Some rep \<longrightarrow> spool_ok E rep)"

definition kept :: "mods \<Rightarrow> mods \<Rightarrow> bool" where
  "kept st st' \<longleftrightarrow> msg_Body (md_msg st') = msg_Body (md_msg st) \<and> msg_Account (md_msg st') = msg_Account (md_msg st)"

lemma apply_act_law:
  assumes "mods_ok E st" "apply_act E U f act st w = (err, st', w')"
  shows "kept st st'" "err = None \<Longrightarrow> mods_ok E st' \<and> abs_mods n st' = amend U act (abs_mods n st) \<and> \<not> quarantines act"
proof -
  have "kept st st' \<and> (err = None \<longrightarrow>
          mods_ok E st' \<and> abs_mods n st' = amend U act (abs_mods n st) \<and> \<not> quarantines act)"
  proof (cases act)
    case (ActionReplaceBody chunk)
    define rep where "rep = (case md_replacement st of None \<Rightarrow> sibling (msg_Body (md_msg st)) | Some rep \<Rightarrow> rep)"
    have ok: "spool_ok E rep"
      using assms(1) sibling_ok by (auto simp: rep_def mods_ok_def split: option.split)
    obtain k e rep' w1 where wr: "Write E chunk rep w = ((k, e), rep', w1)" by (metis surj_pair)
    have st': "err = e" "st' = st\<lparr>md_replacement := Some rep'\<rparr>"
      using assms(2) wr by (simp_all add: apply_act_def ActionReplaceBody rep_def [symmetric])
    show ?thesis
      using st' Write_law [OF ok wr] assms(1) ActionReplaceBody
      by (auto simp: kept_def mods_ok_def abs_mods_def source_content_def quarantines_def rep_def
          split: option.splits)
  qed (use assms in \<open>auto simp: apply_act_def kept_def mods_ok_def abs_mods_def source_content_def quarantines_def split: option.split\<close>)
  then show "kept st st'" "err = None \<Longrightarrow>
      mods_ok E st' \<and> abs_mods n st' = amend U act (abs_mods n st) \<and> \<not> quarantines act" by simp_all
qed

lemma kept_trans: "kept a b \<Longrightarrow> kept b c \<Longrightarrow> kept a c"
  by (simp add: kept_def)

lemma apply_acts_law:
  "mods_ok E st \<Longrightarrow> apply_acts E U f acts st w = (err, st', w') \<Longrightarrow>
   kept st st' \<and> (err = None \<longrightarrow> mods_ok E st' \<and> abs_mods n st' = fold (amend U) acts (abs_mods n st) \<and>
                                   \<not> list_ex quarantines acts)"
proof (induction acts arbitrary: st w)
  case Nil
  then show ?case by (simp add: kept_def)
next
  case (Cons act acts)
  obtain e st1 w1 where ap: "apply_act E U f act st w = (e, st1, w1)" by (metis surj_pair)
  note law = apply_act_law [OF Cons.prems(1) ap]
  show ?case
  proof (cases e)
    case None
    have "apply_acts E U f acts st1 w1 = (err, st', w')" using Cons.prems(2) ap None by simp
    from Cons.IH [OF _ this] law(2) [OF None, of n] law(1)
    show ?thesis by (auto intro: kept_trans)
  next
    case (Some x)
    then show ?thesis using Cons.prems(2) ap law(1) by auto
  qed
qed

text \<open>The invariant a message carries through the chain: its stored body is a sound spool.\<close>

definition sound :: "('w, 'm) os_env_scheme \<Rightarrow> Message \<Rightarrow> bool" where
  "sound E msg \<longleftrightarrow> os_laws E \<and> spool_inv (msg_Body msg)"

text \<open>A message after a filter's modifications, as the specification has them.\<close>

definition applied ::
  "unicode \<Rightarrow> modify_action list \<Rightarrow> Message \<Rightarrow> parsedMessage \<Rightarrow> nat \<Rightarrow> Message \<Rightarrow> bool" where
  "applied U acts msg parsed headerLen msg' \<longleftrightarrow>
     (let a = amended U acts msg parsed headerLen in
      msg_From msg' = am_From a \<and> msg_To msg' = am_To a \<and> am_To a \<noteq> [] \<and>
      \<not> list_ex quarantines acts \<and>
      content (msg_Body msg') =
        (if am_Changed a then concat (WriteHeaders (am_parsed a)) @ am_Body a else content (msg_Body msg)))"

lemma applied_body:
  "content b = content (msg_Body msg) \<Longrightarrow>
   applied U acts (msg\<lparr>msg_Body := b\<rparr>) parsed n msg' = applied U acts msg parsed n msg'"
  by (simp add: applied_def amended_def)

lemma applyModifications_law:
  assumes "sound E msg" "applyModifications E U f msg parsed n acts w = (err, msg', w')"
  shows "sound E msg' \<and> msg_Account msg' = msg_Account msg \<and>
    (err = None \<longrightarrow> applied U acts msg parsed n msg')"
proof -
  define a where "a = amended U acts msg parsed n"
  define st0 where "st0 = \<lparr>md_msg = msg, md_parsed = parsed, md_replacement = None, md_headersChanged = False\<rparr>"
  have ok: "mods_ok E st0" using assms(1) by (simp add: mods_ok_def st0_def sound_def)
  obtain e st w1 where ap: "apply_acts E U f acts st0 w = (e, st, w1)" by (metis surj_pair)
  have a: "a = fold (amend U) acts (abs_mods n st0)"
    by (simp add: a_def amended_def abs_mods_def st0_def source_content_def)
  note law = apply_acts_law [OF ok ap, of n, folded a]
  have k: "msg_Body (md_msg st) = msg_Body msg" "msg_Account (md_msg st) = msg_Account msg"
    using law by (simp_all add: kept_def st0_def)
  have s: "sound E (md_msg st)" using assms(1) k by (simp add: sound_def)
  show ?thesis
  proof (cases e)
    case (Some x)
    then show ?thesis using assms(2) ap k s by (auto simp: applyModifications_def st0_def [symmetric])
  next
    case None
    then have abs: "abs_mods n st = a" "\<not> list_ex quarantines acts" using law by simp_all
    show ?thesis
    proof (cases "am_Changed a")
      case False
      then have "\<not> (md_headersChanged st \<or> md_replacement st \<noteq> None)" by (simp add: abs(1) [symmetric] abs_mods_def)
      then show ?thesis using assms(2) ap k s None abs False
        by (auto simp: applyModifications_def st0_def [symmetric] abs_mods_def applied_def a_def [symmetric] Let_def)
    next
      case True
      then have ch: "md_headersChanged st \<or> md_replacement st \<noteq> None" by (simp add: abs(1) [symmetric] abs_mods_def)
      obtain e2 m2 w2 where rw:
        "rewriteBody E (md_msg st) (md_parsed st) n (md_replacement st) w1 = (e2, m2, w2)" by (metis surj_pair)
      from rewriteBody_law [OF _ _ rw] s obtain body where
        m2: "m2 = (md_msg st)\<lparr>msg_Body := body\<rparr>" "spool_inv body"
            "content body = (if e2 = None then concat (WriteHeaders (md_parsed st)) @
                               source_content (md_msg st) n (md_replacement st) else content (msg_Body msg))"
        unfolding sound_def using k by auto
      have m': "msg' = m2" using assms(2) ap None ch rw
        by (auto simp: applyModifications_def st0_def [symmetric] split: option.splits)
      have e': "err = None \<longleftrightarrow> e2 = None \<and> msg_To m2 \<noteq> []" using assms(2) ap None ch rw
        by (auto simp: applyModifications_def st0_def [symmetric] split: option.splits)
      show ?thesis using m' e' m2 s k abs True
        by (auto simp: sound_def abs_mods_def applied_def a_def [symmetric] Let_def)
    qed
  qed
qed


section \<open>What a filter is shown\<close>

text \<open>The part of a stored message a filter gets as header fields, and how long that part is.\<close>

definition shown :: "bytes \<Rightarrow> parsedMessage \<times> nat" where
  "shown c =
     (case end_of_header (take maxHeaderBytes c) of
        (header, terminated) \<Rightarrow>
          if terminated then (parseMessage header, length header)
          else (\<lparr>pm_Headers = [], pm_Body = []\<rparr>, 0))"

text \<open>A filter's final word: it was given the reader, asked for the modifications and let the message pass.\<close>

definition passed ::
  "('w, 'm) milter_env_scheme \<Rightarrow> bytes list \<times> go_error option \<Rightarrow> modify_action list \<Rightarrow> bool" where
  "passed E reader acts \<longleftrightarrow>
     (\<exists>w w' act. mil_BodyReadFrom E reader w = (Inr (acts, act), w') \<and> check_action E (Inr act) = None)"

definition seen_by ::
  "('w, 'm) milter_env_scheme \<Rightarrow> unicode \<Rightarrow> Message \<Rightarrow> Message \<Rightarrow> bool" where
  "seen_by E U msg msg' \<longleftrightarrow>
     (let (parsed, n) = shown (content (msg_Body msg)); rest = drop n (content (msg_Body msg)) in
      (\<exists>w w'. run_cmds E (header_cmds parsed) w = (None, w')) \<and>
      (\<exists>chunks rerr acts. passed E (chunks, rerr) acts \<and> prefix (concat chunks) rest \<and>
         (rerr = None \<longrightarrow> concat chunks = rest) \<and> applied U acts msg parsed n msg'))"

lemma seen_byI:
  "shown (content (msg_Body msg)) = (parsed, n) \<Longrightarrow> run_cmds E (header_cmds parsed) w = (None, w') \<Longrightarrow>
   passed E (chunks, rerr) acts \<Longrightarrow> prefix (concat chunks) (drop n (content (msg_Body msg))) \<Longrightarrow>
   (rerr = None \<longrightarrow> concat chunks = drop n (content (msg_Body msg))) \<Longrightarrow>
   applied U acts msg parsed n msg' \<Longrightarrow> seen_by E U msg msg'"
  by (auto simp: seen_by_def Let_def)

lemma filter_body_law:
  assumes "sound E msg" "filter_body E U f msg header terminated w = (err, msg', w')"
    and "end_of_header (take maxHeaderBytes (content (msg_Body msg))) = (header, terminated)"
  shows "sound E msg' \<and> msg_Account msg' = msg_Account msg \<and> (err = None \<longrightarrow> seen_by E U msg msg')"
proof -
  obtain parsed n where sh: "shown (content (msg_Body msg)) = (parsed, n)" by fastforce
  then have pn: "parsed = (if terminated then parseMessage header else \<lparr>pm_Headers = [], pm_Body = []\<rparr>)"
    "n = length (if terminated then header else [])"
    using assms(3) by (auto simp: shown_def split: if_splits)
  obtain e1 w1 where rc: "run_cmds E (header_cmds parsed) w = (e1, w1)" by fastforce
  obtain r b w2 where rd: "ReaderAt E n (msg_Body msg) w1 = (r, b, w2)" by (metis surj_pair)
  have inv: "os_laws E" "spool_inv (msg_Body msg)" using assms(1) by (simp_all add: sound_def)
  note law = ReaderAt_law [OF inv(2) rd]
  have call: "filter_body E U f msg header terminated w =
    (case (e1, w1) of (Some err, w) \<Rightarrow> (Some err, msg, w) | (None, w) \<Rightarrow>
       (case (r, b, w2) of (Inl err, body, w) \<Rightarrow> (Some err, msg\<lparr>msg_Body := body\<rparr>, w)
        | (Inr data, body, w) \<Rightarrow>
          (case consume E data body w of (reader, body, w) \<Rightarrow>
             (case mil_BodyReadFrom E reader w of
                (Inl err, w) \<Rightarrow> (Some (Wrap ''send body'' err), msg\<lparr>msg_Body := body\<rparr>, w)
              | (Inr (acts, act), w) \<Rightarrow>
                (case check_action E (Inr act) of Some err \<Rightarrow> (Some err, msg\<lparr>msg_Body := body\<rparr>, w)
                 | None \<Rightarrow> applyModifications E U f (msg\<lparr>msg_Body := body\<rparr>) parsed n acts w)))))"
    by (simp only: filter_body_def Let_def pn [symmetric] rc rd prod.case)
  consider e where "e1 = Some e" | e where "e1 = None" "r = Inl e" | d where "e1 = None" "r = Inr d"
    by (metis option.exhaust sum.exhaust)
  then show ?thesis
  proof cases
    case 1
    then show ?thesis using assms(1,2) call by auto
  next
    case 2
    then show ?thesis using assms(2) call inv same_body_inv [OF conjunct1 [OF law]] by (auto simp: sound_def)
  next
    case 3
    obtain c e b2 w3 where cs: "consume E d b w2 = ((c, e), b2, w3)" by (metis surj_pair)
    have sb: "same_body (msg_Body msg) b2" using law consume_same [OF inv(1) cs] same_body_trans by blast
    have so: "sound E (msg\<lparr>msg_Body := b2\<rparr>)" using inv same_body_inv [OF sb] by (simp add: sound_def)
    obtain br w4 where bf: "mil_BodyReadFrom E (c, e) w3 = (br, w4)" by fastforce
    show ?thesis
    proof (cases br)
      case (Inl x)
      then show ?thesis using assms(2) call 3 cs bf so by auto
    next
      case (Inr y)
      obtain acts act where y: "y = (acts, act)" by fastforce
      show ?thesis
      proof (cases "check_action E (Inr act)")
        case (Some x)
        then show ?thesis using assms(2) call 3 cs bf so Inr y by auto
      next
        case None
        then have am: "applyModifications E U f (msg\<lparr>msg_Body := b2\<rparr>) parsed n acts w4 = (err, msg', w')"
          using assms(2) call 3 cs bf Inr y by simp
        have "passed E (c, e) acts" unfolding passed_def using bf Inr y None by blast
        moreover have "prefix (concat c) (drop n (content (msg_Body msg)))"
          "e = None \<longrightarrow> concat c = drop n (content (msg_Body msg))"
          using consume_law [OF inv(1) cs] law 3 by simp_all
        ultimately have "applied U acts msg parsed n msg' \<Longrightarrow> seen_by E U msg msg'"
          using rc 3(1) by (intro seen_byI [OF sh]) simp_all
        then show ?thesis
          using applyModifications_law [OF so am] applied_body [OF same_body_content [OF sb]] by simp
      qed
    qed
  qed
qed

lemma runOne_law:
  assumes "sound E msg" "runOne E U f msg info w = (err, msg', w')"
  shows "sound E msg' \<and> msg_Account msg' = msg_Account msg \<and> (err = None \<longrightarrow> seen_by E U msg msg')"
proof -
  obtain e0 w0 where op: "mil_Session E f (session_macros msg info) w = (e0, w0)" by fastforce
  obtain e1 w1 where rc: "run_cmds E (envelope_cmds E msg info) w0 = (e1, w1)" by fastforce
  obtain r b w2 where hb: "headerBlock E (msg_Body msg) w1 = (r, b, w2)" by (metis surj_pair)
  have inv: "os_laws E" "spool_inv (msg_Body msg)" using assms(1) by (simp_all add: sound_def)
  note sb = headerBlock_same [OF inv(1) hb]
  have so: "sound E (msg\<lparr>msg_Body := b\<rparr>)" using inv same_body_inv [OF sb] by (simp add: sound_def)
  show ?thesis
  proof (cases "e0 = None \<and> e1 = None")
    case False
    then show ?thesis using assms op rc by (auto simp: runOne_def split: option.splits)
  next
    case go: True
    show ?thesis
    proof (cases r)
      case (Inl e)
      then show ?thesis using assms(2) op rc hb go so by (auto simp: runOne_def)
    next
      case (Inr ht)
      obtain h t where ht: "ht = (h, t)" by fastforce
      obtain e m w3 where fb: "filter_body E U f (msg\<lparr>msg_Body := b\<rparr>) h t w2 = (e, m, w3)" by (metis surj_pair)
      have "end_of_header (take maxHeaderBytes (content (msg_Body (msg\<lparr>msg_Body := b\<rparr>)))) = (h, t)"
        using headerBlock_law [OF inv(1) hb] Inr ht by simp
      note law = filter_body_law [OF so fb this]
      have "seen_by E U (msg\<lparr>msg_Body := b\<rparr>) m \<longleftrightarrow> seen_by E U msg m"
        by (simp add: seen_by_def same_body_content [OF sb] applied_body [OF same_body_content [OF sb]])
      then show ?thesis using law assms(2) op rc hb go Inr ht fb by (auto simp: runOne_def)
    qed
  qed
qed


section \<open>A well-formed message\<close>

text \<open>In a message that was printed the first blank line is the one that ends the header block.\<close>

definition as_lines :: "string list \<Rightarrow> bytes" where
  "as_lines ls = concat (map (\<lambda>l. l @ CRLF) ls)"

lemma index_line:
  "LF \<notin> set l \<Longrightarrow> \<not> prefix CRLF rest \<Longrightarrow>
   index_sub (CRLF @ CRLF) (l @ CRLF @ rest) =
     map_option (\<lambda>i. i + length l + 2) (index_sub (CRLF @ CRLF) rest)"
proof (induction l)
  case Nil
  then show ?case by (cases "index_sub (CRLF @ CRLF) rest") auto
next
  case (Cons c l)
  have "\<not> prefix (CRLF @ CRLF) (c # l @ CRLF @ rest)"
    using Cons.prems(1) by (cases l) auto
  then show ?case using Cons by (cases "index_sub (CRLF @ CRLF) rest") auto
qed

lemma index_last_line: "LF \<notin> set l \<Longrightarrow> index_sub (CRLF @ CRLF) (l @ CRLF @ CRLF @ rest) = Some (length l)"
proof (induction l)
  case Nil
  then show ?case by simp
next
  case (Cons c l)
  have "\<not> prefix (CRLF @ CRLF) (c # l @ CRLF @ CRLF @ rest)"
    using Cons.prems by (cases l) auto
  then show ?case using Cons by simp
qed

lemma no_blank_start: "l \<noteq> [] \<Longrightarrow> LF \<notin> set l \<Longrightarrow> \<not> prefix CRLF (l @ CRLF @ rest)"
  by (cases l; cases "tl l") auto

lemma index_lines:
  "ls \<noteq> [] \<Longrightarrow> list_all (\<lambda>l. l \<noteq> [] \<and> LF \<notin> set l) ls \<Longrightarrow>
   index_sub (CRLF @ CRLF) (as_lines ls @ CRLF @ body) = Some (length (as_lines ls) - 2)"
proof (induction ls rule: list_nonempty_induct)
  case (single l)
  then show ?case using index_last_line [of l body] by (simp add: as_lines_def)
next
  case (cons l ls)
  obtain l2 rest where ls: "ls = l2 # rest" using cons.hyps by (cases ls) auto
  have "\<not> prefix CRLF (as_lines ls @ CRLF @ body)"
    using no_blank_start [of l2 "as_lines rest @ CRLF @ body"] cons.prems ls by (simp add: as_lines_def)
  moreover have "2 \<le> length (as_lines ls)" by (simp add: as_lines_def ls)
  ultimately show ?case
    using index_line [of l "as_lines ls @ CRLF @ body"] cons by (simp add: as_lines_def)
qed

lemma print_lines:
  assumes "name_ok (hf_Name h)" "value_ok (hf_Value h)"
  shows "\<exists>ls. ls \<noteq> [] \<and> list_all (\<lambda>l. l \<noteq> [] \<and> LF \<notin> set l) ls \<and> print_field h = as_lines ls"
proof -
  obtain v0 cs where v: "hf_Value h = v0 @ folded cs" "line_ok v0" "list_all cont_ok cs"
    using assms(2) by (auto simp: value_ok_def)
  have "print_field h = as_lines ((hf_Name h @ '': '' @ v0) # cs)"
    using folded_shift [of cs] v(1) by (simp add: print_field_def as_lines_def)
  moreover have "list_all (\<lambda>l. l \<noteq> [] \<and> LF \<notin> set l) ((hf_Name h @ '': '' @ v0) # cs)"
    using assms(1) v(2,3) by (auto simp: name_ok_def line_ok_def cont_ok_def list_all_iff)
  ultimately show ?thesis by (intro exI [of _ "(hf_Name h @ '': '' @ v0) # cs"]) simp
qed

lemma printed_lines:
  "hs \<noteq> [] \<Longrightarrow> list_all (\<lambda>h. name_ok (hf_Name h) \<and> value_ok (hf_Value h)) hs \<Longrightarrow>
   \<exists>ls. ls \<noteq> [] \<and> list_all (\<lambda>l. l \<noteq> [] \<and> LF \<notin> set l) ls \<and> concat (map print_field hs) = as_lines ls"
proof (induction hs rule: list_nonempty_induct)
  case (single h)
  then show ?case using print_lines [of h] by simp
next
  case (cons h hs)
  then obtain ls where ls: "list_all (\<lambda>l. l \<noteq> [] \<and> LF \<notin> set l) ls" "concat (map print_field hs) = as_lines ls"
    by auto
  obtain l where l: "l \<noteq> []" "list_all (\<lambda>l. l \<noteq> [] \<and> LF \<notin> set l) l" "print_field h = as_lines l"
    using print_lines [of h] cons.prems by auto
  show ?case using ls l by (intro exI [of _ "l @ ls"]) (simp add: as_lines_def)
qed

definition writable :: "parsedMessage \<Rightarrow> bool" where
  "writable m \<longleftrightarrow> pm_Headers m \<noteq> [] \<and> headers_ok (pm_Headers m) \<and>
                 length (concat (WriteHeaders m)) \<le> maxHeaderBytes"

lemma message_Bytes_split: "message_Bytes m = concat (WriteHeaders m) @ pm_Body m"
  by (simp add: message_Bytes_def WriteHeaders_def)

lemma shown_printed:
  assumes "writable m"
  shows "shown (message_Bytes m) = (m\<lparr>pm_Body := []\<rparr>, length (concat (WriteHeaders m)))"
proof -
  have ok: "list_all (\<lambda>h. name_ok (hf_Name h) \<and> value_ok (hf_Value h)) (pm_Headers m)" "pm_Headers m \<noteq> []"
    using assms by (simp_all add: writable_def headers_ok_def)
  obtain ls where ls: "ls \<noteq> []" "list_all (\<lambda>l. l \<noteq> [] \<and> LF \<notin> set l) ls"
      "concat (map print_field (pm_Headers m)) = as_lines ls" using printed_lines [OF ok(2,1)] by blast
  define body where "body = take (maxHeaderBytes - length (concat (WriteHeaders m))) (pm_Body m)"
  have "take maxHeaderBytes (message_Bytes m) = concat (WriteHeaders m) @ body"
    using assms by (simp add: message_Bytes_split writable_def body_def)
  then have tk: "take maxHeaderBytes (message_Bytes m) = as_lines ls @ CRLF @ body"
    using ls(3) by (simp add: WriteHeaders_def)
  have "2 \<le> length (as_lines ls)" using ls(1) by (cases ls) (simp_all add: as_lines_def)
  then have n: "length (as_lines ls) - 2 + 4 = length (as_lines ls) + 2" by simp
  have "end_of_header (take maxHeaderBytes (message_Bytes m)) = (concat (WriteHeaders m), True)"
    unfolding end_of_header_def tk index_lines [OF ls(1,2)] option.case n
    using ls(3) by (simp add: WriteHeaders_def)
  moreover have "parseMessage (concat (WriteHeaders m)) = m\<lparr>pm_Body := []\<rparr>"
    using parse_Bytes [of "m\<lparr>pm_Body := []\<rparr>"] assms by (simp add: writable_def message_Bytes_split WriteHeaders_def)
  ultimately show ?thesis by (simp add: shown_def)
qed

section \<open>Properties\<close>

text \<open>The decisions a chain records, one for each filter it has run.\<close>

definition lets_pass :: "Milter \<Rightarrow> metric \<Rightarrow> bool" where
  "lets_pass f m \<longleftrightarrow>
     m = milterDecided (mil_Name f) decisionAccept \<or>
     (mil_FailOpen f \<and> m = milterDecided (mil_Name f) decisionUnavailable)"

definition refuses :: "Milter \<Rightarrow> go_error \<Rightarrow> metric \<Rightarrow> bool" where
  "refuses f err m \<longleftrightarrow>
     (\<exists>e. err = SMTPErr e \<and> m = milterDecided (mil_Name f) decisionReject) \<or>
     (errors_Is_discard err \<and> m = milterDecided (mil_Name f) decisionDiscard) \<or>
     (err = filter_unavailable f \<and> \<not> mil_FailOpen f \<and> m = milterDecided (mil_Name f) decisionUnavailable)"

inductive chain_outcome :: "milterChain \<Rightarrow> go_error option \<Rightarrow> metric list \<Rightarrow> bool" where
  all_ran: "chain_outcome [] None []"
| goes_on: "lets_pass f m \<Longrightarrow> chain_outcome fs err ms \<Longrightarrow> chain_outcome (f # fs) err (m # ms)"
| refused: "refuses f err m \<Longrightarrow> chain_outcome (f # fs) (Some err) [m]"

lemma run_chain_outcome:
  "run_chain E U fs msg info w = (err, ms, msg', w') \<Longrightarrow> chain_outcome fs err ms"
proof (induction fs arbitrary: msg w err ms msg' w')
  case (Cons f fs)
  obtain r m1 w1 where one: "runOne E U f msg info w = (r, m1, w1)" by (metis surj_pair)
  obtain r2 ms2 m2 w2 where rest: "run_chain E U fs m1 info w1 = (r2, ms2, m2, w2)" by (metis surj_pair)
  note IH = Cons.IH [OF rest]
  show ?case
  proof (cases r)
    case None
    then show ?thesis using Cons.prems one rest IH by (auto simp: lets_pass_def intro: goes_on)
  next
    case (Some e)
    then show ?thesis using Cons.prems one rest IH
      by (auto split: option.splits if_splits intro: goes_on refused simp: refuses_def lets_pass_def)
  qed
qed (auto intro: all_ran)

lemma chain_outcome_accepts: "chain_outcome fs None ms \<Longrightarrow> list_all2 lets_pass fs ms"
  by (induction fs "None :: go_error option" ms rule: chain_outcome.induct) simp_all

lemma chain_outcome_refuses:
  "chain_outcome fs (Some e) ms \<Longrightarrow>
   \<exists>i < length fs. ms \<noteq> [] \<and> list_all2 lets_pass (take i fs) (butlast ms) \<and> refuses (fs ! i) e (last ms)"
proof (induction fs "Some e" ms rule: chain_outcome.induct)
  case (goes_on f m fs ms)
  then obtain i where "i < length fs" "ms \<noteq> []" "list_all2 lets_pass (take i fs) (butlast ms)"
    "refuses (fs ! i) e (last ms)" by blast
  then show ?case using goes_on(1) by (intro exI [of _ "Suc i"]) simp
qed auto

lemma run_chain_sound:
  "sound E msg \<Longrightarrow> run_chain E U fs msg info w = (err, ms, msg', w') \<Longrightarrow>
   sound E msg' \<and> msg_Account msg' = msg_Account msg"
proof (induction fs arbitrary: msg w err ms)
  case (Cons f fs)
  obtain r m1 w1 where one: "runOne E U f msg info w = (r, m1, w1)" by (metis surj_pair)
  obtain r2 ms2 m2 w2 where rest: "run_chain E U fs m1 info w1 = (r2, ms2, m2, w2)" by (metis surj_pair)
  note law = runOne_law [OF Cons.prems(1) one]
  show ?case
  proof (cases "m2 = msg' \<and> w2 = w'")
    case True
    then show ?thesis using Cons.IH [of m1 w1 r2 ms2] Cons.prems(2) one rest law
      by (auto split: option.splits if_splits)
  next
    case False
    then show ?thesis using Cons.prems(2) one rest law by (auto split: option.splits if_splits)
  qed
qed simp

text \<open>Modifications seen as edits of the message itself.\<close>

definition edited :: "unicode \<Rightarrow> modify_action list \<Rightarrow> string \<Rightarrow> string list \<Rightarrow> parsedMessage \<Rightarrow> amsg" where
  "edited U acts from to m =
     fold (amend U) acts
       \<lparr>am_From = from, am_To = to, am_parsed = m\<lparr>pm_Body := []\<rparr>, am_Body = pm_Body m,
        am_Replaced = False, am_Changed = False\<rparr>"

lemma amend_unchanged:
  "\<not> am_Changed (fold (amend U) acts a) \<Longrightarrow>
   am_parsed (fold (amend U) acts a) = am_parsed a \<and> am_Body (fold (amend U) acts a) = am_Body a \<and>
   \<not> am_Changed a"
proof (induction acts arbitrary: a)
  case (Cons act acts)
  have "\<not> am_Changed (amend U act a)" using Cons by auto
  then have "\<not> am_Changed a \<and> am_parsed (amend U act a) = am_parsed a \<and> am_Body (amend U act a) = am_Body a"
    by (cases act) simp_all
  then show ?case using Cons by auto
qed simp

lemma applied_printed:
  assumes "writable m" "content (msg_Body msg) = message_Bytes m"
    and "applied U acts msg (m\<lparr>pm_Body := []\<rparr>) (length (concat (WriteHeaders m))) msg'"
  defines "a \<equiv> edited U acts (msg_From msg) (msg_To msg) m"
  shows "msg_From msg' = am_From a" "msg_To msg' = am_To a"
    "content (msg_Body msg') = message_Bytes ((am_parsed a)\<lparr>pm_Body := am_Body a\<rparr>)"
proof -
  have am: "amended U acts msg (m\<lparr>pm_Body := []\<rparr>) (length (concat (WriteHeaders m))) = a"
    by (simp add: amended_def a_def edited_def assms(2) message_Bytes_split)
  show "msg_From msg' = am_From a" "msg_To msg' = am_To a" using assms(3) by (simp_all add: applied_def am Let_def)
  show "content (msg_Body msg') = message_Bytes ((am_parsed a)\<lparr>pm_Body := am_Body a\<rparr>)"
    using assms(2,3) amend_unchanged [of U acts] unfolding applied_def am Let_def a_def edited_def
    by (auto simp: message_Bytes_def WriteHeaders_def split: if_splits)
qed

text \<open>Filters for demonstrations: every call is answered with "continue", the final modifications are given,
  and one filter, by name, cannot be reached.\<close>

definition demo_milter :: "modify_action list \<Rightarrow> string \<Rightarrow> nat milter_env" where
  "demo_milter acts down =
     relay_env.extend (demo_relay (\<lambda>_. None) (\<lambda>d. ([d], None)))
       (milter_env.fields
          (\<lambda>f _ w. (if mil_Name f = down then Some (Plain ''connection refused'') else None, w))
          (\<lambda>_ w. (Inr None, w)) (\<lambda>_ w. (Inr (acts, None), w)) (\<lambda>w. w) (\<lambda>a. ma_SMTPCode a \<ge> 400) (\<lambda>_. False))"

lemma demo_milter_laws [simp]: "os_laws (demo_milter acts down)"
  by (simp add: os_laws_def demo_milter_def demo_relay_def relay_env.defs milter_env.defs)

definition sample_filter :: "string \<Rightarrow> bool \<Rightarrow> Milter" where
  "sample_filter name open =
     \<lparr>mil_Name = name, mil_Address = ''inet:filter:7357'', mil_FailOpen = open, mil_Timeout = 0\<rparr>"

definition sample_info :: sessionInfo where
  "sample_info =
     \<lparr>si_Hostname = ''app'', si_RemoteIP = ''10.0.0.7'', si_RemotePort = 40000, si_TLSVersion = ''TLS 1.3'',
      si_TLSCipher = ''TLS_AES_128_GCM_SHA256'', si_AuthUser = ''app'', si_MTAName = ''gw''\<rparr>"

lemma sample_message_sound: "os_laws E \<Longrightarrow> sound E sample_message"
  by (simp add: sound_def sample_message_def spool_inv_def content_def new_spool_def sample_body_def)





text \<open>
  When the header block holds a line without a colon, the parser stops there and calls the rest a body, but
  the body a rewritten message gets starts after the block: the lines between are in neither. A filter that
  adds a header to such a message removes them.
\<close>

lemma rewrite_loses_header_lines:
  "let body = ''Subject: hi'' @ CRLF @ ''not a header'' @ CRLF @ ''To: b@x.test'' @ CRLF @ CRLF @ ''text'';
       msg = sample_message\<lparr>msg_Body := (new_spool [] 100)\<lparr>sp_buf := body, sp_n := length body\<rparr>\<rparr>
   in case runOne (demo_milter [ActionAddHeader ''X-Spam'' ''no''] []) ascii_unicode
             (sample_filter ''rspamd'' False) msg sample_info 0 of
        (err, msg', _) \<Rightarrow>
          err = None \<and>
          content (msg_Body msg') = ''Subject: hi'' @ CRLF @ ''X-Spam: no'' @ CRLF @ CRLF @ ''text''"
  by code_simp

text \<open>
  The search for the end of the header block prefers a blank line with carriage returns wherever it is, so a
  blank line of bare line feeds before it hides what stands between the two: the parser ends the headers at
  the first, the body starts after the second, and no filter is shown the text between.
\<close>

lemma filter_blind_spot:
  "shown (''Subject: hi'' @ [LF, LF] @ ''unseen'' @ CRLF @ CRLF @ ''text'') =
     (\<lparr>pm_Headers = [\<lparr>hf_Name = ''Subject'', hf_Value = ''hi''\<rparr>], pm_Body = ''unseen'' @ CRLF @ CRLF\<rparr>, 23)"
  by code_simp

end
