(* ===== verification/Dkim.thy ===== *)
theory Dkim
  imports Milter_Chain Policy "HOL-Library.AList"
begin

text \<open>
  \<^verbatim>\<open>internal/gateway/dkim.go\<close> and \<^verbatim>\<open>dkimgen.go\<close>: loading signing keys, choosing one for a message,
  signing, and generating keys. The decoders of the cryptographic packages and the files are one record of
  arguments; the signer of the go-msgauth package is one more layer of the environment.
\<close>


section \<open>Keys\<close>

record rsa_key =
  rsa_N :: nat
  rsa_D :: nat

datatype crypto_key = RSAKey rsa_key | Ed25519Key bytes | OtherKey string

record keyring =
  kr_ReadFile :: "string \<Rightarrow> bytes result"
  kr_pem_Decode :: "bytes \<Rightarrow> bytes option"
  kr_PKCS8 :: "bytes \<Rightarrow> crypto_key option"
  kr_PKCS1 :: "bytes \<Rightarrow> rsa_key option"

definition minRSABits :: nat where "minRSABits = 2048"

definition checkRSASize :: "rsa_key \<Rightarrow> crypto_key result" where
  "checkRSASize k =
     (if bit_len (rsa_N k) < minRSABits
      then Inl (Plain (''RSA DKIM key is '' @ show_nat (bit_len (rsa_N k)) @ '' bits, want at least '' @
                 show_nat minRSABits @
                 '': a key this size can be factored, and a factored key signs mail for your domain''))
      else Inr (RSAKey k))"

definition parsePrivateKey :: "keyring \<Rightarrow> bytes \<Rightarrow> crypto_key result" where
  "parsePrivateKey R block =
     (case kr_PKCS8 R block of
        Some (RSAKey k) \<Rightarrow> checkRSASize k
      | Some (Ed25519Key k) \<Rightarrow> Inr (Ed25519Key k)
      | Some (OtherKey t) \<Rightarrow> Inl (Plain (''unsupported key type '' @ t @ '', want RSA or Ed25519''))
      | None \<Rightarrow>
          (case kr_PKCS1 R block of
             Some k \<Rightarrow> checkRSASize k
           | None \<Rightarrow> Inl (Plain ''key is neither PKCS#8 nor PKCS#1'')))"

definition loadDKIMPrivateKey :: "keyring \<Rightarrow> DKIMKey \<Rightarrow> crypto_key result" where
  "loadDKIMPrivateKey R k =
     (case (if dk_PrivateKeyFile k \<noteq> [] then kr_ReadFile R (dk_PrivateKeyFile k)
            else Inr (dk_PrivateKeyPEM k)) of
        Inl err \<Rightarrow> Inl (Wrap ''read privateKeyFile'' err)
      | Inr raw \<Rightarrow>
          if raw = [] then Inl (Plain ''privateKeyPEM or privateKeyFile is required'')
          else (case kr_pem_Decode R raw of
                  None \<Rightarrow> Inl (Plain ''no PEM block found'')
                | Some block \<Rightarrow> parsePrivateKey R block))"

definition headerKeysFor :: "string list \<Rightarrow> string list" where
  "headerKeysFor declared = declared"

record loadedDKIMKey =
  lk_domain :: string
  lk_selector :: string
  lk_signer :: crypto_key
  lk_headerKeys :: "string list"

type_synonym dkimSigner = "(string \<times> loadedDKIMKey) list"

definition load_key :: "keyring \<Rightarrow> unicode \<Rightarrow> nat \<Rightarrow> DKIMKey \<Rightarrow> dkimSigner \<Rightarrow> dkimSigner result" where
  "load_key R U i k s =
     (if dk_Domain k = [] \<or> dk_Selector k = []
      then Inl (Plain (''dkim['' @ show_nat i @ '']: domain and selector are required''))
      else (case loadDKIMPrivateKey R k of
              Inl err \<Rightarrow> Inl (Wrap (''dkim '' @ dk_Selector k @ ''/'' @ dk_Domain k) err)
            | Inr signer \<Rightarrow>
                (let domain = to_lower U (dk_Domain k) in
                 if map_of s domain \<noteq> None
                 then Inl (Plain (''dkim: two keys for domain '' @ domain))
                 else Inr (AList.update domain
                             \<lparr>lk_domain = domain, lk_selector = dk_Selector k, lk_signer = signer,
                              lk_headerKeys = headerKeysFor (dk_HeaderKeys k)\<rparr> s))))"

fun load_keys :: "keyring \<Rightarrow> unicode \<Rightarrow> nat \<Rightarrow> DKIMKey list \<Rightarrow> dkimSigner \<Rightarrow> dkimSigner result" where
  "load_keys R U i [] s = Inr s"
| "load_keys R U i (k # ks) s =
     (case load_key R U i k s of
        Inl err \<Rightarrow> Inl err
      | Inr s \<Rightarrow> load_keys R U (Suc i) ks s)"

definition newDKIMSigner :: "keyring \<Rightarrow> unicode \<Rightarrow> DKIMKey list \<Rightarrow> dkimSigner result" where
  "newDKIMSigner R U keys = load_keys R U 0 keys []"

definition signer_empty :: "dkimSigner \<Rightarrow> bool" where
  "signer_empty s \<longleftrightarrow> length s = 0"


section \<open>Signing\<close>

record sign_options =
  so_Domain :: string
  so_Selector :: string
  so_Signer :: crypto_key
  so_HeaderKeys :: "string list"

text \<open>\<^verbatim>\<open>dkim.Sign\<close> is given what the reader delivers; it writes chunks and reports how it ended.\<close>

record 'w dkim_env = "'w milter_env" +
  dkim_Sign :: "sign_options \<Rightarrow> bytes list \<times> go_error option \<Rightarrow> 'w \<Rightarrow>
                  (bytes list \<times> go_error option) \<times> 'w"

definition domainOf :: "unicode \<Rightarrow> string \<Rightarrow> string" where
  "domainOf U address =
     (let addr =
        (case last_index LT address of
           None \<Rightarrow> address
         | Some start \<Rightarrow>
             (case index_char GT (drop start address) of
                None \<Rightarrow> address
              | Some e \<Rightarrow>
                  if e > 0 then take (e - 1) (drop (start + 1) address) else address))
      in case cut AT addr of
           (_, domain, found) \<Rightarrow> if \<not> found then [] else to_lower U (trim_space domain))"

definition keyFor ::
  "('w, 'm) os_env_scheme \<Rightarrow> unicode \<Rightarrow> dkimSigner \<Rightarrow> Message \<Rightarrow> 'w \<Rightarrow>
     loadedDKIMKey option \<times> Message \<times> 'w" where
  "keyFor E U s msg w =
     (case map_of s (domainOf U (msg_From msg)) of
        Some key \<Rightarrow> (Some key, msg, w)
      | None \<Rightarrow>
          (case headerBlock E (msg_Body msg) w of
             (Inl err, body, w) \<Rightarrow> (None, msg\<lparr>msg_Body := body\<rparr>, w)
           | (Inr (header, _), body, w) \<Rightarrow>
               ((case find (\<lambda>h. equal_fold U (hf_Name h) ''From'') (pm_Headers (parseMessage header)) of
                   None \<Rightarrow> None
                 | Some h \<Rightarrow> map_of s (domainOf U (hf_Value h))),
                msg\<lparr>msg_Body := body\<rparr>, w)))"

definition sign_with ::
  "('w, 'm) dkim_env_scheme \<Rightarrow> loadedDKIMKey \<Rightarrow> Message \<Rightarrow> 'w \<Rightarrow>
     go_error option \<times> metric list \<times> Message \<times> 'w" where
  "sign_with E key msg w =
     (let opts = \<lparr>so_Domain = lk_domain key, so_Selector = lk_selector key, so_Signer = lk_signer key,
                  so_HeaderKeys = lk_headerKeys key\<rparr>
      in case Reader E (msg_Body msg) w of
           (Inl err, body, w) \<Rightarrow>
             (Some err, [dkimResult (lk_domain key) dkimFailed], msg\<lparr>msg_Body := body\<rparr>, w)
         | (Inr data, body, w) \<Rightarrow>
           (case consume E data body w of
              (reader, body, w) \<Rightarrow>
                (case dkim_Sign E opts reader w of
                   ((chunks, serr), w) \<Rightarrow>
                     (case io_Copy (Write E) chunks serr (sibling body) w of
                        (Some err, signed, w) \<Rightarrow>
                          (Some (Wrap (''sign for '' @ lk_domain key) err),
                           [dkimResult (lk_domain key) dkimFailed], msg\<lparr>msg_Body := body\<rparr>,
                           snd (spool_Close E signed w))
                      | (None, signed, w) \<Rightarrow>
                          (None, [dkimResult (lk_domain key) dkimSigned], msg\<lparr>msg_Body := signed\<rparr>,
                           snd (spool_Close E body w))))))"

definition sign ::
  "('w, 'm) dkim_env_scheme \<Rightarrow> unicode \<Rightarrow> dkimSigner \<Rightarrow> Message \<Rightarrow> senderPolicy \<Rightarrow> 'w \<Rightarrow>
     go_error option \<times> metric list \<times> Message \<times> 'w" where
  "sign E U s msg policy w =
     (case keyFor E U s msg w of
        (None, msg, w) \<Rightarrow> (None, [], msg, w)
      | (Some key, msg, w) \<Rightarrow>
          if \<not> canSign U policy (lk_domain key)
          then (None, [dkimResult (lk_domain key) dkimRefused], msg, w)
          else sign_with E key msg w)"


section \<open>Generating keys\<close>

record GeneratedDKIMKey =
  gk_PrivateKeyPEM :: string
  gk_DNSRecordName :: string
  gk_DNSRecordValue :: string

text \<open>The generators and encoders of the standard library: a private key with its public part as it is
  published, the PKCS#8 form, PEM and base64.\<close>

record keygen =
  kg_rsa :: "nat \<Rightarrow> rsa_key result"
  kg_ed25519 :: "(bytes \<times> bytes) result"
  kg_MarshalPKCS8 :: "crypto_key \<Rightarrow> bytes result"
  kg_MarshalPKIX :: "rsa_key \<Rightarrow> bytes result"
  kg_pem_Encode :: "bytes \<Rightarrow> string"
  kg_base64 :: "bytes \<Rightarrow> string"

definition key_material :: "keygen \<Rightarrow> string \<Rightarrow> (bytes \<times> bytes \<times> string) result" where
  "key_material G algorithm =
     (if algorithm = [] \<or> algorithm = ''rsa'' then
        (case kg_rsa G 2048 of
           Inl err \<Rightarrow> Inl (Wrap ''generate RSA key'' err)
         | Inr key \<Rightarrow>
             (case kg_MarshalPKCS8 G (RSAKey key) of
                Inl err \<Rightarrow> Inl err
              | Inr privDER \<Rightarrow>
                  (case kg_MarshalPKIX G key of
                     Inl err \<Rightarrow> Inl err
                   | Inr pubDER \<Rightarrow> Inr (privDER, pubDER, ''rsa''))))
      else if algorithm = ''ed25519'' then
        (case kg_ed25519 G of
           Inl err \<Rightarrow> Inl (Wrap ''generate Ed25519 key'' err)
         | Inr (pub, priv) \<Rightarrow>
             (case kg_MarshalPKCS8 G (Ed25519Key priv) of
                Inl err \<Rightarrow> Inl err
              | Inr privDER \<Rightarrow> Inr (privDER, pub, ''ed25519'')))
      else Inl (Plain (''unknown algorithm '' @ algorithm @ '', want rsa or ed25519'')))"

definition GenerateDKIMKey :: "keygen \<Rightarrow> string \<Rightarrow> string \<Rightarrow> string \<Rightarrow> GeneratedDKIMKey result" where
  "GenerateDKIMKey G algorithm domain selector =
     (case key_material G algorithm of
        Inl err \<Rightarrow> Inl err
      | Inr (privDER, pubDER, keyType) \<Rightarrow>
          Inr \<lparr>gk_PrivateKeyPEM = kg_pem_Encode G privDER,
               gk_DNSRecordName = selector @ ''._domainkey.'' @ domain,
               gk_DNSRecordValue = ''v=DKIM1; k='' @ keyType @ ''; p='' @ kg_base64 G pubDER\<rparr>)"


section \<open>What is loaded\<close>

definition strong_key :: "crypto_key \<Rightarrow> bool" where
  "strong_key k \<longleftrightarrow>
     (case k of RSAKey r \<Rightarrow> 2 ^ 2047 \<le> rsa_N r | Ed25519Key _ \<Rightarrow> True | OtherKey _ \<Rightarrow> False)"

lemma checkRSASize_strong: "checkRSASize k = Inr s \<Longrightarrow> strong_key s"
  using bit_len_le [of "rsa_N k" 2047]
  by (auto simp: checkRSASize_def strong_key_def minRSABits_def split: if_splits)

lemma load_strong: "loadDKIMPrivateKey R k = Inr s \<Longrightarrow> strong_key s"
  by (auto simp: loadDKIMPrivateKey_def parsePrivateKey_def strong_key_def
      split: if_splits sum.splits option.splits crypto_key.splits dest: checkRSASize_strong)

definition loadable :: "keyring \<Rightarrow> DKIMKey \<Rightarrow> bool" where
  "loadable R k \<longleftrightarrow> dk_Domain k \<noteq> [] \<and> dk_Selector k \<noteq> [] \<and> (\<exists>s. loadDKIMPrivateKey R k = Inr s)"

definition loaded :: "keyring \<Rightarrow> unicode \<Rightarrow> DKIMKey \<Rightarrow> loadedDKIMKey" where
  "loaded R U k =
     \<lparr>lk_domain = to_lower U (dk_Domain k), lk_selector = dk_Selector k,
      lk_signer = (case loadDKIMPrivateKey R k of Inr s \<Rightarrow> s | Inl _ \<Rightarrow> OtherKey []),
      lk_headerKeys = dk_HeaderKeys k\<rparr>"

lemma load_key_iff:
  "load_key R U i k s = Inr s' \<longleftrightarrow>
     loadable R k \<and> map_of s (to_lower U (dk_Domain k)) = None \<and>
     s' = AList.update (to_lower U (dk_Domain k)) (loaded R U k) s"
  by (cases "loadDKIMPrivateKey R k")
    (auto simp: load_key_def loadable_def loaded_def headerKeysFor_def Let_def)

lemma load_keys_iff:
  "(\<exists>s'. load_keys R U i ks s = Inr s') \<longleftrightarrow>
     list_all (loadable R) ks \<and> distinct (map (\<lambda>k. to_lower U (dk_Domain k)) ks) \<and>
     (\<forall>k \<in> set ks. map_of s (to_lower U (dk_Domain k)) = None)"
proof (induction ks arbitrary: i s)
  case (Cons k ks)
  show ?case
  proof (cases "load_key R U i k s")
    case (Inl e)
    then show ?thesis using load_key_iff [of R U i k s] by auto
  next
    case (Inr s1)
    then show ?thesis using Cons.IH [of "Suc i" s1] load_key_iff [of R U i k s s1]
      by (auto simp: update_conv' image_iff split: if_splits)
  qed
qed simp

lemma load_keys_result:
  "load_keys R U i ks s = Inr s' \<Longrightarrow>
   map_of s' = fold (\<lambda>k m. m(to_lower U (dk_Domain k) \<mapsto> loaded R U k)) ks (map_of s)"
proof (induction ks arbitrary: i s)
  case (Cons k ks)
  then obtain s1 where "load_key R U i k s = Inr s1" "load_keys R U (Suc i) ks s1 = Inr s'"
    by (auto split: sum.splits)
  then show ?case using Cons.IH load_key_iff [of R U i k s s1] by (simp add: update_conv')
qed simp

lemma signer_lookup:
  assumes "newDKIMSigner R U keys = Inr s" "map_of s d = Some key"
  shows "\<exists>k \<in> set keys. d = to_lower U (dk_Domain k) \<and> key = loaded R U k \<and> lk_domain key = d"
  using assms(2) fold_upd_some [of "\<lambda>k. to_lower U (dk_Domain k)" "loaded R U" keys Map.empty d key]
    load_keys_result [OF assms(1) [unfolded newDKIMSigner_def]]
  by (auto simp: loaded_def)


section \<open>What is signed\<close>

text \<open>The documented behaviour of the signer: it succeeds only on a message it could read to the end, and
  what it then writes is that message with a \<^verbatim>\<open>DKIM-Signature\<close> field in front.\<close>

definition with_signature :: "string \<Rightarrow> bytes \<Rightarrow> bytes" where
  "with_signature sig c = ''DKIM-Signature: '' @ sig @ CRLF @ c"

definition dkim_laws :: "('w, 'm) dkim_env_scheme \<Rightarrow> bool" where
  "dkim_laws E \<longleftrightarrow>
     (\<forall>opts c e w chunks w'. dkim_Sign E opts (c, e) w = ((chunks, None), w') \<longrightarrow>
        e = None \<and> (\<exists>sig. concat chunks = with_signature sig (concat c)))"

lemma dkim_SignD:
  "dkim_laws E \<Longrightarrow> dkim_Sign E opts (c, e) w = ((chunks, None), w') \<Longrightarrow>
   e = None \<and> (\<exists>sig. concat chunks = with_signature sig (concat c))"
  unfolding dkim_laws_def by blast

text \<open>The domains a message is sent from: its envelope sender's and its first \<^verbatim>\<open>From\<close> field's.\<close>

definition from_header :: "unicode \<Rightarrow> bytes \<Rightarrow> string option" where
  "from_header U c =
     map_option hf_Value
       (find (\<lambda>h. equal_fold U (hf_Name h) ''From'')
          (pm_Headers (parseMessage (fst (end_of_header (take maxHeaderBytes c))))))"

definition sent_from :: "unicode \<Rightarrow> Message \<Rightarrow> string \<Rightarrow> bool" where
  "sent_from U msg d \<longleftrightarrow>
     domainOf U (msg_From msg) = d \<or> (\<exists>v. from_header U (content (msg_Body msg)) = Some v \<and> domainOf U v = d)"

lemma keyFor_law:
  assumes "os_laws E" "keyFor E U s msg w = (k, msg', w')"
  shows "(\<exists>body. msg' = msg\<lparr>msg_Body := body\<rparr> \<and> same_body (msg_Body msg) body) \<and>
         (\<forall>key. k = Some key \<longrightarrow> (\<exists>d. map_of s d = Some key \<and> sent_from U msg d))"
proof (cases "map_of s (domainOf U (msg_From msg))")
  case (Some key)
  then show ?thesis using assms(2)
    by (auto simp: keyFor_def sent_from_def intro!: exI [of _ "msg_Body msg"])
next
  case None
  obtain r b w1 where hb: "headerBlock E (msg_Body msg) w = (r, b, w1)" by (metis surj_pair)
  note law = headerBlock_same [OF assms(1) hb] headerBlock_law [OF assms(1) hb]
  show ?thesis
  proof (cases r)
    case (Inl e)
    then show ?thesis using assms(2) None hb law(1) by (auto simp: keyFor_def)
  next
    case (Inr ht)
    then have ht: "ht = end_of_header (take maxHeaderBytes (content (msg_Body msg)))" using law(2) by simp
    have "msg' = msg\<lparr>msg_Body := b\<rparr>" using assms(2) None hb Inr by (auto simp: keyFor_def split: prod.splits)
    moreover have "\<exists>d. map_of s d = Some key \<and> sent_from U msg d" if "k = Some key" for key
      using assms(2) None hb Inr that unfolding sent_from_def from_header_def ht [symmetric]
      by (auto simp: keyFor_def split: prod.splits option.splits)
    ultimately show ?thesis using law(1) by blast
  qed
qed

lemma sign_with_law:
  assumes "sound E msg" "dkim_laws E" "sign_with E key msg w = (err, ms, msg', w')"
  shows "(\<exists>body. msg' = msg\<lparr>msg_Body := body\<rparr> \<and> spool_inv body \<and>
            (if err = None then \<exists>sig. content body = with_signature sig (content (msg_Body msg))
             else content body = content (msg_Body msg))) \<and>
         ms = [dkimResult (lk_domain key) (if err = None then dkimSigned else dkimFailed)]"
proof -
  let ?opts = "\<lparr>so_Domain = lk_domain key, so_Selector = lk_selector key, so_Signer = lk_signer key,
                so_HeaderKeys = lk_headerKeys key\<rparr>"
  have inv: "os_laws E" "spool_inv (msg_Body msg)" using assms(1) by (simp_all add: sound_def)
  obtain r b w1 where rd: "Reader E (msg_Body msg) w = (r, b, w1)" by (metis surj_pair)
  note sb = Reader_same [OF rd]
  show ?thesis
  proof (cases r)
    case (Inl e)
    then show ?thesis
      using assms(3) rd same_body_inv [OF sb inv(2)] same_body_content [OF sb] by (auto simp: sign_with_def)
  next
    case (Inr d)
    obtain c e b2 w2 where cs: "consume E d b w1 = ((c, e), b2, w2)" by (metis surj_pair)
    have sb2: "same_body (msg_Body msg) b2" using same_body_trans [OF sb consume_same [OF inv(1) cs]] .
    obtain chunks serr w3 where sg: "dkim_Sign E ?opts (c, e) w2 = ((chunks, serr), w3)" by (metis surj_pair)
    obtain cerr out w4 where cp: "io_Copy (Write E) chunks serr (sibling b2) w3 = (cerr, out, w4)"
      by (metis surj_pair)
    show ?thesis
    proof (cases cerr)
      case (Some x)
      then show ?thesis
        using assms(3) rd Inr cs sg cp same_body_inv [OF sb2 inv(2)] same_body_content [OF sb2]
        by (auto simp: sign_with_def Let_def)
    next
      case None
      note law = spool_store.copy_law [OF sibling_ok [OF inv(1)] cp]
      have "serr = None" "content out = concat chunks" "spool_inv out"
        using law None by (auto simp: spool_ok_def)
      moreover from this have "e = None" "\<exists>sig. concat chunks = with_signature sig (concat c)"
        using dkim_SignD [OF assms(2)] sg by blast+
      moreover have "e = None \<longrightarrow> concat c = content (msg_Body msg)"
        using consume_law [OF inv(1) cs] Reader_law [OF rd] Inr by simp
      ultimately show ?thesis using assms(3) rd Inr cs sg cp None
        by (auto simp: sign_with_def Let_def intro!: exI [of _ out])
    qed
  qed
qed

lemma sign_law:
  assumes "newDKIMSigner R U keys = Inr s" "sound E msg" "dkim_laws E"
    and "sign E U s msg policy w = (err, ms, msg', w')"
  shows "msg_From msg' = msg_From msg \<and> msg_To msg' = msg_To msg \<and> msg_Account msg' = msg_Account msg \<and>
    sound E msg' \<and>
    (content (msg_Body msg') \<noteq> content (msg_Body msg) \<longrightarrow>
       (\<exists>k \<in> set keys. \<exists>sig.
          sent_from U msg (to_lower U (dk_Domain k)) \<and> canSign U policy (to_lower U (dk_Domain k)) \<and>
          content (msg_Body msg') = with_signature sig (content (msg_Body msg)) \<and>
          err = None \<and> ms = [dkimResult (to_lower U (dk_Domain k)) dkimSigned])) \<and>
    (err \<noteq> None \<longrightarrow> (\<exists>d. ms = [dkimResult d dkimFailed]))"
proof -
  have inv: "os_laws E" "spool_inv (msg_Body msg)" using assms(2) by (simp_all add: sound_def)
  obtain k m1 w1 where kf: "keyFor E U s msg w = (k, m1, w1)" by (metis surj_pair)
  from keyFor_law [OF inv(1) kf] obtain body where m1: "m1 = msg\<lparr>msg_Body := body\<rparr>"
    and sb: "same_body (msg_Body msg) body"
    and key: "\<forall>key. k = Some key \<longrightarrow> (\<exists>d. map_of s d = Some key \<and> sent_from U msg d)" by blast
  have so: "sound E m1" using inv same_body_inv [OF sb] m1 by (simp add: sound_def)
  have c: "content (msg_Body m1) = content (msg_Body msg)" using same_body_content [OF sb] m1 by simp
  show ?thesis
  proof (cases "\<exists>key. k = Some key \<and> canSign U policy (lk_domain key)")
    case False
    then show ?thesis using assms(4) kf so m1 c by (auto simp: sign_def split: option.splits if_splits)
  next
    case True
    then obtain key where k: "k = Some key" and can: "canSign U policy (lk_domain key)" by blast
    have sw: "sign_with E key m1 w1 = (err, ms, msg', w')" using assms(4) kf k can by (simp add: sign_def)
    obtain d where d: "map_of s d = Some key" "sent_from U msg d" using key k by blast
    obtain dk where dk: "dk \<in> set keys" "d = to_lower U (dk_Domain dk)" "lk_domain key = d"
      using signer_lookup [OF assms(1) d(1)] by blast
    from sign_with_law [OF so assms(3) sw] obtain b where b: "msg' = m1\<lparr>msg_Body := b\<rparr>" "spool_inv b"
      "if err = None then \<exists>sig. content b = with_signature sig (content (msg_Body msg))
       else content b = content (msg_Body msg)"
      "ms = [dkimResult (lk_domain key) (if err = None then dkimSigned else dkimFailed)]" unfolding c by blast
    show ?thesis
    proof (cases err)
      case None
      then show ?thesis using b m1 inv dk d(2) can by (auto simp: sound_def intro!: bexI [of _ dk])
    next
      case (Some e)
      then show ?thesis using b m1 inv by (simp add: sound_def)
    qed
  qed
qed


section \<open>Properties\<close>

text \<open>A layer for demonstrations: a fixed signature, and keys that are their own encoding.\<close>

definition demo_dkim :: "nat dkim_env" where
  "demo_dkim =
     milter_env.extend (demo_milter [] [])
       (dkim_env.fields (\<lambda>_ r w. (case r of (c, None) \<Rightarrow> (with_signature ''v=1'' [] # c, None)
                                           | (c, Some e) \<Rightarrow> ([], Some e), w)))"

lemma demo_dkim_laws [simp]: "os_laws demo_dkim" "dkim_laws demo_dkim"
  by (auto simp: os_laws_def dkim_laws_def demo_dkim_def demo_milter_def demo_relay_def relay_env.defs
      milter_env.defs dkim_env.defs with_signature_def split: option.splits)

definition demo_keyring :: keyring where
  "demo_keyring =
     \<lparr>kr_ReadFile = (\<lambda>_. Inl (Plain ''no such file'')), kr_pem_Decode = Some,
      kr_PKCS8 = (\<lambda>b. Some (Ed25519Key b)), kr_PKCS1 = (\<lambda>_. None)\<rparr>"

definition sample_dkim :: DKIMKey where
  "sample_dkim =
     \<lparr>dk_Domain = ''Example.TEST'', dk_Selector = ''mail'', dk_PrivateKeyPEM = ''secret'',
      dk_PrivateKeyFile = [], dk_HeaderKeys = []\<rparr>"



text \<open>A signer is built exactly when every key names a domain and a selector and can be loaded, and no
  two are for the same domain in any spelling. It then holds the keys of the configuration and no others,
  each an Ed25519 key or an RSA key with a modulus of at least 2048 bits.\<close>

theorem newDKIMSigner_exact:
  "((\<exists>s. newDKIMSigner R U keys = Inr s) \<longleftrightarrow>
      list_all (loadable R) keys \<and> distinct (map (\<lambda>k. to_lower U (dk_Domain k)) keys)) \<and>
   (\<forall>s. newDKIMSigner R U keys = Inr s \<longrightarrow>
      (\<forall>d key. map_of s d = Some key \<longleftrightarrow>
         (\<exists>k \<in> set keys. d = to_lower U (dk_Domain k) \<and> key = loaded R U k)) \<and>
      (\<forall>d key. map_of s d = Some key \<longrightarrow> lk_domain key = d \<and> strong_key (lk_signer key)))"
proof -
  have built: "(\<exists>s. newDKIMSigner R U keys = Inr s) \<longleftrightarrow>
      list_all (loadable R) keys \<and> distinct (map (\<lambda>k. to_lower U (dk_Domain k)) keys)"
    using load_keys_iff [of R U 0 keys "[]"] by (simp add: newDKIMSigner_def)
  have holds: "map_of s d = Some key \<longleftrightarrow> (\<exists>k \<in> set keys. d = to_lower U (dk_Domain k) \<and> key = loaded R U k)"
    if s: "newDKIMSigner R U keys = Inr s" for s d key
  proof -
    have "distinct (map (\<lambda>k. to_lower U (dk_Domain k)) keys)" using built s by blast
    then have "map_of s (to_lower U (dk_Domain k)) = Some (loaded R U k)" if "k \<in> set keys" for k
      using load_keys_result [OF s [unfolded newDKIMSigner_def]] fold_upd_mem [OF that, of _ "loaded R U" Map.empty]
      by simp
    then show ?thesis using signer_lookup [OF s, of d key] by auto
  qed
  have "lk_domain key = d \<and> strong_key (lk_signer key)"
    if s: "newDKIMSigner R U keys = Inr s" and m: "map_of s d = Some key" for s d key
  proof -
    obtain k where k: "k \<in> set keys" "key = loaded R U k" "lk_domain key = d" using signer_lookup [OF s m] by blast
    have "loadable R k" using built s k(1) by (auto simp: list_all_iff)
    then show ?thesis using k load_strong by (auto simp: loaded_def loadable_def)
  qed
  then show ?thesis using built holds by blast
qed

theorem newDKIMSigner_exact_witness:
  "(\<exists>s. newDKIMSigner demo_keyring ascii_unicode [sample_dkim] = Inr s \<and>
        map_of s ''example.test'' = Some (loaded demo_keyring ascii_unicode sample_dkim)) \<and>
   (\<nexists>s. newDKIMSigner demo_keyring ascii_unicode
          [sample_dkim, sample_dkim\<lparr>dk_Domain := ''EXAMPLE.test''\<rparr>] = Inr s)"
proof -
  have l: "to_lower ascii_unicode (dk_Domain sample_dkim) = ''example.test''"
    "to_lower ascii_unicode ''EXAMPLE.test'' = ''example.test''" by code_simp+
  have ok: "loadable demo_keyring sample_dkim"
    by (simp add: loadable_def sample_dkim_def demo_keyring_def loadDKIMPrivateKey_def parsePrivateKey_def)
  note one = newDKIMSigner_exact [of demo_keyring ascii_unicode "[sample_dkim]"]
  note two = newDKIMSigner_exact
    [of demo_keyring ascii_unicode "[sample_dkim, sample_dkim\<lparr>dk_Domain := ''EXAMPLE.test''\<rparr>]"]
  have "\<exists>s. newDKIMSigner demo_keyring ascii_unicode [sample_dkim] = Inr s" using one ok by simp
  moreover have "\<not> distinct (map (\<lambda>k. to_lower ascii_unicode (dk_Domain k))
      [sample_dkim, sample_dkim\<lparr>dk_Domain := ''EXAMPLE.test''\<rparr>])" by code_simp
  ultimately show ?thesis using one two l(1) by auto
qed

text \<open>The encoders undo the decoders, and a generated modulus has the length asked for.\<close>

definition keygen_laws :: "keygen \<Rightarrow> keyring \<Rightarrow> bool" where
  "keygen_laws G R \<longleftrightarrow>
     (\<forall>bits k. kg_rsa G bits = Inr k \<longrightarrow> bit_len (rsa_N k) = bits) \<and>
     (\<forall>k der. kg_MarshalPKCS8 G k = Inr der \<longrightarrow> kr_PKCS8 R der = Some k) \<and>
     (\<forall>der. kg_pem_Encode G der \<noteq> [] \<and> kr_pem_Decode R (kg_pem_Encode G der) = Some der)"

text \<open>A generated key is one the gateway loads: whatever \<^verbatim>\<open>GenerateDKIMKey\<close> returns, a signer
  configured with it for that domain and selector is built, and the published record names the selector,
  the domain and the kind of key. Any algorithm but RSA and Ed25519 is refused.\<close>

theorem GenerateDKIMKey_loads:
  assumes "keygen_laws G R" "domain \<noteq> []" "selector \<noteq> []"
  shows "case GenerateDKIMKey G algorithm domain selector of
           Inr g \<Rightarrow>
             algorithm \<in> {[], ''rsa'', ''ed25519''} \<and>
             gk_DNSRecordName g = selector @ ''._domainkey.'' @ domain \<and>
             prefix (''v=DKIM1; k='' @ (if algorithm = ''ed25519'' then algorithm else ''rsa'') @ ''; p='')
               (gk_DNSRecordValue g) \<and>
             (\<exists>s. newDKIMSigner R U
                [\<lparr>dk_Domain = domain, dk_Selector = selector, dk_PrivateKeyPEM = gk_PrivateKeyPEM g,
                  dk_PrivateKeyFile = [], dk_HeaderKeys = []\<rparr>] = Inr s)
         | Inl err \<Rightarrow> True"
proof (cases "GenerateDKIMKey G algorithm domain selector")
  case (Inr g)
  then obtain privDER pubDER keyType where m: "key_material G algorithm = Inr (privDER, pubDER, keyType)"
    and g: "gk_PrivateKeyPEM g = kg_pem_Encode G privDER" "gk_DNSRecordName g = selector @ ''._domainkey.'' @ domain"
      "gk_DNSRecordValue g = ''v=DKIM1; k='' @ keyType @ ''; p='' @ kg_base64 G pubDER"
    by (auto simp: GenerateDKIMKey_def split: sum.splits)
  have pem: "kg_pem_Encode G privDER \<noteq> []" "kr_pem_Decode R (kg_pem_Encode G privDER) = Some privDER"
    using assms(1) by (simp_all add: keygen_laws_def)
  have key: "algorithm \<in> {[], ''rsa'', ''ed25519''} \<and>
      keyType = (if algorithm = ''ed25519'' then algorithm else ''rsa'') \<and> (\<exists>k. parsePrivateKey R privDER = Inr k)"
  proof (cases "algorithm = ''ed25519''")
    case True
    then obtain priv where "kg_MarshalPKCS8 G (Ed25519Key priv) = Inr privDER" "keyType = ''ed25519''"
      using m by (auto simp: key_material_def split: sum.splits)
    then show ?thesis using True assms(1) by (auto simp: keygen_laws_def parsePrivateKey_def)
  next
    case False
    then obtain k where "algorithm \<in> {[], ''rsa''}" "kg_rsa G 2048 = Inr k"
        "kg_MarshalPKCS8 G (RSAKey k) = Inr privDER" "keyType = ''rsa''"
      using m by (auto simp: key_material_def split: sum.splits if_splits)
    then show ?thesis using False assms(1)
      by (auto simp: keygen_laws_def parsePrivateKey_def checkRSASize_def minRSABits_def)
  qed
  define kc where "kc = \<lparr>dk_Domain = domain, dk_Selector = selector, dk_PrivateKeyPEM = gk_PrivateKeyPEM g,
      dk_PrivateKeyFile = [], dk_HeaderKeys = []\<rparr>"
  have "loadable R kc"
    using key pem g(1) assms(2,3) by (auto simp: kc_def loadable_def loadDKIMPrivateKey_def)
  then have "\<exists>s. newDKIMSigner R U [kc] = Inr s"
    using load_keys_iff [of R U 0 "[kc]" "[]"] by (simp add: newDKIMSigner_def)
  then show ?thesis using Inr key g by (simp add: kc_def)
qed simp

theorem GenerateDKIMKey_loads_witness:
  "\<exists>g s. GenerateDKIMKey
            \<lparr>kg_rsa = (\<lambda>_. Inl (Plain ''no entropy'')), kg_ed25519 = Inr (''pub'', ''priv''),
             kg_MarshalPKCS8 = (\<lambda>k. case k of Ed25519Key b \<Rightarrow> Inr b | _ \<Rightarrow> Inl (Plain ''unsupported'')),
             kg_MarshalPKIX = (\<lambda>_. Inr []), kg_pem_Encode = (\<lambda>b. ''-'' @ b), kg_base64 = (\<lambda>b. b)\<rparr>
            ''ed25519'' ''example.test'' ''mail'' = Inr g \<and>
     newDKIMSigner (demo_keyring\<lparr>kr_pem_Decode := (\<lambda>b. Some (tl b))\<rparr>) ascii_unicode
       [\<lparr>dk_Domain = ''example.test'', dk_Selector = ''mail'', dk_PrivateKeyPEM = gk_PrivateKeyPEM g,
         dk_PrivateKeyFile = [], dk_HeaderKeys = []\<rparr>] = Inr s"
proof -
  let ?G = "\<lparr>kg_rsa = (\<lambda>_. Inl (Plain ''no entropy'')), kg_ed25519 = Inr (''pub'', ''priv''),
             kg_MarshalPKCS8 = (\<lambda>k. case k of Ed25519Key b \<Rightarrow> Inr b | _ \<Rightarrow> Inl (Plain ''unsupported'')),
             kg_MarshalPKIX = (\<lambda>_. Inr []), kg_pem_Encode = (\<lambda>b. ''-'' @ b), kg_base64 = (\<lambda>b. b)\<rparr>"
  let ?R = "demo_keyring\<lparr>kr_pem_Decode := (\<lambda>b. Some (tl b))\<rparr>"
  have laws: "keygen_laws ?G ?R"
    by (simp add: keygen_laws_def demo_keyring_def split: crypto_key.splits)
  obtain g where g: "GenerateDKIMKey ?G ''ed25519'' ''example.test'' ''mail'' = Inr g"
    by (simp add: GenerateDKIMKey_def key_material_def)
  show ?thesis
    using GenerateDKIMKey_loads [OF laws, of "''example.test''" "''mail''" "''ed25519''" ascii_unicode] g by auto
qed

end
