(* ===== verification/Tlsstore.thy ===== *)
theory Tlsstore
  imports Config Go_Text
begin

text \<open>
  \<^verbatim>\<open>internal/gateway/tlsstore.go\<close>: the certificate served for a server name. Reading files, pairing a
  certificate with its key and decoding its leaf are arguments.
\<close>


section \<open>Loading\<close>

record certificate =
  ct_Chain :: bytes
  ct_Key :: bytes

record leaf =
  lf_DNSNames :: "string list"
  lf_CommonName :: string

record cert_loader =
  cl_ReadFile :: "string \<Rightarrow> bytes result"
  cl_X509KeyPair :: "bytes \<Rightarrow> bytes \<Rightarrow> certificate result"
  cl_ParseCertificate :: "bytes \<Rightarrow> leaf result"

definition loadKeyPair :: "cert_loader \<Rightarrow> CertificateRef \<Rightarrow> certificate result" where
  "loadKeyPair L ref =
     (let pair = (\<lambda>certPEM keyPEM.
            case cl_X509KeyPair L certPEM keyPEM of
              Inl err \<Rightarrow> Inl (Wrap ''invalid keypair'' err)
            | Inr cert \<Rightarrow> Inr cert)
      in if crt_CertFile ref \<noteq> [] then
           (case cl_ReadFile L (crt_CertFile ref) of
              Inl err \<Rightarrow> Inl (Wrap ''read certFile'' err)
            | Inr certPEM \<Rightarrow>
                (case cl_ReadFile L (crt_KeyFile ref) of
                   Inl err \<Rightarrow> Inl (Wrap ''read keyFile'' err)
                 | Inr keyPEM \<Rightarrow> pair certPEM keyPEM))
         else pair (crt_CertPEM ref) (crt_KeyPEM ref))"

definition dnsNamesOf :: "leaf \<Rightarrow> string list" where
  "dnsNamesOf l =
     (if length (lf_DNSNames l) > 0 then lf_DNSNames l
      else if lf_CommonName l \<noteq> [] then [lf_CommonName l]
      else [])"

record certStore =
  cs_byName :: "string \<rightharpoonup> certificate"
  cs_wildcards :: "string \<rightharpoonup> certificate"
  cs_defaultCrt :: "certificate option"

definition store_name :: "unicode \<Rightarrow> certificate \<Rightarrow> string \<Rightarrow> certStore \<Rightarrow> certStore" where
  "store_name U cert dnsName s =
     (if prefix ''*.'' dnsName
      then s\<lparr>cs_wildcards := (cs_wildcards s)(to_lower U (drop 2 dnsName) \<mapsto> cert)\<rparr>
      else s\<lparr>cs_byName := (cs_byName s)(to_lower U dnsName \<mapsto> cert)\<rparr>)"

definition cert_name :: "nat \<Rightarrow> CertificateRef \<Rightarrow> string" where
  "cert_name i ref = (if crt_Name ref = [] then ''certificates['' @ show_nat i @ '']'' else crt_Name ref)"

definition load_cert ::
  "cert_loader \<Rightarrow> unicode \<Rightarrow> string \<Rightarrow> nat \<Rightarrow> CertificateRef \<Rightarrow> certStore \<Rightarrow> certStore result" where
  "load_cert L U defaultName i ref s =
     (case loadKeyPair L ref of
        Inl err \<Rightarrow> Inl (Wrap (''certificate '' @ cert_name i ref) err)
      | Inr cert \<Rightarrow>
          (case cl_ParseCertificate L (ct_Chain cert) of
             Inl err \<Rightarrow> Inl (Wrap (''certificate '' @ cert_name i ref @ '': parse leaf'') err)
           | Inr l \<Rightarrow>
               (let s = fold (store_name U cert) (dnsNamesOf l) s;
                    s = (if i = 0 then s\<lparr>cs_defaultCrt := Some cert\<rparr> else s);
                    s = (if defaultName \<noteq> [] \<and> crt_Name ref = defaultName
                         then s\<lparr>cs_defaultCrt := Some cert\<rparr> else s)
                in Inr s)))"

fun load_certs ::
  "cert_loader \<Rightarrow> unicode \<Rightarrow> string \<Rightarrow> nat \<Rightarrow> CertificateRef list \<Rightarrow> certStore \<Rightarrow> certStore result" where
  "load_certs L U defaultName i [] s = Inr s"
| "load_certs L U defaultName i (ref # refs) s =
     (case load_cert L U defaultName i ref s of
        Inl err \<Rightarrow> Inl err
      | Inr s \<Rightarrow> load_certs L U defaultName (Suc i) refs s)"

definition newCertStore :: "cert_loader \<Rightarrow> unicode \<Rightarrow> TLSConfig \<Rightarrow> certStore result" where
  "newCertStore L U cfg =
     (if length (tls_Certificates cfg) = 0 then Inl (Plain ''no certificate configured'')
      else load_certs L U (tls_DefaultCertificate cfg) 0 (tls_Certificates cfg)
             \<lparr>cs_byName = Map.empty, cs_wildcards = Map.empty, cs_defaultCrt = None\<rparr>)"

definition getCertificate :: "unicode \<Rightarrow> certStore \<Rightarrow> string \<Rightarrow> certificate option" where
  "getCertificate U s serverName =
     (let name = to_lower U (trim_suffix serverName ''.'') in
      case cs_byName s name of
        Some cert \<Rightarrow> Some cert
      | None \<Rightarrow>
          (case cut (CHR ''.'') name of
             (_, parent, found) \<Rightarrow>
               (case if found then cs_wildcards s parent else None of
                  Some cert \<Rightarrow> Some cert
                | None \<Rightarrow> cs_defaultCrt s)))"


section \<open>The certificate for a name\<close>

text \<open>A configured certificate with the names it is valid for.\<close>

definition cert_of :: "cert_loader \<Rightarrow> CertificateRef \<Rightarrow> (certificate \<times> string list) option" where
  "cert_of L ref =
     (case loadKeyPair L ref of
        Inl _ \<Rightarrow> None
      | Inr cert \<Rightarrow>
          (case cl_ParseCertificate L (ct_Chain cert) of Inl _ \<Rightarrow> None | Inr l \<Rightarrow> Some (cert, dnsNamesOf l)))"

definition exact_for :: "unicode \<Rightarrow> string \<Rightarrow> string list \<Rightarrow> bool" where
  "exact_for U name names \<longleftrightarrow> (\<exists>d \<in> set names. \<not> prefix ''*.'' d \<and> to_lower U d = name)"

definition wildcard_for :: "unicode \<Rightarrow> string \<Rightarrow> string list \<Rightarrow> bool" where
  "wildcard_for U parent names \<longleftrightarrow> (\<exists>d \<in> set names. prefix ''*.'' d \<and> to_lower U (drop 2 d) = parent)"

text \<open>The last configured certificate, among those that load, whose names satisfy a predicate.\<close>

definition last_with :: "cert_loader \<Rightarrow> (string list \<Rightarrow> bool) \<Rightarrow> CertificateRef list \<Rightarrow> certificate option" where
  "last_with L P refs =
     map_option fst (find (\<lambda>c. P (snd c)) (rev (map (the \<circ> cert_of L) refs)))"

lemma fold_store_name:
  "cs_byName (fold (store_name U cert) names s) name =
     (if exact_for U name names then Some cert else cs_byName s name) \<and>
   cs_wildcards (fold (store_name U cert) names s) name =
     (if wildcard_for U name names then Some cert else cs_wildcards s name) \<and>
   cs_defaultCrt (fold (store_name U cert) names s) = cs_defaultCrt s"
  by (induction names arbitrary: s) (auto simp: exact_for_def wildcard_for_def store_name_def)

lemma load_cert_iff:
  "load_cert L U dn i ref s = Inr s' \<longleftrightarrow>
   (\<exists>cert names. cert_of L ref = Some (cert, names) \<and>
      s' = (let s = fold (store_name U cert) names s in
            if i = 0 \<or> dn \<noteq> [] \<and> crt_Name ref = dn then s\<lparr>cs_defaultCrt := Some cert\<rparr> else s))"
  by (auto simp: load_cert_def cert_of_def Let_def split: sum.splits)

lemma find_snoc: "find P (xs @ [x]) = (case find P xs of Some y \<Rightarrow> Some y | None \<Rightarrow> if P x then Some x else None)"
  by (induction xs) simp_all

lemma last_with_Nil [simp]: "last_with L P [] = None"
  by (simp add: last_with_def)

lemma last_with_Cons:
  "cert_of L r = Some (cert, names) \<Longrightarrow>
   last_with L P (r # refs) =
     (case last_with L P refs of Some c \<Rightarrow> Some c | None \<Rightarrow> if P names then Some cert else None)"
  by (simp add: last_with_def find_snoc split: option.split)

definition named_default :: "string \<Rightarrow> CertificateRef list \<Rightarrow> CertificateRef option" where
  "named_default dn refs = find (\<lambda>r. dn \<noteq> [] \<and> crt_Name r = dn) (rev refs)"

lemma load_certs_law:
  "load_certs L U dn i refs s = Inr s' \<Longrightarrow>
   list_all (\<lambda>r. cert_of L r \<noteq> None) refs \<and>
   cs_byName s' n = (case last_with L (exact_for U n) refs of Some c \<Rightarrow> Some c | None \<Rightarrow> cs_byName s n) \<and>
   cs_wildcards s' n = (case last_with L (wildcard_for U n) refs of Some c \<Rightarrow> Some c | None \<Rightarrow> cs_wildcards s n) \<and>
   cs_defaultCrt s' =
     (case named_default dn refs of
        Some r \<Rightarrow> map_option fst (cert_of L r)
      | None \<Rightarrow> if i = 0 \<and> refs \<noteq> [] then map_option fst (cert_of L (hd refs)) else cs_defaultCrt s)"
proof (induction refs arbitrary: i s)
  case Nil
  then show ?case by (simp add: named_default_def)
next
  case (Cons r refs)
  from Cons.prems obtain s1 where one: "load_cert L U dn i r s = Inr s1" and rest: "load_certs L U dn (Suc i) refs s1 = Inr s'"
    by (auto split: sum.splits)
  from one obtain cert names where c: "cert_of L r = Some (cert, names)"
    and s1: "s1 = (let s = fold (store_name U cert) names s in
            if i = 0 \<or> dn \<noteq> [] \<and> crt_Name r = dn then s\<lparr>cs_defaultCrt := Some cert\<rparr> else s)"
    by (auto simp: load_cert_iff)
  have names: "cs_byName s1 n = (if exact_for U n names then Some cert else cs_byName s n)"
    "cs_wildcards s1 n = (if wildcard_for U n names then Some cert else cs_wildcards s n)"
    "cs_defaultCrt s1 = (if i = 0 \<or> dn \<noteq> [] \<and> crt_Name r = dn then Some cert else cs_defaultCrt s)"
    using fold_store_name [of U cert names s n] by (simp_all add: s1 Let_def)
  have nd: "named_default dn (r # refs) =
      (case named_default dn refs of Some x \<Rightarrow> Some x | None \<Rightarrow> if dn \<noteq> [] \<and> crt_Name r = dn then Some r else None)"
    by (simp add: named_default_def find_snoc)
  show ?case using Cons.IH [OF rest] names
    by (auto simp: last_with_Cons [OF c] nd c split: option.splits if_splits)
qed

text \<open>The certificate a configuration means for a server name.\<close>

definition certificate_for :: "cert_loader \<Rightarrow> unicode \<Rightarrow> TLSConfig \<Rightarrow> string \<Rightarrow> certificate option" where
  "certificate_for L U cfg serverName =
     (let refs = tls_Certificates cfg; name = to_lower U (trim_suffix serverName ''.'') in
      case last_with L (exact_for U name) refs of
        Some c \<Rightarrow> Some c
      | None \<Rightarrow>
          (case if CHR ''.'' \<in> set name
                then last_with L (wildcard_for U (fst (snd (cut (CHR ''.'') name)))) refs else None of
             Some c \<Rightarrow> Some c
           | None \<Rightarrow> map_option fst (cert_of L (case named_default (tls_DefaultCertificate cfg) refs of
                                               Some r \<Rightarrow> r | None \<Rightarrow> hd refs))))"

lemma named_default_mem: "named_default dn refs = Some r \<Longrightarrow> r \<in> set refs"
  by (auto simp: named_default_def find_Some_iff) (metis length_rev nth_mem set_rev)


section \<open>Properties\<close>

text \<open>C39: Once the certificates have loaded, every handshake gets one of them, whatever name the client
  asks for or when it asks for none. A certificate that names the host wins, the last configured one if
  there are several; then one with a wildcard for the host's parent domain; then the configured default,
  which is the first certificate when none is named.\<close>

theorem getCertificate_exact:
  assumes "newCertStore L U cfg = Inr s"
  shows "getCertificate U s serverName = certificate_for L U cfg serverName \<and>
         getCertificate U s serverName \<noteq> None"
proof -
  define refs where "refs = tls_Certificates cfg"
  define name where "name = to_lower U (trim_suffix serverName ''.'')"
  have refs: "refs \<noteq> []" and ld: "load_certs L U (tls_DefaultCertificate cfg) 0 refs
      \<lparr>cs_byName = Map.empty, cs_wildcards = Map.empty, cs_defaultCrt = None\<rparr> = Inr s"
    using assms by (auto simp: newCertStore_def refs_def split: if_splits)
  note law = load_certs_law [OF ld]
  have found: "snd (snd (cut (CHR ''.'') name)) \<longleftrightarrow> CHR ''.'' \<in> set name"
    by (cases rule: cut_cases [of name "CHR ''.''"]) auto
  have eq: "getCertificate U s serverName = certificate_for L U cfg serverName"
    unfolding getCertificate_def certificate_for_def refs_def [symmetric] name_def [symmetric] Let_def
    using law refs found by (auto split: option.splits prod.splits)
  have "r \<in> set refs \<Longrightarrow> cert_of L r \<noteq> None" for r using law [THEN conjunct1] by (auto simp: list_all_iff)
  then have "certificate_for L U cfg serverName \<noteq> None"
    using named_default_mem [of "tls_DefaultCertificate cfg" refs] refs
    by (auto simp: certificate_for_def refs_def [symmetric] Let_def split: option.splits)
  then show ?thesis using eq by simp
qed

theorem getCertificate_exact_witness:
  "let L = \<lparr>cl_ReadFile = (\<lambda>_. Inl (Plain ''no such file'')),
            cl_X509KeyPair = (\<lambda>c k. Inr \<lparr>ct_Chain = c, ct_Key = k\<rparr>),
            cl_ParseCertificate = (\<lambda>c. Inr \<lparr>lf_DNSNames = [c], lf_CommonName = []\<rparr>)\<rparr>;
       ref = (\<lambda>n. \<lparr>crt_Name = [], crt_CertFile = [], crt_KeyFile = [], crt_CertPEM = n, crt_KeyPEM = ''k''\<rparr>);
       cfg = \<lparr>tls_Certificates = [ref ''mail.example.test'', ref ''*.Example.test''], tls_DefaultCertificate = []\<rparr>;
       get = (\<lambda>n. case newCertStore L ascii_unicode cfg of
                    Inl _ \<Rightarrow> None | Inr s \<Rightarrow> map_option ct_Chain (getCertificate ascii_unicode s n))
   in get ''MAIL.example.test.'' = Some ''mail.example.test'' \<and> get ''smtp.example.test'' = Some ''*.Example.test'' \<and>
      get [] = Some ''mail.example.test'' \<and> (\<forall>n. get n \<noteq> None)"
proof -
  define L where "L = \<lparr>cl_ReadFile = (\<lambda>_. Inl (Plain ''no such file'')),
            cl_X509KeyPair = (\<lambda>c k. Inr \<lparr>ct_Chain = c, ct_Key = k\<rparr>),
            cl_ParseCertificate = (\<lambda>c. Inr \<lparr>lf_DNSNames = [c], lf_CommonName = []\<rparr>)\<rparr>"
  define ref where "ref = (\<lambda>n. \<lparr>crt_Name = [], crt_CertFile = [], crt_KeyFile = [], crt_CertPEM = n, crt_KeyPEM = ''k''\<rparr>)"
  define cfg where "cfg = \<lparr>tls_Certificates = [ref ''mail.example.test'', ref ''*.Example.test''], tls_DefaultCertificate = []\<rparr>"
  obtain s where s: "newCertStore L ascii_unicode cfg = Inr s"
    by (auto simp: newCertStore_def load_cert_def loadKeyPair_def L_def cfg_def ref_def Let_def)
  have run: "map_option ct_Chain (certificate_for L ascii_unicode cfg ''MAIL.example.test.'') = Some ''mail.example.test'' \<and>
      map_option ct_Chain (certificate_for L ascii_unicode cfg ''smtp.example.test'') = Some ''*.Example.test'' \<and>
      map_option ct_Chain (certificate_for L ascii_unicode cfg []) = Some ''mail.example.test''"
    unfolding L_def cfg_def ref_def by code_simp
  show ?thesis
    unfolding Let_def L_def [symmetric] ref_def [symmetric] cfg_def [symmetric]
    using run getCertificate_exact [OF s, THEN conjunct1] getCertificate_exact [OF s, THEN conjunct2] s by simp
qed

end
