(* ===== verification/Server.thy ===== *)
theory Server
  imports Dkim Tlsstore Auth RateLimit
begin

text \<open>
  \<^verbatim>\<open>internal/gateway/server.go\<close>, the server: what is derived from a configuration, replacing it while
  the server runs, and opening and closing the listeners. The remaining packages the server uses, and the
  clock, are the last layer of the environment. A panic is \<^const>\<open>None\<close>.
\<close>


section \<open>The environment\<close>

record 'w server_env = "'w dkim_env" +
  env_quota :: "'w quota_env"
  env_certs :: cert_loader
  env_keys :: keyring
  env_pem_ok :: "string \<Rightarrow> bool"
  bcrypt_Cost :: "string \<Rightarrow> int option"
  bcrypt_Generate :: "string \<Rightarrow> int \<Rightarrow> string option"
  bcrypt_Compare :: "string \<Rightarrow> string \<Rightarrow> bool"
  sem_Acquire :: "'w \<Rightarrow> go_error option \<times> 'w"
  sem_Release :: "'w \<Rightarrow> 'w"
  time_Now :: "'w \<Rightarrow> int \<times> 'w"
  time_RFC1123Z :: "int \<Rightarrow> string"
  net_Listen :: "string \<Rightarrow> 'w \<Rightarrow> nat result \<times> 'w"
  net_Close :: "nat \<Rightarrow> 'w \<Rightarrow> 'w"
  srv_Close :: "'w \<Rightarrow> 'w"


section \<open>Snapshots\<close>

record accountPolicy =
  ap_milters :: milterChain
  ap_senders :: senderPolicy
  ap_skipHeaderFromCheck :: bool

record snapshot =
  sn_config :: Config
  sn_newSpool :: "unit \<Rightarrow> spool"
  sn_rejected :: "RejectedAccount list"
  sn_accounts :: accountStore
  sn_certs :: certStore
  sn_relay :: relayer
  sn_milters :: milterChain
  sn_dkim :: dkimSigner
  sn_limiter :: "limiter option"
  sn_policies :: "string \<rightharpoonup> accountPolicy"

definition reusableLimiter :: "snapshot option \<Rightarrow> Config \<Rightarrow> limiter option" where
  "reusableLimiter prev cfg =
     (case (prev, cfg_RateLimit cfg) of
        (Some p, Some rl) \<Rightarrow>
          (case sn_limiter p of
             None \<Rightarrow> None
           | Some l \<Rightarrow>
               if \<not> sameStore (rl_Store (li_limits l)) (rl_Store rl) then None
               else Some (l\<lparr>li_limits := rl, li_gateway := cfg_Hostname cfg\<rparr>))
      | _ \<Rightarrow> None)"

definition limiter_for ::
  "('w, 'm) server_env_scheme \<Rightarrow> snapshot option \<Rightarrow> Config \<Rightarrow> 'w \<Rightarrow> limiter option result \<times> 'w" where
  "limiter_for E prev cfg w =
     (case reusableLimiter prev cfg of
        Some l \<Rightarrow> (Inr (Some l), w)
      | None \<Rightarrow> newLimiter (env_quota E) (env_pem_ok E) cfg w)"

definition account_policy :: "unicode \<Rightarrow> milterChain \<Rightarrow> Account \<Rightarrow> accountPolicy" where
  "account_policy U milters acct =
     \<lparr>ap_milters = milters, ap_senders = newSenderPolicy U (acc_AllowedSenders acct),
      ap_skipHeaderFromCheck = acc_SkipHeaderFromCheck acct\<rparr>"

text \<open>The parts of a snapshot that do not touch the outside world, in the order they are built.\<close>

definition static_parts ::
  "('w, 'm) server_env_scheme \<Rightarrow> unicode \<Rightarrow> Config \<Rightarrow>
     (certStore \<times> relayer \<times> milterChain \<times> dkimSigner) result" where
  "static_parts E U cfg =
     (if Validate cfg \<noteq> [] then Inl (Plain ''invalid gateway configuration'')
      else case newCertStore (env_certs E) U (cfg_TLS cfg) of
             Inl err \<Rightarrow> Inl err
           | Inr certs \<Rightarrow>
        (case newRelayer (env_pem_ok E) cfg of
           Inl err \<Rightarrow> Inl err
         | Inr relay \<Rightarrow>
        (case newMilterChain cfg of
           Inl err \<Rightarrow> Inl err
         | Inr milters \<Rightarrow>
        (case newDKIMSigner (env_keys E) U (cfg_DKIM cfg) of
           Inl err \<Rightarrow> Inl err
         | Inr signer \<Rightarrow> Inr (certs, relay, milters, signer)))))"

definition newSnapshot ::
  "('w, 'm) server_env_scheme \<Rightarrow> unicode \<Rightarrow> Config \<Rightarrow> snapshot option \<Rightarrow> 'w \<Rightarrow>
     snapshot result option \<times> 'w" where
  "newSnapshot E U cfg prev w =
     (let cfg = applyDefaults cfg in
      case static_parts E U cfg of
        Inl err \<Rightarrow> (Some (Inl err), w)
      | Inr (certs, relay, milters, signer) \<Rightarrow>
        (case limiter_for E prev cfg w of
           (Inl err, w) \<Rightarrow> (Some (Inl err), w)
         | (Inr lim, w) \<Rightarrow>
           (let (served, rejected) = PartitionAccounts (bcrypt_Cost E) cfg in
            case probeSpool E (lim_SpoolDir (cfg_Limits cfg)) w of
              (Some err, w) \<Rightarrow> (Some (Inl err), w)
            | (None, w) \<Rightarrow>
              (case newAccountStore (bcrypt_Generate E) served of
                 None \<Rightarrow> (None, w)
               | Some accounts \<Rightarrow>
                   (Some (Inr
                      \<lparr>sn_config = cfg, sn_newSpool = newSpoolFactory (cfg_Limits cfg),
                       sn_rejected = rejected, sn_accounts = accounts, sn_certs = certs, sn_relay = relay,
                       sn_milters = milters, sn_dkim = signer, sn_limiter = lim,
                       sn_policies =
                         fold (\<lambda>acct m. m(acc_Username acct \<mapsto> account_policy U milters acct))
                           served Map.empty\<rparr>), w)))))"

definition policyFor :: "unicode \<Rightarrow> snapshot \<Rightarrow> string \<Rightarrow> accountPolicy" where
  "policyFor U s username =
     (case sn_policies s username of
        Some policy \<Rightarrow> policy
      | None \<Rightarrow>
          \<lparr>ap_milters = sn_milters s, ap_senders = newSenderPolicy U [], ap_skipHeaderFromCheck = False\<rparr>)"

definition limiterClient :: "snapshot option \<Rightarrow> nat option" where
  "limiterClient s =
     (case s of None \<Rightarrow> None | Some s \<Rightarrow> map_option li_client (sn_limiter s))"


section \<open>The server\<close>

record smtpServer =
  srv_Domain :: string
  srv_MaxLineLength :: int
  srv_MaxMessageBytes :: int
  srv_MaxRecipients :: int
  srv_ReadTimeout :: Duration
  srv_WriteTimeout :: Duration
  srv_AllowInsecureAuth :: bool

record Server =
  sv_current :: "snapshot option"
  sv_verifying :: int
  sv_servers :: "smtpServer list"

definition Reload ::
  "('w, 'm) server_env_scheme \<Rightarrow> unicode \<Rightarrow> Config \<Rightarrow> Server \<Rightarrow> 'w \<Rightarrow>
     (go_error option \<times> metric list \<times> Server) option \<times> 'w" where
  "Reload E U cfg s w =
     (let previous = sv_current s in
      case newSnapshot E U cfg previous w of
        (None, w) \<Rightarrow> (None, w)
      | (Some (Inl err), w) \<Rightarrow> (Some (Some err, [configReloaded ''failure'' 0 0], s), w)
      | (Some (Inr snap), w) \<Rightarrow>
          (let s = s\<lparr>sv_current := Some snap\<rparr>;
               w = (case previous of
                      None \<Rightarrow> w
                    | Some p \<Rightarrow>
                        if sn_limiter p \<noteq> None \<and> limiterClient (Some p) \<noteq> limiterClient (Some snap)
                        then limiter_close (env_quota E) (sn_limiter p) w else w)
           in (Some (None,
                 [configReloaded ''success'' (length (as_byUsername (sn_accounts snap)))
                    (length (sn_rejected snap))], s), w)))"

text \<open>\<open>procs\<close> is \<^verbatim>\<open>runtime.GOMAXPROCS(0)\<close>.\<close>

definition NewServer ::
  "('w, 'm) server_env_scheme \<Rightarrow> unicode \<Rightarrow> int \<Rightarrow> Config \<Rightarrow> 'w \<Rightarrow>
     (Server result \<times> metric list) option \<times> 'w" where
  "NewServer E U procs cfg w =
     (let s = \<lparr>sv_current = None, sv_verifying = max 1 (procs - 1), sv_servers = []\<rparr> in
      case Reload E U cfg s w of
        (None, w) \<Rightarrow> (None, w)
      | (Some (Some err, ms, _), w) \<Rightarrow> (Some (Inl err, ms), w)
      | (Some (None, ms, s), w) \<Rightarrow> (Some (Inr s, ms), w))"

definition MetricsToken :: "Server \<Rightarrow> string" where
  "MetricsToken s = (case sv_current s of None \<Rightarrow> [] | Some snap \<Rightarrow> mc_Token (cfg_Metrics (sn_config snap)))"

definition newSMTPServer :: "snapshot \<Rightarrow> Listener \<Rightarrow> smtpServer" where
  "newSMTPServer snap lc =
     (let limits = cfg_Limits (sn_config snap) in
      \<lparr>srv_Domain = cfg_Hostname (sn_config snap), srv_MaxLineLength = lim_MaxLineLength limits,
       srv_MaxMessageBytes = lim_MaxMessageBytes limits, srv_MaxRecipients = lim_MaxRecipients limits,
       srv_ReadTimeout = lim_ReadTimeout limits, srv_WriteTimeout = lim_WriteTimeout limits,
       srv_AllowInsecureAuth = False\<rparr>)"

text \<open>The callback of \<^verbatim>\<open>tlsConfig\<close>, at the moment of a handshake.\<close>

definition handshake_cert :: "unicode \<Rightarrow> snapshot \<Rightarrow> string \<Rightarrow> certificate option" where
  "handshake_cert U current serverName = getCertificate U (sn_certs current) serverName"

text \<open>Opening the listeners: each with the connection limit and whether it speaks TLS from the start.\<close>

record open_listener =
  ol_handle :: nat
  ol_limit :: int
  ol_implicit :: bool

fun open_listeners ::
  "('w, 'm) server_env_scheme \<Rightarrow> snapshot \<Rightarrow> Listener list \<Rightarrow> open_listener list \<Rightarrow> Server \<Rightarrow> 'w \<Rightarrow>
     open_listener list result \<times> Server \<times> 'w" where
  "open_listeners E snap [] opened s w = (Inr opened, s, w)"
| "open_listeners E snap (lc # lcs) opened s w =
     (case net_Listen E (lis_Addr lc) w of
        (Inl err, w) \<Rightarrow>
          (Inl (Wrap (''listen '' @ lis_Addr lc @ '' ('' @ lis_Name lc @ '')'') err), s,
           fold (\<lambda>l. net_Close E (ol_handle l)) opened w)
      | (Inr h, w) \<Rightarrow>
          open_listeners E snap lcs
            (opened @ [\<lparr>ol_handle = h, ol_limit = lim_MaxConnections (cfg_Limits (sn_config snap)),
                        ol_implicit = (lis_Mode lc = TLSModeImplicit)\<rparr>])
            (s\<lparr>sv_servers := sv_servers s @ [newSMTPServer snap lc]\<rparr>) w)"

text \<open>\<^verbatim>\<open>Close\<close> dereferences the snapshot; a nil limiter's \<^verbatim>\<open>close\<close> does nothing.\<close>

definition server_Close :: "('w, 'm) server_env_scheme \<Rightarrow> Server \<Rightarrow> 'w \<Rightarrow> Server option \<times> 'w" where
  "server_Close E s w =
     (let servers = sv_servers s;
          s = s\<lparr>sv_servers := []\<rparr>;
          w = fold (\<lambda>_. srv_Close E) servers w
      in case sv_current s of
           None \<Rightarrow> (None, w)
         | Some snap \<Rightarrow> (Some s, limiter_close (env_quota E) (sn_limiter snap) w))"

text \<open>\<^verbatim>\<open>Run\<close>: \<open>stop\<close> is what ends it once the listeners are open, \<^const>\<open>None\<close> for the context and an
  error for a listener that failed. The snapshot can have changed by then: \<open>later\<close> is the server as the
  reloads in between left it.\<close>

definition server_Run ::
  "('w, 'm) server_env_scheme \<Rightarrow> Server \<Rightarrow> (Server \<Rightarrow> Server) \<Rightarrow> go_error option \<Rightarrow> 'w \<Rightarrow>
     go_error option \<times> Server option \<times> 'w" where
  "server_Run E s later stop w =
     (case sv_current s of
        None \<Rightarrow> (None, None, w)
      | Some snap \<Rightarrow>
        (case open_listeners E snap (cfg_Listeners (sn_config snap)) [] s w of
           (Inl err, s, w) \<Rightarrow> (Some err, Some s, w)
         | (Inr _, s, w) \<Rightarrow>
             (case server_Close E (later s) w of (s, w) \<Rightarrow> (stop, s, w))))"


section \<open>What a snapshot holds\<close>

text \<open>A snapshot agrees with its configuration: the accounts it knows are the served ones, each with the
  policy of its own entry; any other name may send nothing; the signer holds the configured keys.\<close>

definition snap_ok :: "('w, 'm) server_env_scheme \<Rightarrow> unicode \<Rightarrow> snapshot \<Rightarrow> bool" where
  "snap_ok E U s \<longleftrightarrow>
     (\<forall>u a. lookup_account (sn_accounts s) u = Some a \<longleftrightarrow>
        a \<in> set (fst (PartitionAccounts (bcrypt_Cost E) (sn_config s))) \<and> acc_Username a = u) \<and>
     (\<forall>u. policyFor U s u =
        (case lookup_account (sn_accounts s) u of
           Some a \<Rightarrow> account_policy U (sn_milters s) a
         | None \<Rightarrow> \<lparr>ap_milters = sn_milters s, ap_senders = newSenderPolicy U [], ap_skipHeaderFromCheck = False\<rparr>)) \<and>
     newDKIMSigner (env_keys E) U (cfg_DKIM (sn_config s)) = Inr (sn_dkim s) \<and>
     sn_newSpool s = newSpoolFactory (cfg_Limits (sn_config s))"

lemma distinct_partition: "distinct (map acc_Username (fst (PartitionAccounts cost c)))"
  using first_of_each_distinct [of "{}" "filter (fit_account cost) (cfg_Accounts c)"]
  by (simp add: PartitionAccounts_def partition_served)

lemma newSnapshot_ok:
  assumes "newSnapshot E U cfg prev w = (Some (Inr snap), w')"
  shows "snap_ok E U snap \<and> sn_config snap = applyDefaults cfg \<and> Validate (sn_config snap) = [] \<and>
         sn_rejected snap = snd (PartitionAccounts (bcrypt_Cost E) (sn_config snap)) \<and>
         length (as_byUsername (sn_accounts snap)) = length (fst (PartitionAccounts (bcrypt_Cost E) (sn_config snap)))"
proof -
  define c where "c = applyDefaults cfg"
  obtain served rejected where part: "PartitionAccounts (bcrypt_Cost E) c = (served, rejected)" by fastforce
  obtain certs relay milters signer where st: "static_parts E U c = Inr (certs, relay, milters, signer)"
    using assms by (auto simp: newSnapshot_def c_def [symmetric] Let_def split: sum.splits)
  obtain lim accounts where acc: "newAccountStore (bcrypt_Generate E) served = Some accounts"
    and snap: "snap = \<lparr>sn_config = c, sn_newSpool = newSpoolFactory (cfg_Limits c),
                       sn_rejected = rejected, sn_accounts = accounts, sn_certs = certs, sn_relay = relay,
                       sn_milters = milters, sn_dkim = signer, sn_limiter = lim,
                       sn_policies =
                         fold (\<lambda>acct m. m(acc_Username acct \<mapsto> account_policy U milters acct))
                           served Map.empty\<rparr>"
    using assms st part
    by (auto simp: newSnapshot_def c_def [symmetric] Let_def split: sum.splits prod.splits option.splits)
  have d: "distinct (map acc_Username served)" using distinct_partition [of "bcrypt_Cost E" c] part by simp
  note lookup = lookup_newAccountStore [OF acc d]
  have pol: "policyFor U snap u =
        (case lookup_account accounts u of
           Some a \<Rightarrow> account_policy U milters a
         | None \<Rightarrow> \<lparr>ap_milters = milters, ap_senders = newSenderPolicy U [], ap_skipHeaderFromCheck = False\<rparr>)" for u
  proof (cases "lookup_account accounts u")
    case (Some a)
    then have "a \<in> set served" "acc_Username a = u" using lookup by simp_all
    then show ?thesis using fold_upd_mem [OF _ d, of a "account_policy U milters" Map.empty] Some
      by (simp add: policyFor_def snap)
  next
    case None
    then have "u \<notin> acc_Username ` set served" using lookup [of u] by (metis (no_types) image_iff option.distinct(1))
    then have "fold (\<lambda>acct m. m(acc_Username acct \<mapsto> account_policy U milters acct)) served Map.empty u = None"
      using fold_upd_some [of acc_Username "account_policy U milters" served Map.empty u]
      by (metis (no_types, lifting) image_eqI not_None_eq)
    then show ?thesis using None by (simp add: policyFor_def snap)
  qed
  have "Validate c = [] \<and> newDKIMSigner (env_keys E) U (cfg_DKIM c) = Inr signer"
    using st by (auto simp: static_parts_def split: if_splits sum.splits)
  moreover have "length (as_byUsername accounts) = length served"
    using acc d by (auto simp: newAccountStore_def length_store)
  moreover have sel: "sn_accounts snap = accounts" "sn_milters snap = milters" "sn_config snap = c"
    "sn_dkim snap = signer" "sn_rejected snap = rejected" "sn_newSpool snap = newSpoolFactory (cfg_Limits c)"
    by (simp_all add: snap)
  ultimately show ?thesis unfolding snap_ok_def sel using lookup pol part by (simp add: c_def)
qed


section \<open>The connection to the quota store\<close>

text \<open>\<open>opened\<close> is the set of connection pools that are open in a world: connecting adds a new one, closing
  removes one, and the file system knows nothing of them.\<close>

definition pool_laws :: "('w, 'm) server_env_scheme \<Rightarrow> ('w \<Rightarrow> nat set) \<Rightarrow> bool" where
  "pool_laws E opened \<longleftrightarrow>
     (\<forall>store w c w'. rd_Connect (env_quota E) store w = (c, w') \<longrightarrow>
        c \<notin> opened w \<and> opened w' = insert c (opened w)) \<and>
     (\<forall>c w. opened (rd_Close (env_quota E) c w) = opened w - {c}) \<and>
     (\<forall>dir pat w e w'. os_CreateTemp E dir pat w = (e, w') \<longrightarrow> opened w' = opened w) \<and>
     (\<forall>w e w'. os_Remove E w = (e, w') \<longrightarrow> opened w' = opened w) \<and>
     (\<forall>w. opened (file_Close E w) = opened w)"

lemma pool_Connect:
  "pool_laws E opened \<Longrightarrow> rd_Connect (env_quota E) store w = (c, w') \<Longrightarrow>
   c \<notin> opened w \<and> opened w' = insert c (opened w)"
  by (simp add: pool_laws_def)

lemma pool_Close: "pool_laws E opened \<Longrightarrow> opened (rd_Close (env_quota E) c w) = opened w - {c}"
  by (simp add: pool_laws_def)

lemma pool_CreateTemp: "pool_laws E opened \<Longrightarrow> os_CreateTemp E dir pat w = (e, w') \<Longrightarrow> opened w' = opened w"
  by (simp add: pool_laws_def)

lemma pool_Remove: "pool_laws E opened \<Longrightarrow> os_Remove E w = (e, w') \<Longrightarrow> opened w' = opened w"
  by (simp add: pool_laws_def)

lemma pool_file_Close: "pool_laws E opened \<Longrightarrow> opened (file_Close E w) = opened w"
  by (simp add: pool_laws_def)

definition client_open :: "('w \<Rightarrow> nat set) \<Rightarrow> snapshot option \<Rightarrow> 'w \<Rightarrow> bool" where
  "client_open opened s w \<longleftrightarrow> (\<forall>c. limiterClient s = Some c \<longrightarrow> c \<in> opened w)"

lemma probeSpool_pool:
  assumes "pool_laws E opened" "probeSpool E dir w = (e, w')"
  shows "opened w' = opened w"
proof -
  obtain e1 w1 where c: "os_CreateTemp E dir (spoolFilePrefix @ ''probe-*'') w = (e1, w1)" by fastforce
  obtain e2 w2 where r: "os_Remove E (file_Close E w1) = (e2, w2)" by fastforce
  show ?thesis
    using assms(2) c r pool_CreateTemp [OF assms(1) c] pool_Remove [OF assms(1) r] pool_file_Close [OF assms(1), of w1]
    by (auto simp: probeSpool_def Let_def split: option.splits)
qed

lemma limiter_for_pool:
  assumes "pool_laws E opened" "client_open opened prev w" "limiter_for E prev cfg w = (r, w')"
  shows "opened w \<subseteq> opened w' \<and> (\<forall>l. r = Inr (Some l) \<longrightarrow> li_client l \<in> opened w')"
proof (cases "reusableLimiter prev cfg")
  case (Some l)
  then have "limiterClient prev = Some (li_client l)"
    by (auto simp: reusableLimiter_def limiterClient_def split: option.splits if_splits)
  then show ?thesis using assms(2,3) Some by (auto simp: limiter_for_def client_open_def)
next
  case None
  show ?thesis
  proof (cases "cfg_RateLimit cfg")
    case no: None
    then show ?thesis using assms(3) None by (auto simp: limiter_for_def newLimiter_def)
  next
    case (Some rl)
    obtain c w1 where cn: "rd_Connect (env_quota E) (rl_Store rl) w = (c, w1)" by fastforce
    have "(\<exists>l. r = Inr (Some l) \<and> li_client l = c \<and> w' = w1) \<or> (\<exists>e. r = Inl e \<and> w' = w)"
      using assms(3) None Some cn by (auto simp: limiter_for_def newLimiter_def Let_def split: if_splits)
    then show ?thesis using pool_Connect [OF assms(1) cn] by auto
  qed
qed

lemma newSnapshot_pool:
  assumes "pool_laws E opened" "client_open opened prev w" "newSnapshot E U cfg prev w = (r, w')"
  shows "opened w \<subseteq> opened w' \<and> (\<forall>snap. r = Some (Inr snap) \<longrightarrow> client_open opened (Some snap) w')"
proof -
  define c where "c = applyDefaults cfg"
  obtain served rejected where part: "PartitionAccounts (bcrypt_Cost E) c = (served, rejected)" by fastforce
  obtain l w1 where lf: "limiter_for E prev c w = (l, w1)" by fastforce
  obtain e w2 where pr: "probeSpool E (lim_SpoolDir (cfg_Limits c)) w1 = (e, w2)" by fastforce
  note pool = limiter_for_pool [OF assms(1,2) lf] probeSpool_pool [OF assms(1) pr]
  show ?thesis
  proof (cases "static_parts E U c")
    case (Inl err)
    then show ?thesis using assms(3) by (auto simp: newSnapshot_def c_def [symmetric] Let_def)
  next
    case (Inr parts)
    obtain certs relay milters signer where "parts = (certs, relay, milters, signer)" by (metis surj_pair)
    then show ?thesis using assms(3) pool Inr lf pr part
      by (cases l; cases e; cases "newAccountStore (bcrypt_Generate E) served")
        (auto simp: newSnapshot_def c_def [symmetric] Let_def client_open_def limiterClient_def)
  qed
qed


section \<open>Properties\<close>

text \<open>A world for demonstrations: the descriptors and the connection pools that are open. Everything works,
  filters accept, and the upstream takes what it is given.\<close>

record demo_world =
  dw_fds :: nat
  dw_pools :: "nat list"

definition demo_quota :: "demo_world quota_env" where
  "demo_quota =
     \<lparr>clk_Unix = (\<lambda>w. (90, w)),
      rd_Connect = (\<lambda>_ w. let c = Suc (sum_list (dw_pools w)) in (c, w\<lparr>dw_pools := c # dw_pools w\<rparr>)),
      rd_IncrBy = (\<lambda>c _ _ _ _ w. (if c \<in> set (dw_pools w) then Inr 1 else Inl (Plain ''closed''), w)),
      rd_Close = (\<lambda>c w. w\<lparr>dw_pools := removeAll c (dw_pools w)\<rparr>)\<rparr>"

definition demo_server :: "demo_world server_env" where
  "demo_server =
     \<lparr>os_TempDir = ''/tmp'', os_CreateTemp = (\<lambda>_ _ w. (None, w\<lparr>dw_fds := Suc (dw_fds w)\<rparr>)),
      os_Remove = (\<lambda>w. (None, w)), file_Write = (\<lambda>p w. ((length p, None), w)),
      file_Seek = (\<lambda>_ w. (None, w)), file_Read = (\<lambda>d w. (([d], None), w)),
      file_Truncate = (\<lambda>w. (None, w)), file_Close = (\<lambda>w. w\<lparr>dw_fds := dw_fds w - 1\<rparr>),
      up_Call = (\<lambda>_ w. (None, w)), up_Write = (\<lambda>p w. ((length p, None), w)), up_Close = (\<lambda>w. w),
      mil_Session = (\<lambda>_ _ w. (None, w)), mil_Call = (\<lambda>_ w. (Inr None, w)),
      mil_BodyReadFrom = (\<lambda>_ w. (Inr ([], None), w)), mil_Close = (\<lambda>w. w),
      mil_StopProcessing = (\<lambda>a. ma_SMTPCode a \<ge> 400), net_ParseIP_v6 = (\<lambda>_. False),
      dkim_Sign = (\<lambda>_ r w. (case r of (c, None) \<Rightarrow> (with_signature ''v=1'' [] # c, None)
                                   | (c, Some e) \<Rightarrow> ([], Some e), w)),
      env_quota = demo_quota,
      env_certs =
        \<lparr>cl_ReadFile = Inr, cl_X509KeyPair = (\<lambda>c k. Inr \<lparr>ct_Chain = c, ct_Key = k\<rparr>),
         cl_ParseCertificate = (\<lambda>c. Inr \<lparr>lf_DNSNames = [c], lf_CommonName = []\<rparr>)\<rparr>,
      env_keys = demo_keyring, env_pem_ok = (\<lambda>_. True), bcrypt_Cost = (\<lambda>_. Some 12),
      bcrypt_Generate = (\<lambda>p _. Some p), bcrypt_Compare = (\<lambda>h p. h = p),
      sem_Acquire = (\<lambda>w. (None, w)), sem_Release = (\<lambda>w. w), time_Now = (\<lambda>w. (0, w)),
      time_RFC1123Z = (\<lambda>_. ''Mon, 02 Jan 2006 15:04:05 -0700''), net_Listen = (\<lambda>_ w. (Inr 0, w)),
      net_Close = (\<lambda>_ w. w), srv_Close = (\<lambda>w. w)\<rparr>"

lemma demo_server_laws [simp]:
  "os_laws demo_server" "up_laws demo_server" "os_errors demo_server" "dkim_laws demo_server"
  by (auto simp: os_laws_def up_laws_def os_errors_def dkim_laws_def demo_server_def with_signature_def
      split: option.splits)

lemma demo_server_pool: "pool_laws demo_server (\<lambda>w. set (dw_pools w))"
proof -
  have "Suc (sum_list ns) \<notin> set ns" for ns :: "nat list"
    using member_le_sum_list [of "Suc (sum_list ns)" ns] by auto
  then show ?thesis by (auto simp: pool_laws_def demo_server_def demo_quota_def Let_def)
qed

definition sample_limits :: RateLimit where
  "sample_limits = li_limits sample_limiter"

definition demo_start :: Server where
  "demo_start = \<lparr>sv_current = None, sv_verifying = 1, sv_servers = []\<rparr>"

text \<open>C7: A reload is all or nothing. When anything about the new configuration is refused, the server goes
  on with what it had, and counts a failure. Otherwise it serves the new configuration, complete with its
  defaults: its store knows exactly the accounts that can be served, each under its own sender policy, and
  any other name may send nothing; the gauges report how many accounts are served and how many are not.\<close>

theorem reload_all_or_nothing:
  assumes "Reload E U cfg s w = (Some (err, ms, s'), w')"
  shows "case err of
           Some e \<Rightarrow> s' = s \<and> ms = [configReloaded ''failure'' 0 0]
         | None \<Rightarrow>
             (\<exists>snap. s' = s\<lparr>sv_current := Some snap\<rparr> \<and> sn_config snap = applyDefaults cfg \<and>
                Validate (sn_config snap) = [] \<and> snap_ok E U snap \<and>
                (\<forall>u address. lookup_account (sn_accounts snap) u = None \<longrightarrow>
                   \<not> allows U (ap_senders (policyFor U snap u)) address) \<and>
                (let (served, rejected) = PartitionAccounts (bcrypt_Cost E) (applyDefaults cfg)
                 in ms = [configReloaded ''success'' (length served) (length rejected)]))"
proof (cases err)
  case (Some e)
  then show ?thesis using assms
    by (auto simp: Reload_def Let_def split: prod.splits option.splits sum.splits)
next
  case None
  obtain snap w1 where ns: "newSnapshot E U cfg (sv_current s) w = (Some (Inr snap), w1)"
    and s': "s' = s\<lparr>sv_current := Some snap\<rparr>"
    and ms: "ms = [configReloaded ''success'' (length (as_byUsername (sn_accounts snap))) (length (sn_rejected snap))]"
    using assms None by (auto simp: Reload_def Let_def split: prod.splits option.splits sum.splits)
  note ok = newSnapshot_ok [OF ns]
  have "\<not> allows U (ap_senders (policyFor U snap u)) address"
    if "lookup_account (sn_accounts snap) u = None" for u address
    using ok that by (auto simp: snap_ok_def newSenderPolicy_def allows_def Let_def split: prod.splits)
  then show ?thesis using None s' ms ok by (auto simp: Let_def split: prod.splits)
qed

text \<open>C31: The quota store in service is never closed under the gateway. Whatever a reload does, the
  connection of the snapshot in service afterwards is open; after a reload that succeeded with another
  store, the old connection is closed, once.\<close>

theorem reload_keeps_store_open:
  assumes "pool_laws E opened" "client_open opened (sv_current s) w"
    and "Reload E U cfg s w = (Some (err, ms, s'), w')"
  shows "client_open opened (sv_current s') w' \<and>
         (err = None \<longrightarrow>
            (\<forall>c. limiterClient (sv_current s) = Some c \<and> limiterClient (sv_current s') \<noteq> Some c \<longrightarrow>
               c \<notin> opened w'))"
proof (cases err)
  case (Some e)
  then obtain r where ns: "newSnapshot E U cfg (sv_current s) w = (r, w')" and "s' = s"
    using assms(3) by (auto simp: Reload_def Let_def split: prod.splits option.splits sum.splits)
  then show ?thesis using newSnapshot_pool [OF assms(1,2) ns] assms(2) Some by (auto simp: client_open_def)
next
  case None
  obtain snap w1 where ns: "newSnapshot E U cfg (sv_current s) w = (Some (Inr snap), w1)"
    and s': "s' = s\<lparr>sv_current := Some snap\<rparr>"
    and w': "w' = (case sv_current s of None \<Rightarrow> w1
                   | Some p \<Rightarrow> if sn_limiter p \<noteq> None \<and> limiterClient (Some p) \<noteq> limiterClient (Some snap)
                              then limiter_close (env_quota E) (sn_limiter p) w1 else w1)"
    using assms(3) None by (auto simp: Reload_def Let_def split: prod.splits option.splits sum.splits)
  have op: "client_open opened (Some snap) w1" using newSnapshot_pool [OF assms(1,2) ns] by simp
  show ?thesis
  proof (cases "limiterClient (sv_current s) = limiterClient (Some snap) \<or> limiterClient (sv_current s) = None")
    case True
    then have "w' = w1" using w' by (auto simp: limiterClient_def split: option.splits)
    then show ?thesis using op True s' by auto
  next
    case False
    then obtain p l where p: "sv_current s = Some p" "sn_limiter p = Some l"
      by (auto simp: limiterClient_def split: option.splits)
    then have lc: "limiterClient (Some p) = Some (li_client l)" by (simp add: limiterClient_def)
    then have ne: "limiterClient (Some snap) \<noteq> Some (li_client l)" using False p by auto
    have "w' = rd_Close (env_quota E) (li_client l) w1"
      using w' p lc ne [symmetric] by (simp add: limiter_close_def)
    then have "opened w' = opened w1 - {li_client l}" using pool_Close [OF assms(1)] by simp
    then show ?thesis using op p ne s' by (auto simp: client_open_def limiterClient_def)
  qed
qed

theorem reload_all_or_nothing_witness:
  "(\<exists>s' w'. Reload demo_server ascii_unicode sample_config demo_start \<lparr>dw_fds = 0, dw_pools = []\<rparr> =
      (Some (None, [configReloaded ''success'' 1 0], s'), w') \<and>
      (\<exists>snap. sv_current s' = Some snap \<and> snap_ok demo_server ascii_unicode snap)) \<and>
   (\<exists>e ms s' w'. Reload demo_server ascii_unicode (sample_config\<lparr>cfg_Listeners := []\<rparr>) demo_start
      \<lparr>dw_fds = 0, dw_pools = []\<rparr> = (Some (Some e, ms, s'), w') \<and> s' = demo_start)"
proof -
  let ?w = "\<lparr>dw_fds = 0, dw_pools = []\<rparr>"
  let ?good = "Reload demo_server ascii_unicode sample_config demo_start ?w"
  let ?bad = "Reload demo_server ascii_unicode (sample_config\<lparr>cfg_Listeners := []\<rparr>) demo_start ?w"
  have g: "case fst ?good of None \<Rightarrow> False | Some (e, ms, _) \<Rightarrow> e = None \<and> ms = [configReloaded ''success'' 1 0]"
    by code_simp
  have b: "case fst ?bad of None \<Rightarrow> False | Some (e, ms, _) \<Rightarrow> e \<noteq> None" by code_simp
  obtain s1 w1 where r1: "?good = (Some (None, [configReloaded ''success'' 1 0], s1), w1)"
    using g by (cases ?good) (auto split: option.splits)
  obtain e ms s2 w2 where r2: "?bad = (Some (Some e, ms, s2), w2)"
    using b by (cases ?bad) (auto split: option.splits)
  show ?thesis
    using reload_all_or_nothing [OF r1] reload_all_or_nothing [OF r2] r1 r2 by auto
qed

theorem reload_keeps_store_open_witness:
  "\<exists>snap s2 w2. sv_current s2 = Some snap \<and> sn_limiter snap \<noteq> None \<and>
     Reload demo_server ascii_unicode (sample_config\<lparr>cfg_RateLimit := Some sample_limits\<rparr>) demo_start
       \<lparr>dw_fds = 0, dw_pools = []\<rparr> = (Some (None, [configReloaded ''success'' 1 0], s2), w2) \<and>
     client_open (\<lambda>w. set (dw_pools w)) (sv_current s2) w2"
proof -
  let ?run = "Reload demo_server ascii_unicode (sample_config\<lparr>cfg_RateLimit := Some sample_limits\<rparr>) demo_start
       \<lparr>dw_fds = 0, dw_pools = []\<rparr>"
  have r: "case fst ?run of None \<Rightarrow> False
           | Some (e, ms, s) \<Rightarrow> e = None \<and> ms = [configReloaded ''success'' 1 0] \<and>
               (case sv_current s of None \<Rightarrow> False | Some snap \<Rightarrow> sn_limiter snap \<noteq> None)"
    by code_simp
  obtain s2 w2 where s2: "?run = (Some (None, [configReloaded ''success'' 1 0], s2), w2)"
    using r by (cases ?run) (auto split: option.splits)
  moreover obtain snap where "sv_current s2 = Some snap" "sn_limiter snap \<noteq> None"
    using r s2 by (auto split: option.splits)
  moreover have "client_open (\<lambda>w. set (dw_pools w)) (sv_current demo_start) \<lparr>dw_fds = 0, dw_pools = []\<rparr>"
    by (simp add: client_open_def demo_start_def limiterClient_def)
  ultimately show ?thesis using reload_keeps_store_open [OF demo_server_pool _ s2] by auto
qed

text \<open>A configuration whose spool directory cannot be written is refused after the new connection to its
  quota store was opened, and nothing closes that connection: each such reload leaves one more.\<close>

lemma failed_reload_leaks_connection:
  "let E = demo_server\<lparr>os_CreateTemp := (\<lambda>_ _ w. (Some (Plain ''read-only file system''), w))\<rparr>;
       cfg = sample_config\<lparr>cfg_RateLimit := Some sample_limits\<rparr>
   in case Reload E ascii_unicode cfg demo_start \<lparr>dw_fds = 0, dw_pools = []\<rparr> of
        (Some (err, _, s'), w') \<Rightarrow> err \<noteq> None \<and> sv_current s' = None \<and> dw_pools w' = [1]
      | (None, _) \<Rightarrow> False"
  by code_simp

end
