(* ===== verification/Session.thy ===== *)
theory Session
  imports Server
begin

text \<open>
  \<^verbatim>\<open>internal/gateway/server.go\<close>, the session: one client connection from its login to the delivery of
  its messages. A session operation takes the snapshot that is in service when it runs; the connection is
  what the go-smtp package reports about the client. Each operation returns the metrics it counted, and
  \<open>Data\<close> the calls made to the upstream.
\<close>


section \<open>Sessions\<close>

record connection =
  cn_Hostname :: string
  cn_RemoteAddr :: "string option"
  cn_TCPAddr :: "(string \<times> nat) option"
  cn_TLS :: "(string \<times> string) option"

text \<open>\<open>ss_closed\<close> records that the session closed its connection.\<close>

record session =
  ss_conn :: connection
  ss_snap :: snapshot
  ss_account :: "Account option"
  ss_from :: string
  ss_to :: "string list"
  ss_authFailures :: nat
  ss_closed :: bool

definition newSession :: "connection \<Rightarrow> snapshot \<Rightarrow> session" where
  "newSession c snap =
     \<lparr>ss_conn = c, ss_snap = snap, ss_account = None, ss_from = [], ss_to = [], ss_authFailures = 0,
      ss_closed = False\<rparr>"

definition smtp_ErrAuthRequired :: go_error where "smtp_ErrAuthRequired = Sentinel ''smtp.ErrAuthRequired''"
definition smtp_ErrAuthFailed :: go_error where "smtp_ErrAuthFailed = Sentinel ''smtp.ErrAuthFailed''"
definition smtp_ErrAuthUnknownMechanism :: go_error where
  "smtp_ErrAuthUnknownMechanism = Sentinel ''smtp.ErrAuthUnknownMechanism''"

definition maxAuthFailures :: nat where "maxAuthFailures = 3"

definition AuthMechanisms :: "string list" where "AuthMechanisms = [''PLAIN'', ''LOGIN'']"

datatype sasl_server = PlainServer | LoginServer loginServer

definition session_Auth :: "string \<Rightarrow> sasl_server result" where
  "session_Auth mech =
     (if mech = ''PLAIN'' then Inr PlainServer
      else if mech = ''LOGIN'' then Inr (LoginServer newLoginServer)
      else Inl smtp_ErrAuthUnknownMechanism)"

text \<open>Beside the metrics, the hashes bcrypt was run on.\<close>

definition authenticate ::
  "('w, 'm) server_env_scheme \<Rightarrow> string \<Rightarrow> string \<Rightarrow> session \<Rightarrow> 'w \<Rightarrow>
     go_error option \<times> metric list \<times> string list \<times> session \<times> 'w" where
  "authenticate E username password s w =
     (if ss_authFailures s \<ge> maxAuthFailures then
        (Some (SMTPErr errTooManyAuthFailures), [], [], s\<lparr>ss_closed := True\<rparr>, w)
      else case sem_Acquire E w of
        (Some err, w) \<Rightarrow> (Some (SMTPErr errAuthBusy), [], [], s, w)
      | (None, w) \<Rightarrow>
          (case store_authenticate (bcrypt_Compare E) (sn_accounts (ss_snap s)) username password of
             (Inl err, hashes) \<Rightarrow>
               (Some smtp_ErrAuthFailed, [authFailed (label (sn_accounts (ss_snap s)) username)], hashes,
                s\<lparr>ss_authFailures := ss_authFailures s + 1\<rparr>, sem_Release E w)
           | (Inr acct, hashes) \<Rightarrow> (None, [], hashes, s\<lparr>ss_account := Some acct\<rparr>, sem_Release E w)))"

definition stillAuthorized :: "snapshot \<Rightarrow> Account \<Rightarrow> session \<Rightarrow> go_error option \<times> session" where
  "stillAuthorized current acct s =
     (case lookup_account (sn_accounts current) (acc_Username acct) of
        None \<Rightarrow> (Some (SMTPErr errCredentialsRevoked), s\<lparr>ss_closed := True\<rparr>)
      | Some acct \<Rightarrow>
          if acc_Disabled acct then (Some (SMTPErr errCredentialsRevoked), s\<lparr>ss_closed := True\<rparr>)
          else (None, s\<lparr>ss_snap := current, ss_account := Some acct\<rparr>))"

text \<open>\<^verbatim>\<open>s.account.Username\<close>.\<close>

definition account_name :: "session \<Rightarrow> string" where
  "account_name s = (case ss_account s of Some a \<Rightarrow> acc_Username a | None \<Rightarrow> [])"

definition session_Mail ::
  "unicode \<Rightarrow> snapshot \<Rightarrow> string \<Rightarrow> session \<Rightarrow> go_error option \<times> metric list \<times> session" where
  "session_Mail U current from s =
     (case ss_account s of
        None \<Rightarrow> (Some smtp_ErrAuthRequired, [], s)
      | Some acct \<Rightarrow>
          (case stillAuthorized current acct s of
             (Some err, s) \<Rightarrow> (Some err, [], s)
           | (None, s) \<Rightarrow>
               if \<not> allows U (ap_senders (policyFor U (ss_snap s) (account_name s))) from
               then (Some (SMTPErr (errSenderNotAllowed from)),
                     [messageHandled (account_name s) ResultRejected], s)
               else (None, [], s\<lparr>ss_from := from, ss_to := []\<rparr>)))"

definition session_Rcpt :: "string \<Rightarrow> session \<Rightarrow> go_error option \<times> session" where
  "session_Rcpt to s =
     (case ss_account s of
        None \<Rightarrow> (Some smtp_ErrAuthRequired, s)
      | Some _ \<Rightarrow> (None, s\<lparr>ss_to := ss_to s @ [to]\<rparr>))"

definition session_Reset :: "session \<Rightarrow> session" where
  "session_Reset s = s\<lparr>ss_from := [], ss_to := []\<rparr>"

definition session_Logout :: "session \<Rightarrow> go_error option" where
  "session_Logout s = None"


section \<open>The Received header\<close>

definition headerSafeLimit :: nat where "headerSafeLimit = 128"

definition headerSafe :: "string \<Rightarrow> string" where
  "headerSafe v =
     (let v = (if length v > headerSafeLimit then take headerSafeLimit v else v) in
      map_runes (\<lambda>r. if r < 0x20 \<or> r = 0x7f then 0x3f else r) v)"

definition remoteAddr :: "session \<Rightarrow> string" where
  "remoteAddr s = (case cn_RemoteAddr (ss_conn s) of Some a \<Rightarrow> a | None \<Rightarrow> ''unknown'')"

text \<open>\<open>date\<close> is the current time in RFC 1123 form.\<close>

definition receivedHeader :: "session \<Rightarrow> string \<Rightarrow> string \<Rightarrow> bytes" where
  "receivedHeader s username date =
     ''Received: from '' @ headerSafe (cn_Hostname (ss_conn s)) @ '' ('' @ headerSafe (remoteAddr s) @ '')'' @
     CRLF @ [TAB] @ ''by '' @ headerSafe (cfg_Hostname (sn_config (ss_snap s))) @
     '' (mailout) with ESMTPSA id '' @ headerSafe username @ '';'' @ CRLF @ [TAB] @ date @ CRLF"

definition session_info :: "session \<Rightarrow> sessionInfo" where
  "session_info s =
     \<lparr>si_Hostname = cn_Hostname (ss_conn s),
      si_RemoteIP = (case cn_TCPAddr (ss_conn s) of Some (ip, _) \<Rightarrow> ip | None \<Rightarrow> []),
      si_RemotePort = (case cn_TCPAddr (ss_conn s) of Some (_, port) \<Rightarrow> port mod 65536 | None \<Rightarrow> 0),
      si_TLSVersion = (case cn_TLS (ss_conn s) of Some (v, _) \<Rightarrow> v | None \<Rightarrow> []),
      si_TLSCipher = (case cn_TLS (ss_conn s) of Some (_, c) \<Rightarrow> c | None \<Rightarrow> []),
      si_AuthUser = (case ss_account s of Some a \<Rightarrow> acc_Username a | None \<Rightarrow> []),
      si_MTAName = cfg_Hostname (sn_config (ss_snap s))\<rparr>"


section \<open>The From header\<close>

definition spaced_name :: "headerField \<Rightarrow> bool" where
  "spaced_name f \<longleftrightarrow> hf_Name f \<noteq> trim_right (hf_Name f) [SP, TAB]"

definition check_from_fields :: "unicode \<Rightarrow> headerField list \<Rightarrow> senderPolicy \<Rightarrow> smtp_error option" where
  "check_from_fields U hs policy =
     (if list_ex spaced_name hs then Some (errMalformedHeaders ''whitespace before a header's colon'')
      else (case map hf_Value (filter (\<lambda>f. equal_fold U (hf_Name f) ''From'') hs) of
              [] \<Rightarrow> Some (errMalformedHeaders ''no From header'')
            | [found] \<Rightarrow>
                if \<not> allows U policy found then Some (errSenderNotAllowed (trim_space found)) else None
            | _ \<Rightarrow> Some (errMalformedHeaders ''more than one From header'')))"

definition checkHeaderFrom ::
  "('w, 'm) os_env_scheme \<Rightarrow> unicode \<Rightarrow> spool \<Rightarrow> senderPolicy \<Rightarrow> 'w \<Rightarrow> smtp_error option \<times> spool \<times> 'w" where
  "checkHeaderFrom E U body policy w =
     (case headerBlock E body w of
        (Inl err, body, w) \<Rightarrow> (Some (errSpoolFailed err), body, w)
      | (Inr (header, terminated), body, w) \<Rightarrow>
          (if \<not> terminated then Some (errMalformedHeaders ''no end of header block found'')
           else check_from_fields U (pm_Headers (parseMessage header)) policy, body, w))"


section \<open>Data\<close>

definition resultFor :: "go_error \<Rightarrow> string \<Rightarrow> string" where
  "resultFor err fallback =
     (case errors_As err of
        Some e \<Rightarrow> if se_Code e \<ge> 500 then ResultRejected else ResultDeferred
      | None \<Rightarrow> fallback)"

definition filterResult :: "go_error \<Rightarrow> string" where "filterResult err = resultFor err ResultRejected"
definition relayResult :: "go_error \<Rightarrow> string" where "relayResult err = resultFor err ResultDeferred"

definition errNoRecipients :: smtp_error where
  "errNoRecipients = smtp_reply 554 (5, 5, 1) ''No valid recipients''"

definition errSignFailed :: smtp_error where
  "errSignFailed = smtp_reply 451 (4, 3, 0) ''Unable to sign the message, try again later''"

text \<open>Buffering: the \<^verbatim>\<open>Received\<close> header first, then what the client sends, as its reader delivers it.\<close>

definition buffer_message ::
  "('w, 'm) server_env_scheme \<Rightarrow> session \<Rightarrow> string \<Rightarrow> bytes list \<times> go_error option \<Rightarrow> 'w \<Rightarrow>
     go_error option \<times> spool \<times> 'w" where
  "buffer_message E s username r w =
     (case time_Now E w of
        (now, w) \<Rightarrow>
          (case Write E (receivedHeader s username (time_RFC1123Z E now)) (sn_newSpool (ss_snap s) ()) w of
             ((_, Some err), body, w) \<Rightarrow> (Some (SMTPErr (errSpoolFailed err)), body, w)
           | ((_, None), body, w) \<Rightarrow> io_Copy (Write E) (fst r) (snd r) body w))"

text \<open>The stages a buffered message goes through. Each returns what \<open>Data\<close> has to answer at once, if
  anything, in a \<^const>\<open>Some\<close>.\<close>

definition from_stage ::
  "('w, 'm) server_env_scheme \<Rightarrow> unicode \<Rightarrow> accountPolicy \<Rightarrow> Message \<Rightarrow> 'w \<Rightarrow>
     go_error option option \<times> metric list \<times> Message \<times> 'w" where
  "from_stage E U policy msg w =
     (if ap_skipHeaderFromCheck policy then (None, [], msg, w)
      else case checkHeaderFrom E U (msg_Body msg) (ap_senders policy) w of
        (Some err, body, w) \<Rightarrow>
          (Some (Some (SMTPErr err)), [messageHandled (msg_Account msg) ResultRejected],
           msg\<lparr>msg_Body := body\<rparr>, w)
      | (None, body, w) \<Rightarrow> (None, [], msg\<lparr>msg_Body := body\<rparr>, w))"

definition milter_stage ::
  "('w, 'm) server_env_scheme \<Rightarrow> unicode \<Rightarrow> session \<Rightarrow> accountPolicy \<Rightarrow> Message \<Rightarrow> 'w \<Rightarrow>
     go_error option option \<times> metric list \<times> Message \<times> 'w" where
  "milter_stage E U s policy msg w =
     (if chain_empty (ap_milters policy) then (None, [], msg, w)
      else case run_chain E U (ap_milters policy) msg (session_info s) w of
        (None, ms, msg, w) \<Rightarrow> (None, ms, msg, w)
      | (Some err, ms, msg, w) \<Rightarrow>
          if errors_Is_discard err
          then (Some None, ms @ [messageHandled (msg_Account msg) ResultDiscarded], msg, w)
          else (Some (Some err), ms @ [messageHandled (msg_Account msg) (filterResult err)], msg, w))"

definition sign_stage ::
  "('w, 'm) server_env_scheme \<Rightarrow> unicode \<Rightarrow> session \<Rightarrow> accountPolicy \<Rightarrow> Message \<Rightarrow> 'w \<Rightarrow>
     go_error option option \<times> metric list \<times> Message \<times> 'w" where
  "sign_stage E U s policy msg w =
     (if signer_empty (sn_dkim (ss_snap s)) then (None, [], msg, w)
      else case sign E U (sn_dkim (ss_snap s)) msg (ap_senders policy) w of
        (None, ms, msg, w) \<Rightarrow> (None, ms, msg, w)
      | (Some err, ms, msg, w) \<Rightarrow>
          (Some (Some (SMTPErr errSignFailed)), ms @ [messageHandled (msg_Account msg) ResultDeferred], msg, w))"

definition relay_stage ::
  "('w, 'm) server_env_scheme \<Rightarrow> session \<Rightarrow> Message \<Rightarrow> 'w \<Rightarrow>
     go_error option \<times> metric list \<times> calls \<times> Message \<times> 'w" where
  "relay_stage E s msg w =
     (case time_Now E w of
        (start, w) \<Rightarrow>
          (case send E (sn_relay (ss_snap s)) msg w of
             (err, made, msg, w) \<Rightarrow>
               (case time_Now E w of
                  (now, w) \<Rightarrow>
                    (err,
                     upstreamDelivered (now - start) #
                       [case err of
                          Some e \<Rightarrow> messageHandled (msg_Account msg) (relayResult e)
                        | None \<Rightarrow> messageRelayed (msg_Account msg) (spool_Len (msg_Body msg))],
                     made, msg, w))))"

definition process_message ::
  "('w, 'm) server_env_scheme \<Rightarrow> unicode \<Rightarrow> session \<Rightarrow> accountPolicy \<Rightarrow> Message \<Rightarrow> 'w \<Rightarrow>
     go_error option \<times> metric list \<times> calls \<times> Message \<times> 'w" where
  "process_message E U s policy msg w =
     (case from_stage E U policy msg w of
        (Some r, ms, msg, w) \<Rightarrow> (r, ms, [], msg, w)
      | (None, ms1, msg, w) \<Rightarrow>
     (case milter_stage E U s policy msg w of
        (Some r, ms, msg, w) \<Rightarrow> (r, ms1 @ ms, [], msg, w)
      | (None, ms2, msg, w) \<Rightarrow>
     (case sign_stage E U s policy msg w of
        (Some r, ms, msg, w) \<Rightarrow> (r, ms1 @ ms2 @ ms, [], msg, w)
      | (None, ms3, msg, w) \<Rightarrow>
     (case relay_stage E s msg w of
        (r, ms, made, msg, w) \<Rightarrow> (r, ms1 @ ms2 @ ms3 @ ms, made, msg, w)))))"

text \<open>The deferred \<^verbatim>\<open>Close\<close> is on the spool \<open>Data\<close> opened. A stage that put another one in its place has
  already closed it, and a second \<^verbatim>\<open>Close\<close> does nothing.\<close>

definition close_opened :: "('w, 'm) server_env_scheme \<Rightarrow> spool \<Rightarrow> 'w \<Rightarrow> 'w" where
  "close_opened E body w = (if sp_gen body = 0 then snd (spool_Close E body w) else w)"

definition accept_message ::
  "('w, 'm) server_env_scheme \<Rightarrow> unicode \<Rightarrow> session \<Rightarrow> string \<Rightarrow> bytes list \<times> go_error option \<Rightarrow> 'w \<Rightarrow>
     go_error option \<times> metric list \<times> calls \<times> 'w" where
  "accept_message E U s username r w =
     (case buffer_message E s username r w of
        (Some err, body, w) \<Rightarrow> (Some err, [], [], close_opened E body w)
      | (None, body, w) \<Rightarrow>
          (let spooled_ms = (if spooled body then [messageSpooled username] else []);
               msg = \<lparr>msg_From = ss_from s, msg_To = ss_to s, msg_Body = body, msg_Account = username\<rparr>;
               policy = policyFor U (ss_snap s) username
           in case process_message E U s policy msg w of
                (err, ms, made, msg, w) \<Rightarrow> (err, spooled_ms @ ms, made, close_opened E (msg_Body msg) w)))"

definition session_Data ::
  "('w, 'm) server_env_scheme \<Rightarrow> unicode \<Rightarrow> snapshot \<Rightarrow> bytes list \<times> go_error option \<Rightarrow> session \<Rightarrow> 'w \<Rightarrow>
     go_error option \<times> metric list \<times> calls \<times> session \<times> 'w" where
  "session_Data E U current r s w =
     (case ss_account s of
        None \<Rightarrow> (Some smtp_ErrAuthRequired, [], [], s, w)
      | Some acct \<Rightarrow>
          if length (ss_to s) = 0 then (Some (SMTPErr errNoRecipients), [], [], s, w)
          else case stillAuthorized current acct s of
            (Some err, s) \<Rightarrow> (Some err, [], [], s, w)
          | (None, s) \<Rightarrow>
              (let username = account_name s in
               case check_quota (env_quota E) (sn_limiter (ss_snap s)) username (length (ss_to s)) w of
                 (Some err, ms, w) \<Rightarrow>
                   (Some (SMTPErr err), ms @ [messageHandled username ResultDeferred], [], s, w)
               | (None, ms, w) \<Rightarrow>
                   (case accept_message E U s username r w of
                      (err, ms', made, w) \<Rightarrow> (err, ms @ ms', made, s, w))))"


section \<open>Nothing unprintable in the Received header\<close>

lemma ascii_mem_encode:
  "ord c < 0x80 \<Longrightarrow> c \<in> set (encode rs) \<Longrightarrow> ord c \<in> set rs"
  by (induction rs) (auto dest: ascii_mem_encode_rune)

lemma headerSafe_printable:
  assumes "c \<in> set (headerSafe v)"
  shows "0x20 \<le> ord c \<and> ord c \<noteq> 0x7f"
proof (rule ccontr)
  assume bad: "\<not> ?thesis"
  then have a: "ord c < 0x80" by auto
  let ?f = "\<lambda>r. if r < 0x20 \<or> r = 0x7f then 0x3f else r :: rune"
  obtain v' where "headerSafe v = encode (map ?f (runes v'))"
    by (auto simp: headerSafe_def map_runes_def Let_def)
  then have "ord c \<in> set (map ?f (runes v'))" using ascii_mem_encode [OF a] assms by metis
  then show False using bad by auto
qed

lemma headerSafe_line: "LF \<notin> set (headerSafe v)" "CR \<notin> set (headerSafe v)"
  using headerSafe_printable [of LF v] headerSafe_printable [of CR v] by (auto simp: ord_def)

text \<open>The header as one field of a parsed message.\<close>

definition received_field :: "session \<Rightarrow> string \<Rightarrow> string \<Rightarrow> headerField" where
  "received_field s username date =
     \<lparr>hf_Name = ''Received'',
      hf_Value = (''from '' @ headerSafe (cn_Hostname (ss_conn s)) @ '' ('' @ headerSafe (remoteAddr s) @ '')'') @
        folded [[TAB] @ ''by '' @ headerSafe (cfg_Hostname (sn_config (ss_snap s))) @
                  '' (mailout) with ESMTPSA id '' @ headerSafe username @ '';'', [TAB] @ date]\<rparr>"

definition date_ok :: "string \<Rightarrow> bool" where
  "date_ok d \<longleftrightarrow> LF \<notin> set d \<and> CR \<notin> set d"

lemma receivedHeader_field: "receivedHeader s u date = print_field (received_field s u date)"
  by (simp add: receivedHeader_def received_field_def print_field_def folded_def)

lemma received_field_ok:
  assumes "date_ok date"
  shows "name_ok (hf_Name (received_field s u date)) \<and> value_ok (hf_Value (received_field s u date))"
proof -
  let ?v0 = "''from '' @ headerSafe (cn_Hostname (ss_conn s)) @ '' ('' @ headerSafe (remoteAddr s) @ '')''"
  let ?l1 = "[TAB] @ ''by '' @ headerSafe (cfg_Hostname (sn_config (ss_snap s))) @
                  '' (mailout) with ESMTPSA id '' @ headerSafe u @ '';''"
  let ?l2 = "[TAB] @ date"
  have "line_ok ?v0" "cont_ok ?l1" by (simp_all add: line_ok_def cont_ok_def headerSafe_line)
  moreover have "cont_ok ?l2" using assms by (cases date rule: rev_cases) (auto simp: line_ok_def cont_ok_def date_ok_def)
  ultimately have "value_ok (?v0 @ folded [?l1, ?l2])"
    unfolding value_ok_def by (intro exI [of _ ?v0] exI [of _ "[?l1, ?l2]"]) simp
  then show ?thesis by (simp add: received_field_def name_ok_def)
qed


section \<open>What each stage keeps\<close>

text \<open>A stored message whose header block ends and holds exactly one \<^verbatim>\<open>From\<close> field, one the policy allows.\<close>

definition from_ok :: "unicode \<Rightarrow> senderPolicy \<Rightarrow> bytes \<Rightarrow> bool" where
  "from_ok U policy c \<longleftrightarrow>
     (case end_of_header (take maxHeaderBytes c) of
        (header, terminated) \<Rightarrow>
          terminated \<and> \<not> list_ex spaced_name (pm_Headers (parseMessage header)) \<and>
          (\<exists>f. filter (\<lambda>f. equal_fold U (hf_Name f) ''From'') (pm_Headers (parseMessage header)) = [f] \<and>
               allows U policy (hf_Value f)))"

lemma check_from_fields_None:
  "check_from_fields U hs policy = None \<longleftrightarrow>
     \<not> list_ex spaced_name hs \<and>
     (\<exists>f. filter (\<lambda>f. equal_fold U (hf_Name f) ''From'') hs = [f] \<and> allows U policy (hf_Value f))"
  by (auto simp: check_from_fields_def split: list.splits if_splits)

lemma checkHeaderFrom_law:
  assumes "os_laws E" "checkHeaderFrom E U body policy w = (err, body', w')"
  shows "same_body body body' \<and> (err = None \<longrightarrow> from_ok U policy (content body)) \<and>
         (\<forall>e. err = Some e \<longrightarrow> temporary e \<or> \<not> from_ok U policy (content body))"
proof -
  obtain r b w1 where hb: "headerBlock E body w = (r, b, w1)" by (metis surj_pair)
  note law = headerBlock_same [OF assms(1) hb] headerBlock_law [OF assms(1) hb]
  show ?thesis
  proof (cases r)
    case (Inl e)
    then show ?thesis using assms(2) hb law(1) by (auto simp: checkHeaderFrom_def errSpoolFailed_def temporary_def)
  next
    case (Inr ht)
    then have ht: "ht = end_of_header (take maxHeaderBytes (content body))" using law(2) by simp
    obtain h t where h: "ht = (h, t)" by fastforce
    have fo: "from_ok U policy (content body) \<longleftrightarrow>
        t \<and> check_from_fields U (pm_Headers (parseMessage h)) policy = None"
      unfolding from_ok_def ht [symmetric] h check_from_fields_None by simp
    show ?thesis unfolding fo using assms(2) hb law(1) Inr h
      by (auto simp: checkHeaderFrom_def split: if_splits)
  qed
qed

lemma from_stage_law:
  assumes "sound E msg" "from_stage E U policy msg w = (r, ms, msg', w')"
  shows "(\<exists>body. msg' = msg\<lparr>msg_Body := body\<rparr> \<and> same_body (msg_Body msg) body) \<and>
         (r = None \<longrightarrow> ap_skipHeaderFromCheck policy \<or> from_ok U (ap_senders policy) (content (msg_Body msg)))"
proof -
  have os: "os_laws E" using assms(1) by (simp add: sound_def)
  obtain e b w1 where ch: "checkHeaderFrom E U (msg_Body msg) (ap_senders policy) w = (e, b, w1)"
    by (metis surj_pair)
  note law = checkHeaderFrom_law [OF os ch]
  show ?thesis
  proof (cases "ap_skipHeaderFromCheck policy")
    case True
    then show ?thesis using assms(2) by (auto simp: from_stage_def intro!: exI [of _ "msg_Body msg"])
  next
    case False
    then show ?thesis using assms(2) ch law by (auto simp: from_stage_def split: option.splits)
  qed
qed

lemma milter_stage_law:
  assumes "sound E msg" "milter_stage E U s policy msg w = (r, ms, msg', w')"
  shows "sound E msg' \<and> msg_Account msg' = msg_Account msg \<and>
         (chain_empty (ap_milters policy) \<longrightarrow> r = None \<and> ms = [] \<and> msg' = msg) \<and>
         (r = None \<longrightarrow> list_all2 lets_pass (ap_milters policy) ms)"
proof (cases "chain_empty (ap_milters policy)")
  case True
  then show ?thesis using assms by (auto simp: milter_stage_def chain_empty_def)
next
  case False
  obtain e ms1 m1 w1 where rc: "run_chain E U (ap_milters policy) msg (session_info s) w = (e, ms1, m1, w1)"
    by (metis surj_pair)
  note law = run_chain_sound [OF assms(1) rc] run_chain_outcome [OF rc]
  show ?thesis
  proof (cases e)
    case None
    then show ?thesis using assms(2) False rc law chain_outcome_accepts by (auto simp: milter_stage_def)
  next
    case (Some x)
    then show ?thesis using assms(2) False rc law by (auto simp: milter_stage_def split: if_splits)
  qed
qed

lemma sign_stage_law:
  assumes "sound E msg" "dkim_laws E" "newDKIMSigner R U keys = Inr (sn_dkim (ss_snap s))"
    and "sign_stage E U s policy msg w = (r, ms, msg', w')"
  shows "sound E msg' \<and> msg_From msg' = msg_From msg \<and> msg_To msg' = msg_To msg \<and> msg_Account msg' = msg_Account msg \<and>
         (content (msg_Body msg') = content (msg_Body msg) \<or>
          (\<exists>sig. content (msg_Body msg') = with_signature sig (content (msg_Body msg))))"
proof (cases "signer_empty (sn_dkim (ss_snap s))")
  case True
  then show ?thesis using assms by (auto simp: sign_stage_def)
next
  case False
  obtain e ms1 m1 w1 where sg: "sign E U (sn_dkim (ss_snap s)) msg (ap_senders policy) w = (e, ms1, m1, w1)"
    by (metis surj_pair)
  have "msg' = m1" using assms(4) False sg by (auto simp: sign_stage_def split: option.splits)
  then show ?thesis using sign_law [OF assms(3,1,2) sg] by blast
qed

lemma buffer_message_law:
  assumes "os_laws E" "sn_newSpool (ss_snap s) = newSpoolFactory limits"
    and "buffer_message E s username r w = (err, body, w')"
  shows "\<exists>date. err = None \<longrightarrow>
           spool_ok E body \<and> snd r = None \<and> (\<exists>now. date = time_RFC1123Z E now) \<and>
           content body = receivedHeader s username date @ concat (fst r)"
proof -
  obtain now w1 where t: "time_Now E w = (now, w1)" by fastforce
  let ?h = "receivedHeader s username (time_RFC1123Z E now)"
  obtain n e b w2 where wr: "Write E ?h (sn_newSpool (ss_snap s) ()) w1 = ((n, e), b, w2)" by (metis surj_pair)
  have new: "spool_ok E (sn_newSpool (ss_snap s) ())" "content (sn_newSpool (ss_snap s) ()) = []"
    by (simp_all add: assms(2) newSpoolFactory_def new_spool_ok [OF assms(1)])
  show ?thesis
  proof (cases e)
    case (Some x)
    then show ?thesis using assms(3) t wr by (auto simp: buffer_message_def)
  next
    case None
    then have cp: "io_Copy (Write E) (fst r) (snd r) b w2 = (err, body, w')"
      using assms(3) t wr by (simp add: buffer_message_def)
    have b: "spool_ok E b" "content b = ?h" using Write_law [OF new(1) wr] None new(2) by simp_all
    note law = spool_store.copy_law [OF b(1) cp]
    show ?thesis using law b(2) by (intro exI [of _ "time_RFC1123Z E now"]) auto
  qed
qed

definition signed_copy :: "bytes \<Rightarrow> bytes \<Rightarrow> bool" where
  "signed_copy c c' \<longleftrightarrow> c' = c \<or> (\<exists>sig. c' = with_signature sig c)"

text \<open>What is true of a message when the upstream is called, and when the client is told it was accepted.\<close>

definition cleared :: "unicode \<Rightarrow> accountPolicy \<Rightarrow> bytes \<Rightarrow> metric list \<Rightarrow> bool" where
  "cleared U policy c ms \<longleftrightarrow>
     (ap_skipHeaderFromCheck policy \<or> from_ok U (ap_senders policy) c) \<and>
     (\<exists>decisions. list_all2 lets_pass (ap_milters policy) decisions \<and> set decisions \<subseteq> set ms)"

definition relayed :: "relayer \<Rightarrow> accountPolicy \<Rightarrow> Message \<Rightarrow> calls \<Rightarrow> bool" where
  "relayed relay policy msg made \<longleftrightarrow>
     (\<exists>m. delivered relay m made \<and> msg_Account m = msg_Account msg \<and>
        (chain_empty (ap_milters policy) \<longrightarrow>
           msg_From m = msg_From msg \<and> msg_To m = msg_To msg \<and>
           signed_copy (content (msg_Body msg)) (content (msg_Body m))))"

lemma relay_stage_law:
  assumes "sound E msg" "up_laws E" "relay_stage E s msg w = (err, ms, made, msg', w')"
  shows "err = None \<longrightarrow> delivered (sn_relay (ss_snap s)) msg made"
proof -
  obtain t0 w0 where t: "time_Now E w = (t0, w0)" by fastforce
  obtain e md m1 w1 where sd: "send E (sn_relay (ss_snap s)) msg w0 = (e, md, m1, w1)" by (metis surj_pair)
  have "err = e" "made = md" using assms(3) t sd by (auto simp: relay_stage_def split: prod.splits)
  then show ?thesis using send_delivers [of E _ msg w0] assms(1,2) sd by (auto simp: sound_def)
qed

lemma process_message_law:
  assumes "sound E msg" "up_laws E" "dkim_laws E" "newDKIMSigner R U keys = Inr (sn_dkim (ss_snap s))"
    and "process_message E U s policy msg w = (err, ms, made, msg', w')"
  shows "(made \<noteq> [] \<longrightarrow> cleared U policy (content (msg_Body msg)) ms) \<and>
         (err = None \<longrightarrow>
            relayed (sn_relay (ss_snap s)) policy msg made \<or>
            made = [] \<and> messageHandled (msg_Account msg) ResultDiscarded \<in> set ms)"
proof -
  obtain r1 ms1 m1 w1 where f: "from_stage E U policy msg w = (r1, ms1, m1, w1)" by (metis surj_pair)
  obtain r2 ms2 m2 w2 where m: "milter_stage E U s policy m1 w1 = (r2, ms2, m2, w2)" by (metis surj_pair)
  obtain r3 ms3 m3 w3 where g: "sign_stage E U s policy m2 w2 = (r3, ms3, m3, w3)" by (metis surj_pair)
  obtain r4 ms4 md m4 w4 where y: "relay_stage E s m3 w3 = (r4, ms4, md, m4, w4)" by (metis surj_pair)
  from from_stage_law [OF assms(1) f] obtain body where
    m1: "m1 = msg\<lparr>msg_Body := body\<rparr>" and sb: "same_body (msg_Body msg) body"
    and fo: "r1 = None \<longrightarrow> ap_skipHeaderFromCheck policy \<or> from_ok U (ap_senders policy) (content (msg_Body msg))"
    by blast
  have s1: "sound E m1" using assms(1) same_body_inv [OF sb] m1 by (simp add: sound_def)
  note law2 = milter_stage_law [OF s1 m]
  have law3: "sound E m3 \<and> msg_From m3 = msg_From m2 \<and> msg_To m3 = msg_To m2 \<and> msg_Account m3 = msg_Account m2 \<and>
      signed_copy (content (msg_Body m2)) (content (msg_Body m3))"
    using sign_stage_law [OF conjunct1 [OF law2] assms(3,4) g] unfolding signed_copy_def by blast
  note law4 = relay_stage_law [OF conjunct1 [OF law3] assms(2) y]
  consider x where "r1 = Some x" "made = []" "err = x" "ms = ms1"
    | x where "r1 = None" "r2 = Some x" "made = []" "err = x" "ms = ms1 @ ms2"
    | x where "r1 = None" "r2 = None" "r3 = Some x" "made = []" "err = x"
    | "r1 = None" "r2 = None" "r3 = None" "made = md" "err = r4" "ms = ms1 @ ms2 @ ms3 @ ms4"
    using assms(5) f m g y by (auto simp: process_message_def split: option.splits)
  then show ?thesis
  proof cases
    case 1
    then show ?thesis using f by (auto simp: from_stage_def split: if_splits prod.splits option.splits)
  next
    case 2
    then show ?thesis using m m1 law2 by (auto simp: milter_stage_def split: if_splits prod.splits option.splits)
  next
    case 3
    then show ?thesis using g by (auto simp: sign_stage_def split: if_splits prod.splits option.splits)
  next
    case 4
    have "cleared U policy (content (msg_Body msg)) ms"
      unfolding cleared_def using fo 4 law2 by (auto intro!: exI [of _ ms2])
    moreover have "relayed (sn_relay (ss_snap s)) policy msg made" if "err = None"
      unfolding relayed_def using law2 law3 law4 4 that m1 same_body_content [OF sb]
      by (intro exI [of _ m3]) auto
    ultimately show ?thesis by blast
  qed
qed

text \<open>The environment the delivery rests on: the documented behaviour of the system's files, of the upstream's
  data writer and of the signer.\<close>

definition env_laws :: "('w, 'm) server_env_scheme \<Rightarrow> bool" where
  "env_laws E \<longleftrightarrow> os_laws E \<and> up_laws E \<and> dkim_laws E"

text \<open>The message as the client's data becomes it: the hop's own header in front.\<close>

definition stamped :: "('w, 'm) server_env_scheme \<Rightarrow> session \<Rightarrow> string \<Rightarrow> bytes list \<Rightarrow> bytes \<Rightarrow> bool" where
  "stamped E s username chunks c \<longleftrightarrow>
     (\<exists>now. c = receivedHeader s username (time_RFC1123Z E now) @ concat chunks)"

lemma accept_message_law:
  assumes "env_laws E" "snap_ok E U (ss_snap s)" "accept_message E U s username r w = (err, ms, made, w')"
    and "made \<noteq> [] \<or> err = None"
  shows "snd r = None \<and>
    (\<exists>msg. msg_From msg = ss_from s \<and> msg_To msg = ss_to s \<and> msg_Account msg = username \<and>
       stamped E s username (fst r) (content (msg_Body msg)) \<and>
       (made \<noteq> [] \<longrightarrow> cleared U (policyFor U (ss_snap s) username) (content (msg_Body msg)) ms) \<and>
       (err = None \<longrightarrow>
          relayed (sn_relay (ss_snap s)) (policyFor U (ss_snap s) username) msg made \<or>
          made = [] \<and> messageHandled username ResultDiscarded \<in> set ms))"
proof -
  have laws: "os_laws E" "up_laws E" "dkim_laws E" using assms(1) by (simp_all add: env_laws_def)
  obtain e body w1 where bf: "buffer_message E s username r w = (e, body, w1)" by (metis surj_pair)
  let ?policy = "policyFor U (ss_snap s) username"
  let ?msg = "\<lparr>msg_From = ss_from s, msg_To = ss_to s, msg_Body = body, msg_Account = username\<rparr>"
  obtain e2 ms2 md m2 w2 where pm: "process_message E U s ?policy ?msg w1 = (e2, ms2, md, m2, w2)"
    by (metis surj_pair)
  have e: "e = None" and eqs: "err = e2" "made = md" "ms = (if spooled body then [messageSpooled username] else []) @ ms2"
    using assms(3,4) bf pm by (auto simp: accept_message_def Let_def split: option.splits)
  have ns: "sn_newSpool (ss_snap s) = newSpoolFactory (cfg_Limits (sn_config (ss_snap s)))"
    and dk: "newDKIMSigner (env_keys E) U (cfg_DKIM (sn_config (ss_snap s))) = Inr (sn_dkim (ss_snap s))"
    using assms(2) by (simp_all add: snap_ok_def)
  from buffer_message_law [OF laws(1) ns bf] e obtain now where
    b: "spool_ok E body" "snd r = None" "content body = receivedHeader s username (time_RFC1123Z E now) @ concat (fst r)"
    by auto
  have so: "sound E ?msg" using b(1) laws(1) by (simp add: sound_def spool_ok_def)
  note law = process_message_law [OF so laws(2,3) dk pm]
  have "stamped E s username (fst r) (content (msg_Body ?msg))" unfolding stamped_def using b(3) by auto
  moreover have "cleared U ?policy c ms2 \<Longrightarrow> cleared U ?policy c ms" for c
    unfolding cleared_def eqs by auto
  ultimately show ?thesis using law b(2) eqs by (intro conjI exI [of _ ?msg]) auto
qed

lemma stillAuthorized_None:
  assumes "stillAuthorized current acct s = (None, s')"
  obtains acct' where "lookup_account (sn_accounts current) (acc_Username acct) = Some acct'" "\<not> acc_Disabled acct'"
    "s' = s\<lparr>ss_snap := current, ss_account := Some acct'\<rparr>"
  using assms by (auto simp: stillAuthorized_def split: option.splits if_splits)

lemma lookup_username: "snap_ok E U s \<Longrightarrow> lookup_account (sn_accounts s) u = Some a \<Longrightarrow> acc_Username a = u"
  by (simp add: snap_ok_def)

lemma policyFor_account:
  assumes "snap_ok E U s" "lookup_account (sn_accounts s) u = Some a"
  shows "policyFor U s u = account_policy U (sn_milters s) a"
proof -
  have "policyFor U s u =
      (case lookup_account (sn_accounts s) u of
         Some a \<Rightarrow> account_policy U (sn_milters s) a
       | None \<Rightarrow> \<lparr>ap_milters = sn_milters s, ap_senders = newSenderPolicy U [], ap_skipHeaderFromCheck = False\<rparr>)"
    using assms(1) unfolding snap_ok_def by (elim conjE) (rule spec)
  then show ?thesis using assms(2) by simp
qed

lemma session_Data_law:
  assumes "env_laws E" "snap_ok E U current" "session_Data E U current r s w = (err, ms, made, s', w')"
    and "made \<noteq> [] \<or> err = None"
  shows "\<exists>old acct msg.
    ss_account s = Some old \<and> lookup_account (sn_accounts current) (acc_Username old) = Some acct \<and>
    acc_Username acct = acc_Username old \<and> \<not> acc_Disabled acct \<and>
    s' = s\<lparr>ss_snap := current, ss_account := Some acct\<rparr> \<and> ss_to s \<noteq> [] \<and> snd r = None \<and>
    msg_From msg = ss_from s \<and> msg_To msg = ss_to s \<and> msg_Account msg = acc_Username acct \<and>
    stamped E s' (acc_Username acct) (fst r) (content (msg_Body msg)) \<and>
    (made \<noteq> [] \<longrightarrow> cleared U (account_policy U (sn_milters current) acct) (content (msg_Body msg)) ms) \<and>
    (err = None \<longrightarrow>
       relayed (sn_relay current) (account_policy U (sn_milters current) acct) msg made \<or>
       made = [] \<and> messageHandled (acc_Username acct) ResultDiscarded \<in> set ms)"
proof -
  obtain old where old: "ss_account s = Some old" using assms(3,4) by (auto simp: session_Data_def split: option.splits)
  have to: "ss_to s \<noteq> []" using assms(3,4) old by (auto simp: session_Data_def split: if_splits)
  obtain e1 s1 where sa: "stillAuthorized current old s = (e1, s1)" by fastforce
  have e1: "e1 = None" using assms(3,4) old to sa by (auto simp: session_Data_def split: option.splits)
  obtain acct where acct: "lookup_account (sn_accounts current) (acc_Username old) = Some acct" "\<not> acc_Disabled acct"
    "s1 = s\<lparr>ss_snap := current, ss_account := Some acct\<rparr>"
    using sa e1 by (auto elim: stillAuthorized_None)
  have name: "acc_Username acct = acc_Username old" using lookup_username [OF assms(2) acct(1)] .
  have an: "account_name s1 = acc_Username acct" using acct(3) by (simp add: account_name_def)
  obtain q ms1 w1 where cq: "check_quota (env_quota E) (sn_limiter (ss_snap s1)) (account_name s1) (length (ss_to s1)) w = (q, ms1, w1)"
    by (metis surj_pair)
  have q: "q = None" using assms(3,4) old to sa e1 cq by (auto simp: session_Data_def Let_def split: option.splits)
  obtain e2 ms2 md w2 where am: "accept_message E U s1 (account_name s1) r w1 = (e2, ms2, md, w2)"
    by (metis surj_pair)
  have eqs: "err = e2" "made = md" "ms = ms1 @ ms2" "s' = s1"
    using assms(3) old to sa e1 cq q am by (auto simp: session_Data_def Let_def)
  have snap: "ss_snap s1 = current" "ss_from s1 = ss_from s" "ss_to s1 = ss_to s" using acct(3) by simp_all
  have pol: "policyFor U current (acc_Username acct) = account_policy U (sn_milters current) acct"
    using policyFor_account [OF assms(2) acct(1)] name by simp
  have "md \<noteq> [] \<or> e2 = None" using assms(4) eqs by simp
  from accept_message_law [OF assms(1) _ am this] obtain msg where m: "snd r = None"
     "msg_From msg = ss_from s" "msg_To msg = ss_to s" "msg_Account msg = acc_Username acct"
     "stamped E s1 (acc_Username acct) (fst r) (content (msg_Body msg))"
     "md \<noteq> [] \<longrightarrow> cleared U (account_policy U (sn_milters current) acct) (content (msg_Body msg)) ms2"
     "e2 = None \<longrightarrow> relayed (sn_relay current) (account_policy U (sn_milters current) acct) msg md \<or>
        md = [] \<and> messageHandled (acc_Username acct) ResultDiscarded \<in> set ms2"
    using assms(2) unfolding snap an pol by blast
  have "cleared U p c ms2 \<Longrightarrow> cleared U p c ms" for p c unfolding cleared_def eqs by auto
  then show ?thesis using old acct name to m eqs
    by (intro exI [of _ old] exI [of _ acct] exI [of _ msg]) auto
qed


section \<open>What is counted\<close>

text \<open>The outcome a metric call reports for a message, if it reports one.\<close>

definition outcome_of :: "metric \<Rightarrow> string option" where
  "outcome_of m =
     (case m of messageHandled _ r \<Rightarrow> Some r | messageRelayed _ _ \<Rightarrow> Some ResultRelayed | _ \<Rightarrow> None)"

definition outcomes :: "metric list \<Rightarrow> string list" where
  "outcomes ms = List.map_filter outcome_of ms"

lemma outcomes_simps [simp]:
  "outcomes [] = []" "outcomes (a @ b) = outcomes a @ outcomes b"
  "outcomes (messageHandled u r # ms) = r # outcomes ms" "outcomes (messageRelayed u n # ms) = ResultRelayed # outcomes ms"
  "outcomes (messageSpooled u # ms) = outcomes ms" "outcomes (upstreamDelivered t # ms) = outcomes ms"
  "outcomes (milterDecided f d # ms) = outcomes ms" "outcomes (dkimResult d r # ms) = outcomes ms"
  "outcomes (rateLimitDecided u d # ms) = outcomes ms"
  by (simp_all add: outcomes_def map_filter_def outcome_of_def)

lemma chain_no_outcome: "chain_outcome fs err ms \<Longrightarrow> outcomes ms = []"
  by (induction rule: chain_outcome.induct) (auto simp: lets_pass_def refuses_def)

lemma sign_no_outcome: "sign E U s msg policy w = (err, ms, msg', w') \<Longrightarrow> outcomes ms = []"
  by (auto simp: sign_def sign_with_def Let_def split: prod.splits option.splits if_splits sum.splits)

lemma quota_no_outcome: "check_quota E lim u n w = (err, ms, w') \<Longrightarrow> outcomes ms = []"
  by (auto simp: check_quota_def check_dimension_def Let_def split: option.splits prod.splits if_splits sum.splits)

lemma quota_code: "check_quota E lim u n w = (Some e, ms, w') \<Longrightarrow> se_Code e < 500"
  by (auto simp: check_quota_def check_dimension_def Let_def errOverQuota_def errStoreUnavailable_def
      split: option.splits prod.splits if_splits sum.splits)

text \<open>The answer a client gets for an outcome: nil for a message that was relayed or discarded, an error for
  one that was refused, and the two kinds of refusal told apart by the answer's code. The exception is a spool
  that cannot be read for the check of the \<^verbatim>\<open>From\<close> header: a temporary answer counted as a rejection.\<close>

definition answers :: "string \<Rightarrow> go_error option \<Rightarrow> bool" where
  "answers outcome err \<longleftrightarrow>
     (if outcome = ResultRelayed \<or> outcome = ResultDiscarded then err = None
      else outcome \<in> {ResultRejected, ResultDeferred} \<and>
           (\<exists>e. err = Some e \<and>
              (\<forall>se. errors_As e = Some se \<longrightarrow>
                 (outcome = ResultRejected \<longleftrightarrow> se_Code se \<ge> 500) \<or> se = errSpoolFailed e)))"

lemma outcomes_distinct:
  "ResultRejected \<noteq> ResultRelayed" "ResultRejected \<noteq> ResultDiscarded" "ResultDeferred \<noteq> ResultRelayed"
  "ResultDeferred \<noteq> ResultDiscarded" "ResultDeferred \<noteq> ResultRejected"
  by (simp_all add: metric_labels)

lemma answers_done [simp]: "answers ResultRelayed None" "answers ResultDiscarded None"
  by (simp_all add: answers_def)

lemma answers_deferred: "se_Code e < 500 \<Longrightarrow> answers ResultDeferred (Some (SMTPErr e))"
  using outcomes_distinct by (simp add: answers_def)

lemma resultFor_answers:
  "fallback \<in> {ResultRejected, ResultDeferred} \<Longrightarrow> answers (resultFor e fallback) (Some e)"
  using outcomes_distinct by (auto simp: answers_def resultFor_def split: option.splits)

lemma milter_stage_outcome:
  assumes "milter_stage E U s policy msg w = (r, ms, msg', w')"
  shows "case r of None \<Rightarrow> outcomes ms = [] | Some err \<Rightarrow> \<exists>oc. outcomes ms = [oc] \<and> answers oc err"
proof (cases "chain_empty (ap_milters policy)")
  case True
  then show ?thesis using assms by (auto simp: milter_stage_def)
next
  case False
  obtain e ms1 m1 w1 where rc: "run_chain E U (ap_milters policy) msg (session_info s) w = (e, ms1, m1, w1)"
    by (metis surj_pair)
  note none = chain_no_outcome [OF run_chain_outcome [OF rc]]
  show ?thesis
  proof (cases e)
    case None
    then show ?thesis using assms False rc none by (auto simp: milter_stage_def)
  next
    case (Some x)
    then show ?thesis using assms False rc none resultFor_answers [of ResultRejected x]
      by (auto simp: milter_stage_def filterResult_def split: if_splits)
  qed
qed

lemma check_from_fields_code: "check_from_fields U hs policy = Some e \<Longrightarrow> se_Code e = 550"
  by (auto simp: check_from_fields_def errMalformedHeaders_def errSenderNotAllowed_def split: if_splits list.splits)

lemma checkHeaderFrom_code:
  "checkHeaderFrom E U body policy w = (Some e, body', w') \<Longrightarrow> se_Code e = 550 \<or> e = errSpoolFailed x"
  by (auto simp: checkHeaderFrom_def errSpoolFailed_def split: prod.splits sum.splits if_splits
      dest: check_from_fields_code) (simp_all add: errMalformedHeaders_def)

lemma answers_rejected: "se_Code e = 550 \<or> e = errSpoolFailed (SMTPErr e) \<Longrightarrow> answers ResultRejected (Some (SMTPErr e))"
  using outcomes_distinct by (auto simp: answers_def)

lemma from_stage_outcome:
  assumes "from_stage E U policy msg w = (r, ms, msg', w')"
  shows "case r of None \<Rightarrow> outcomes ms = [] | Some err \<Rightarrow> \<exists>oc. outcomes ms = [oc] \<and> answers oc err"
proof -
  obtain e b w1 where ch: "checkHeaderFrom E U (msg_Body msg) (ap_senders policy) w = (e, b, w1)"
    by (metis surj_pair)
  have "e = Some x \<Longrightarrow> answers ResultRejected (Some (SMTPErr x))" for x
    using answers_rejected [OF checkHeaderFrom_code, of E U "msg_Body msg" "ap_senders policy" w x b w1] ch by simp
  then show ?thesis using assms ch by (auto simp: from_stage_def split: if_splits option.splits)
qed

lemma sign_stage_outcome:
  assumes "sign_stage E U s policy msg w = (r, ms, msg', w')"
  shows "case r of None \<Rightarrow> outcomes ms = [] | Some err \<Rightarrow> \<exists>oc. outcomes ms = [oc] \<and> answers oc err"
proof -
  obtain e ms1 m1 w1 where sg: "sign E U (sn_dkim (ss_snap s)) msg (ap_senders policy) w = (e, ms1, m1, w1)"
    by (metis surj_pair)
  show ?thesis using assms sg sign_no_outcome [OF sg] answers_deferred [of errSignFailed]
    by (auto simp: sign_stage_def errSignFailed_def split: if_splits option.splits)
qed

lemma relay_stage_outcome:
  assumes "relay_stage E s msg w = (err, ms, made, msg', w')"
  shows "\<exists>oc. outcomes ms = [oc] \<and> answers oc err"
proof -
  obtain t0 w0 where t: "time_Now E w = (t0, w0)" by fastforce
  obtain e md m1 w1 where sd: "send E (sn_relay (ss_snap s)) msg w0 = (e, md, m1, w1)" by (metis surj_pair)
  show ?thesis using assms t sd resultFor_answers [of ResultDeferred]
    by (auto simp: relay_stage_def relayResult_def split: prod.splits option.splits)
qed

lemma process_message_outcome:
  assumes "process_message E U s policy msg w = (err, ms, made, msg', w')"
  shows "\<exists>oc. outcomes ms = [oc] \<and> answers oc err"
proof -
  obtain r1 ms1 m1 w1 where f: "from_stage E U policy msg w = (r1, ms1, m1, w1)" by (metis surj_pair)
  obtain r2 ms2 m2 w2 where m: "milter_stage E U s policy m1 w1 = (r2, ms2, m2, w2)" by (metis surj_pair)
  obtain r3 ms3 m3 w3 where g: "sign_stage E U s policy m2 w2 = (r3, ms3, m3, w3)" by (metis surj_pair)
  obtain r4 ms4 md m4 w4 where y: "relay_stage E s m3 w3 = (r4, ms4, md, m4, w4)" by (metis surj_pair)
  show ?thesis
    using assms f m g y from_stage_outcome [OF f] milter_stage_outcome [OF m] sign_stage_outcome [OF g]
      relay_stage_outcome [OF y]
    by (auto simp: process_message_def split: option.splits)
qed

end
