(* ===== verification/Delivery.thy ===== *)
theory Delivery
  imports Session
begin

text \<open>
  What a session guarantees: to whoever granted the senders, to the client whose message was accepted, to
  whoever reads the counters, and against a client that tries to cheat. The last section records where
  the code does less than its comments say.
\<close>


section \<open>Properties\<close>

text \<open>A snapshot of a configuration in the demonstration world, and a session that has logged in on it and
  given an envelope.\<close>

definition demo_load :: "Config \<Rightarrow> snapshot option" where
  "demo_load cfg =
     (case fst (newSnapshot demo_server ascii_unicode cfg None \<lparr>dw_fds = 0, dw_pools = []\<rparr>) of
        Some (Inr snap) \<Rightarrow> Some snap
      | _ \<Rightarrow> None)"

lemma demo_load_ok:
  assumes "demo_load cfg = Some snap"
  shows "snap_ok demo_server ascii_unicode snap"
proof -
  obtain r w' where ns: "newSnapshot demo_server ascii_unicode cfg None \<lparr>dw_fds = 0, dw_pools = []\<rparr> = (r, w')"
    by fastforce
  then have r: "r = Some (Inr snap)" using assms by (simp add: demo_load_def split: option.splits sum.splits)
  show ?thesis using newSnapshot_ok [OF ns [unfolded r]] by (rule conjunct1)
qed

lemma demo_env_laws [simp]: "env_laws demo_server"
  by (simp add: env_laws_def)

definition demo_session :: "string \<Rightarrow> snapshot \<Rightarrow> session" where
  "demo_session from snap =
     (newSession \<lparr>cn_Hostname = ''app'', cn_RemoteAddr = Some ''10.0.0.7:40000'',
                  cn_TCPAddr = Some (''10.0.0.7'', 40000), cn_TLS = Some (''TLS 1.3'', ''AES'')\<rparr> snap)
       \<lparr>ss_account := Some (sample_account ''app'' ''hash''), ss_from := from, ss_to := [''a@x.test'']\<rparr>"

definition demo_data :: "bytes \<Rightarrow> Config \<Rightarrow> (go_error option \<times> metric list \<times> calls) option" where
  "demo_data body cfg =
     map_option
       (\<lambda>snap. case session_Data demo_server ascii_unicode snap ([body], None)
                       (demo_session ''app@example.test'' snap) \<lparr>dw_fds = 0, dw_pools = []\<rparr> of
                 (err, ms, made, _) \<Rightarrow> (err, ms, made))
       (demo_load cfg)"

lemma demo_dataE:
  assumes "demo_data body cfg = Some (err, ms, made)"
  obtains snap s' w' where "demo_load cfg = Some snap" "snap_ok demo_server ascii_unicode snap"
    "session_Data demo_server ascii_unicode snap ([body], None) (demo_session ''app@example.test'' snap)
       \<lparr>dw_fds = 0, dw_pools = []\<rparr> = (err, ms, made, s', w')"
proof -
  obtain snap where snap: "demo_load cfg = Some snap" using assms by (auto simp: demo_data_def)
  obtain e m c s' w' where run: "session_Data demo_server ascii_unicode snap ([body], None)
      (demo_session ''app@example.test'' snap) \<lparr>dw_fds = 0, dw_pools = []\<rparr> = (e, m, c, s', w')" by (metis surj_pair)
  have "(e, m, c) = (err, ms, made)" using assms snap unfolding demo_data_def by (simp only: option.map run prod.case option.inject)
  then show thesis using that [OF snap demo_load_ok [OF snap]] run by simp
qed

text \<open>C2: Nothing goes upstream unless everything is in order. Whatever \<^verbatim>\<open>Data\<close> is called with, if it
  made any call to the upstream then the session's account is known to the snapshot in service and enabled
  there, there is a recipient, the client's data was read to the end, the stored message holds exactly one
  \<^verbatim>\<open>From\<close> field and the account's own entries allow it (unless the account is exempt), and every filter
  let the message pass.\<close>

theorem data_safety:
  assumes "env_laws E" "snap_ok E U current"
    and "session_Data E U current r s w = (err, ms, made, s', w')" "made \<noteq> []"
  shows "\<exists>old acct c decisions.
    ss_account s = Some old \<and> lookup_account (sn_accounts current) (acc_Username old) = Some acct \<and>
    \<not> acc_Disabled acct \<and> ss_to s \<noteq> [] \<and> snd r = None \<and>
    stamped E s' (acc_Username acct) (fst r) c \<and>
    (acc_SkipHeaderFromCheck acct \<or> from_ok U (newSenderPolicy U (acc_AllowedSenders acct)) c) \<and>
    list_all2 lets_pass (sn_milters current) decisions \<and> set decisions \<subseteq> set ms"
proof -
  from session_Data_law [OF assms(1-3) disjI1 [OF assms(4)]] assms(4) obtain old acct and msg :: Message where
    d: "ss_account s = Some old" "lookup_account (sn_accounts current) (acc_Username old) = Some acct"
      "\<not> acc_Disabled acct" "ss_to s \<noteq> []" "snd r = None"
      "stamped E s' (acc_Username acct) (fst r) (content (msg_Body msg))"
      "cleared U (account_policy U (sn_milters current) acct) (content (msg_Body msg)) ms"
    by blast
  from d(7) obtain decisions where "list_all2 lets_pass (sn_milters current) decisions" "set decisions \<subseteq> set ms"
    "acc_SkipHeaderFromCheck acct \<or> from_ok U (newSenderPolicy U (acc_AllowedSenders acct)) (content (msg_Body msg))"
    by (auto simp: cleared_def account_policy_def)
  with d show ?thesis by blast
qed

theorem data_safety_witness:
  "\<exists>snap ms made s' w' acct c. demo_load sample_config = Some snap \<and>
     session_Data demo_server ascii_unicode snap ([sample_body], None) (demo_session ''app@example.test'' snap)
       \<lparr>dw_fds = 0, dw_pools = []\<rparr> = (None, ms, made, s', w') \<and> made \<noteq> [] \<and>
     lookup_account (sn_accounts snap) ''app'' = Some acct \<and>
     from_ok ascii_unicode (newSenderPolicy ascii_unicode (acc_AllowedSenders acct)) c"
proof -
  have "case demo_data sample_body sample_config of Some (None, ms, made) \<Rightarrow> made \<noteq> [] | _ \<Rightarrow> False" by code_simp
  then obtain ms made where "demo_data sample_body sample_config = Some (None, ms, made)" and made: "made \<noteq> []"
    by (auto split: option.splits)
  then obtain snap s' w' where snap: "demo_load sample_config = Some snap" "snap_ok demo_server ascii_unicode snap"
    and run: "session_Data demo_server ascii_unicode snap ([sample_body], None) (demo_session ''app@example.test'' snap)
       \<lparr>dw_fds = 0, dw_pools = []\<rparr> = (None, ms, made, s', w')" by (auto elim: demo_dataE)
  have "case demo_load sample_config of None \<Rightarrow> True
        | Some snap \<Rightarrow> (case lookup_account (sn_accounts snap) ''app'' of
                        Some a \<Rightarrow> \<not> acc_SkipHeaderFromCheck a | None \<Rightarrow> True)" by code_simp
  then have skip: "lookup_account (sn_accounts snap) ''app'' = Some a \<Longrightarrow> \<not> acc_SkipHeaderFromCheck a" for a
    using snap(1) by simp
  have name: "ss_account (demo_session ''app@example.test'' snap) = Some old \<Longrightarrow> acc_Username old = ''app''" for old
    by (auto simp: demo_session_def sample_account_def)
  show ?thesis using data_safety [OF demo_env_laws snap(2) run made] snap(1) run made skip name by fastforce
qed





text \<open>C21: Revocation takes effect at the next command. Once the snapshot in service no longer has the
  session's account, or has it disabled, both \<^verbatim>\<open>Mail\<close> and \<^verbatim>\<open>Data\<close> refuse with 421 and close the
  connection, whatever the session was authenticated under; nothing is counted against the quota and
  nothing is sent.\<close>

theorem revoked_account_refused:
  assumes "ss_account s = Some acct"
    and "case lookup_account (sn_accounts current) (acc_Username acct) of None \<Rightarrow> True | Some a \<Rightarrow> acc_Disabled a"
  shows "session_Mail U current from s =
           (Some (SMTPErr errCredentialsRevoked), [], s\<lparr>ss_closed := True\<rparr>) \<and>
         (ss_to s \<noteq> [] \<longrightarrow>
            session_Data E U current r s w =
              (Some (SMTPErr errCredentialsRevoked), [], [], s\<lparr>ss_closed := True\<rparr>, w))"
proof -
  have sa: "stillAuthorized current acct s = (Some (SMTPErr errCredentialsRevoked), s\<lparr>ss_closed := True\<rparr>)"
    using assms(2) by (auto simp: stillAuthorized_def split: option.splits)
  then show ?thesis using assms(1) by (simp add: session_Mail_def session_Data_def)
qed

theorem revoked_account_refused_witness:
  "case (demo_load sample_config,
         demo_load (sample_config\<lparr>cfg_Accounts := [(sample_account ''app'' ''hash'')\<lparr>acc_Disabled := True\<rparr>]\<rparr>)) of
     (Some before, Some after) \<Rightarrow>
       session_Mail ascii_unicode after ''app@example.test'' (demo_session [] before) =
         (Some (SMTPErr errCredentialsRevoked), [], (demo_session [] before)\<lparr>ss_closed := True\<rparr>)
   | _ \<Rightarrow> False"
proof -
  let ?a = "demo_load sample_config"
  let ?b = "demo_load (sample_config\<lparr>cfg_Accounts := [(sample_account ''app'' ''hash'')\<lparr>acc_Disabled := True\<rparr>]\<rparr>)"
  have "case (?a, ?b) of
      (Some before, Some after) \<Rightarrow>
        (case lookup_account (sn_accounts after) ''app'' of None \<Rightarrow> True | Some a \<Rightarrow> acc_Disabled a)
    | _ \<Rightarrow> False" by code_simp
  then obtain x y where xy: "?a = Some x" "?b = Some y"
    "case lookup_account (sn_accounts y) ''app'' of None \<Rightarrow> True | Some a \<Rightarrow> acc_Disabled a"
    by (auto split: option.splits)
  have acc: "ss_account (demo_session [] x) = Some (sample_account ''app'' ''hash'')"
    and "acc_Username (sample_account ''app'' ''hash'') = ''app''" by (simp_all add: demo_session_def sample_account_def)
  then have "case lookup_account (sn_accounts y) (acc_Username (sample_account ''app'' ''hash'')) of
      None \<Rightarrow> True | Some a \<Rightarrow> acc_Disabled a" using xy(3) by simp
  from conjunct1 [OF revoked_account_refused [OF acc this]] show ?thesis using xy(1,2) by simp
qed

text \<open>C37: No client can put a line into the message through the hop's header. Whatever the client said its
  name was, wherever it connected from and whatever the account is called, the header the gateway writes
  in front is one field, and the client's own header fields and body are parsed as they would be without it.\<close>

theorem received_header_is_one_field:
  assumes "headers_ok (pm_Headers m)" "pm_Headers m = [] \<or> hd (hf_Name (hd (pm_Headers m)) @ [COLON]) \<notin> {SP, TAB}"
    and "date_ok date"
  shows "parseMessage (receivedHeader s u date @ message_Bytes m) =
         m\<lparr>pm_Headers := received_field s u date # pm_Headers m\<rparr>"
proof -
  let ?m = "m\<lparr>pm_Headers := received_field s u date # pm_Headers m\<rparr>"
  have "hf_Name h = [] \<or> hd (hf_Name h) \<notin> {SP, TAB}" if "h \<in> set (pm_Headers m)" for h
    using assms(1,2) that by (cases "pm_Headers m") (auto simp: headers_ok_def list_all_iff hd_append split: if_splits)
  then have "headers_ok (pm_Headers ?m)"
    using assms(1) received_field_ok [OF assms(3), of s u] by (auto simp: headers_ok_def list_all_iff)
  moreover have "receivedHeader s u date @ message_Bytes m = message_Bytes ?m"
    by (simp add: message_Bytes_def receivedHeader_field)
  ultimately show ?thesis using parse_Bytes by metis
qed

theorem received_header_is_one_field_witness:
  "\<forall>snap. let s = (demo_session [] snap)\<lparr>ss_conn := \<lparr>cn_Hostname = ''x'' @ CRLF @ ''From: ceo@victim.test'',
                    cn_RemoteAddr = None, cn_TCPAddr = None, cn_TLS = None\<rparr>\<rparr>
    in parseMessage (receivedHeader s ''app'' ''Mon'' @ message_Bytes (parseMessage sample_body)) =
       (parseMessage sample_body)\<lparr>pm_Headers := received_field s ''app'' ''Mon'' # pm_Headers (parseMessage sample_body)\<rparr>"
proof -
  have "pm_Headers (parseMessage sample_body) = [] \<or>
      hd (hf_Name (hd (pm_Headers (parseMessage sample_body))) @ [COLON]) \<notin> {SP, TAB}" "date_ok ''Mon''" by code_simp+
  then show ?thesis using received_header_is_one_field [OF parseMessage_ok] by (simp add: Let_def)
qed

text \<open>A series of login attempts on one connection: what each was answered and the hashes it ran bcrypt on.\<close>

fun attempts ::
  "('w, 'm) server_env_scheme \<Rightarrow> (string \<times> string) list \<Rightarrow> session \<Rightarrow> 'w \<Rightarrow>
     (go_error option \<times> string list) list \<times> session \<times> 'w" where
  "attempts E [] s w = ([], s, w)"
| "attempts E ((u, p) # cs) s w =
     (case authenticate E u p s w of
        (err, _, hashes, s, w) \<Rightarrow>
          (case attempts E cs s w of (rs, s, w) \<Rightarrow> ((err, hashes) # rs, s, w)))"

definition failed_checks :: "(go_error option \<times> string list) list \<Rightarrow> nat" where
  "failed_checks rs = length (concat (map snd (filter (\<lambda>r. fst r \<noteq> None) rs)))"

lemma authenticate_cost:
  assumes "authenticate E u p s w = (err, ms, hashes, s', w')" "ss_authFailures s \<le> maxAuthFailures"
  shows "ss_authFailures s' = ss_authFailures s + failed_checks [(err, hashes)] \<and>
         ss_authFailures s' \<le> maxAuthFailures \<and> length hashes \<le> 1 \<and>
         (err = None \<longrightarrow> (\<exists>a. ss_account s' = Some a \<and> lookup_account (sn_accounts (ss_snap s)) u = Some a \<and>
            bcrypt_Compare E (acc_PasswordHash a) p \<and> \<not> acc_Disabled a)) \<and>
         (err \<noteq> None \<longrightarrow> ss_account s' = ss_account s)"
  using assms
  by (auto simp: authenticate_def store_authenticate_def failed_checks_def
      split: if_splits prod.splits option.splits sum.splits)

lemma attempts_cost:
  "ss_authFailures s \<le> maxAuthFailures \<Longrightarrow> attempts E cs s w = (rs, s', w') \<Longrightarrow>
   ss_authFailures s + failed_checks rs = ss_authFailures s' \<and> ss_authFailures s' \<le> maxAuthFailures"
proof (induction cs arbitrary: s w rs)
  case Nil
  then show ?case by (simp add: failed_checks_def)
next
  case (Cons c cs)
  obtain u p where c: "c = (u, p)" by fastforce
  obtain err ms hashes s1 w1 where au: "authenticate E u p s w = (err, ms, hashes, s1, w1)" by (metis surj_pair)
  obtain rs2 s2 w2 where at: "attempts E cs s1 w1 = (rs2, s2, w2)" by (metis surj_pair)
  have eqs: "rs = (err, hashes) # rs2" "s' = s2" "w' = w2" using Cons.prems(2) c au at by simp_all
  note one = authenticate_cost [OF au Cons.prems(1)]
  have "failed_checks rs = failed_checks [(err, hashes)] + failed_checks rs2"
    by (simp add: eqs failed_checks_def)
  then show ?case using Cons.IH [of s1 w1 rs2] one at eqs by simp
qed

text \<open>C36: A connection cannot buy password checks for nothing. However many logins a client tries on one
  connection, bcrypt runs at most three times for attempts that fail.\<close>

theorem auth_failures_bounded:
  "failed_checks (fst (attempts E cs (newSession conn snap) w)) \<le> 3"
proof -
  obtain rs s' w' where at: "attempts E cs (newSession conn snap) w = (rs, s', w')" by (metis surj_pair)
  show ?thesis using attempts_cost [OF _ at] at by (simp add: newSession_def maxAuthFailures_def)
qed


section \<open>Where the code does less than it says\<close>

text \<open>The check of the \<^verbatim>\<open>From\<close> header asks for exactly one, but sees only the fields before the first line
  without a colon: a second \<^verbatim>\<open>From\<close> after such a line goes through.\<close>

lemma second_from_unseen:
  "case demo_data (''From: app@example.test'' @ CRLF @ ''not a header'' @ CRLF @ ''From: ceo@victim.test'' @
                   CRLF @ CRLF @ ''hi'') sample_config of
     Some (err, _, made) \<Rightarrow> err = None \<and> (MailFrom ''app@example.test'', None) \<in> set made
   | None \<Rightarrow> False"
  by code_simp

text \<open>The one \<^verbatim>\<open>From\<close> field is judged by its last angle address alone.\<close>

lemma mailbox_list_judged_by_last:
  "case demo_data (''From: ceo@victim.test, <app@example.test>'' @ CRLF @ CRLF @ ''hi'') sample_config of
     Some (err, _, made) \<Rightarrow> err = None \<and> made \<noteq> []
   | None \<Rightarrow> False"
  by code_simp

text \<open>\<^verbatim>\<open>Data\<close> adopts the snapshot in service, but the envelope sender was judged by the one \<^verbatim>\<open>Mail\<close> saw:
  a sender the snapshot in service does not grant is relayed.\<close>

lemma narrowed_sender_relayed:
  "case demo_load sample_config of
     Some snap \<Rightarrow>
       \<not> allows ascii_unicode (ap_senders (policyFor ascii_unicode snap ''app'')) ''boss@other.test'' \<and>
       (case session_Data demo_server ascii_unicode snap ([sample_body], None)
               (demo_session ''boss@other.test'' snap) \<lparr>dw_fds = 0, dw_pools = []\<rparr> of
          (err, _, made, _) \<Rightarrow> err = None \<and> (MailFrom ''boss@other.test'', None) \<in> set made)
   | None \<Rightarrow> False"
  by code_simp

text \<open>A stage that puts another spool in place of the one \<^verbatim>\<open>Data\<close> opened leaves it to nobody to close: a
  signed message on disk costs a descriptor.\<close>

lemma rewritten_spool_not_closed:
  "case demo_load (sample_config\<lparr>cfg_DKIM := [sample_dkim],
                     cfg_Limits := (cfg_Limits sample_config)\<lparr>lim_SpoolThreshold := 1\<rparr>\<rparr>) of
     Some snap \<Rightarrow>
       (case session_Data demo_server ascii_unicode snap ([sample_body], None)
               (demo_session ''app@example.test'' snap) \<lparr>dw_fds = 0, dw_pools = []\<rparr> of
          (err, _, _, _, w') \<Rightarrow> err = None \<and> dw_fds w' = 1)
   | None \<Rightarrow> False"
  by code_simp

text \<open>A spool that fails while the client's data is being copied answers with the bare error, not with the
  temporary reply that every other failure to buffer gets, and the message is not counted.\<close>

lemma copy_failure_has_no_reply:
  "case demo_load (sample_config\<lparr>cfg_Limits := (cfg_Limits sample_config)\<lparr>lim_SpoolThreshold := 1\<rparr>\<rparr>) of
     Some snap \<Rightarrow>
       (let E = demo_server\<lparr>file_Write := (\<lambda>p w. if p = ''body'' then ((0, Some (Plain ''no space left'')), w)
                                                  else ((length p, None), w))\<rparr>
        in case session_Data E ascii_unicode snap ([''body''], None)
                  (demo_session ''app@example.test'' snap) \<lparr>dw_fds = 0, dw_pools = []\<rparr> of
             (Some e, ms, _) \<Rightarrow> errors_As e = None \<and> outcomes ms = []
           | (None, _) \<Rightarrow> False)
   | None \<Rightarrow> False"
  by code_simp

text \<open>A message without a \<^verbatim>\<open>From\<close> field is refused, not left alone, and an empty envelope sender never gets
  as far as the signer's fallback for it.\<close>

lemma no_from_refused:
  "case demo_data (''Subject: hi'' @ CRLF @ CRLF @ ''text'') sample_config of
     Some (err, _, made) \<Rightarrow> err = Some (SMTPErr (errMalformedHeaders ''no From header'')) \<and> made = []
   | None \<Rightarrow> False"
  by code_simp

lemma empty_sender_refused: "fst (session_Mail U current [] s) \<noteq> None"
proof (cases "ss_account s")
  case (Some a)
  have "bareAddress [] = []" by code_simp
  then have "\<not> allows U p []" for p by (simp add: allows_def)
  then show ?thesis using Some by (auto simp: session_Mail_def split: prod.splits option.splits)
qed (simp add: session_Mail_def)

end
