(* ===== verification/Api.thy ===== *)
theory Api
  imports Config
begin

text \<open>
  \<^verbatim>\<open>api/v1alpha1\<close>: the two resources the operator reconciles, and the part of the Kubernetes objects
  around them that its code looks at. A label selector is Kubernetes' own type and only its meaning
  is used, so it is the type parameter \<open>'sel\<close>; the pod settings that are copied into the Deployment
  unread (resources, tolerations, affinity) are values of the parameter \<open>'x\<close>. A pointer is an
  \<^typ>\<open>'a option\<close>.

  Reading the cluster is a parameter too: a \<^verbatim>\<open>client.Reader\<close> is a record of functions from the world
  to the world and an answer, so that two reads of the same object may differ.
\<close>


section \<open>Kubernetes objects\<close>

type_synonym labels = "string \<rightharpoonup> string"

record OwnerReference =
  own_Kind :: string
  own_Name :: string

record ObjectMeta =
  om_Name :: string
  om_Namespace :: string
  om_UID :: string
  om_CreationTimestamp :: int
  om_Generation :: int
  om_Labels :: labels
  om_Annotations :: labels
  om_OwnerReferences :: "OwnerReference list"

record Condition =
  cond_Type :: string
  cond_Status :: string
  cond_Reason :: string
  cond_Message :: string
  cond_ObservedGeneration :: int

record Secret =
  sec_Meta :: ObjectMeta
  sec_Type :: string
  sec_Data :: "string \<rightharpoonup> bytes"

text \<open>Looking up a key of a nil or missing map entry gives the empty string.\<close>

definition secret_key :: "Secret \<Rightarrow> string \<Rightarrow> bytes" where
  "secret_key secret k = (case sec_Data secret k of None \<Rightarrow> [] | Some v \<Rightarrow> v)"


section \<open>Shared types\<close>

definition ConditionAccepted :: string where "ConditionAccepted = ''Accepted''"
definition ConditionReady :: string where "ConditionReady = ''Ready''"

definition ReasonAccepted :: string where "ReasonAccepted = ''Accepted''"
definition ReasonGatewayNotFound :: string where "ReasonGatewayNotFound = ''GatewayNotFound''"
definition ReasonNamespaceNotAllowed :: string where
  "ReasonNamespaceNotAllowed = ''NamespaceNotAllowed''"
definition ReasonUsernameConflict :: string where "ReasonUsernameConflict = ''UsernameConflict''"
definition ReasonInvalidSpec :: string where "ReasonInvalidSpec = ''InvalidSpec''"
definition ReasonSecretMissing :: string where "ReasonSecretMissing = ''SecretMissing''"
definition ReasonDeploymentNotReady :: string where "ReasonDeploymentNotReady = ''DeploymentNotReady''"
definition ReasonReady :: string where "ReasonReady = ''Ready''"
definition ReasonDisabled :: string where "ReasonDisabled = ''Disabled''"

lemmas condition_names =
  ConditionAccepted_def ConditionReady_def ReasonAccepted_def ReasonGatewayNotFound_def
  ReasonNamespaceNotAllowed_def ReasonUsernameConflict_def ReasonInvalidSpec_def
  ReasonSecretMissing_def ReasonDeploymentNotReady_def ReasonReady_def ReasonDisabled_def

record LocalObjectReference =
  ref_Name :: string

record SecretKeySelector =
  sks_Name :: string
  sks_Key :: string

definition SpecTLSStartTLS :: string where "SpecTLSStartTLS = ''StartTLS''"
definition SpecTLSImplicit :: string where "SpecTLSImplicit = ''Implicit''"
definition SpecTLSNone :: string where "SpecTLSNone = ''None''"

record DKIMKeySpec =
  dks_Domain :: string
  dks_Selector :: string
  dks_PrivateKeySecretRef :: SecretKeySelector
  dks_HeaderKeys :: "string list"

record MilterSpec =
  mls_Name :: string
  mls_Address :: string
  mls_FailOpen :: bool
  mls_Timeout :: "Duration option"


section \<open>Gateways\<close>

record ListenerSpec =
  lsp_Port :: int

record ListenersSpec =
  lss_Submission :: "ListenerSpec option"
  lss_SMTPS :: "ListenerSpec option"

record IssuerReference =
  iss_Name :: string
  iss_Kind :: string
  iss_Group :: string

record GatewayTLSSpec =
  gts_CertificateRefs :: "LocalObjectReference list"
  gts_IssuerRef :: "IssuerReference option"
  gts_DNSNames :: "string list"
  gts_DefaultCertificate :: string

record UpstreamSpec =
  usp_Host :: string
  usp_Port :: int
  usp_TLS :: string
  usp_AuthSecretRef :: "LocalObjectReference option"
  usp_CASecretRef :: "SecretKeySelector option"
  usp_InsecureSkipVerify :: bool
  usp_HandlesDKIM :: bool
  usp_Timeout :: "Duration option"

record RateLimitStoreTLSSpec =
  rst_CASecretRef :: "SecretKeySelector option"
  rst_InsecureSkipVerify :: bool

record RateLimitStoreSpec =
  rss_Addresses :: "string list"
  rss_MasterName :: string
  rss_DB :: int
  rss_AuthSecretRef :: "LocalObjectReference option"
  rss_SentinelAuthSecretRef :: "LocalObjectReference option"
  rss_TLS :: "RateLimitStoreTLSSpec option"
  rss_Timeout :: "Duration option"

record RateLimitSpec =
  rsp_Store :: RateLimitStoreSpec
  rsp_MessagesPerMinute :: "int option"
  rsp_RecipientsPerMinute :: "int option"

definition NamespacesFromAll :: string where "NamespacesFromAll = ''All''"
definition NamespacesFromSame :: string where "NamespacesFromSame = ''Same''"
definition NamespacesFromSelector :: string where "NamespacesFromSelector = ''Selector''"

lemmas namespaces_from =
  NamespacesFromAll_def NamespacesFromSame_def NamespacesFromSelector_def

record 'sel AllowedAccountsSpec =
  aas_Namespaces :: string
  aas_Selector :: "'sel option"

record 'sel SenderGrantSpec =
  sgs_Senders :: "string list"
  sgs_NamespaceSelector :: "'sel option"

record 'x DeploymentSpec =
  dep_Replicas :: "int option"
  dep_Image :: string
  dep_Resources :: 'x
  dep_ServiceType :: string
  dep_ServiceAnnotations :: labels
  dep_PodAnnotations :: labels
  dep_NodeSelector :: labels
  dep_Tolerations :: "'x list"
  dep_Affinity :: "'x option"

record 'sel NetworkPeer =
  np_NamespaceSelector :: "'sel option"
  np_PodSelector :: "'sel option"

record 'sel MetricsSpec =
  ms_AllowedScrapers :: "'sel NetworkPeer list"

record ('sel, 'x) MailoutGatewaySpec =
  gs_Hostname :: string
  gs_Listeners :: ListenersSpec
  gs_TLS :: GatewayTLSSpec
  gs_Upstream :: UpstreamSpec
  gs_DKIM :: "DKIMKeySpec list"
  gs_Milters :: "MilterSpec list"
  gs_AllowedAccounts :: "'sel AllowedAccountsSpec"
  gs_AllowedSenders :: "'sel SenderGrantSpec list"
  gs_RateLimit :: "RateLimitSpec option"
  gs_Deployment :: "'x DeploymentSpec"
  gs_Metrics :: "'sel MetricsSpec"

record ListenerStatus =
  lst_Name :: string
  lst_Port :: int
  lst_Mode :: string

record MailoutGatewayStatus =
  gst_Conditions :: "Condition list"
  gst_ObservedGeneration :: int
  gst_AcceptedAccounts :: int
  gst_Listeners :: "ListenerStatus list"
  gst_ServiceName :: string

record ('sel, 'x) MailoutGateway =
  gw_Meta :: ObjectMeta
  gw_Spec :: "('sel, 'x) MailoutGatewaySpec"
  gw_Status :: MailoutGatewayStatus

abbreviation gw_Name :: "('sel, 'x) MailoutGateway \<Rightarrow> string" where
  "gw_Name gw \<equiv> om_Name (gw_Meta gw)"

abbreviation gw_Namespace :: "('sel, 'x) MailoutGateway \<Rightarrow> string" where
  "gw_Namespace gw \<equiv> om_Namespace (gw_Meta gw)"


section \<open>Accounts\<close>

record GatewayReference =
  gr_Name :: string
  gr_Namespace :: string

record MailoutAccountSpec =
  as_GatewayRef :: GatewayReference
  as_Username :: string
  as_SecretRef :: LocalObjectReference
  as_Rotation :: string
  as_AllowedSenders :: "string list"
  as_EnforceHeaderFrom :: "bool option"
  as_Disabled :: bool

record MailoutAccountStatus =
  ast_Conditions :: "Condition list"
  ast_ObservedGeneration :: int
  ast_Username :: string
  ast_SecretName :: string
  ast_Gateway :: string
  ast_RotationObserved :: string

record MailoutAccount =
  ma_Meta :: ObjectMeta
  ma_Spec :: MailoutAccountSpec
  ma_Status :: MailoutAccountStatus

abbreviation ma_Name :: "MailoutAccount \<Rightarrow> string" where
  "ma_Name account \<equiv> om_Name (ma_Meta account)"

abbreviation ma_Namespace :: "MailoutAccount \<Rightarrow> string" where
  "ma_Namespace account \<equiv> om_Namespace (ma_Meta account)"


section \<open>Reading the cluster\<close>

text \<open>\<open>NotFound\<close> is an error that \<^verbatim>\<open>apierrors.IsNotFound\<close> recognises.\<close>

datatype 'a got = Found 'a | NotFound go_error | Failed go_error

text \<open>The namespace's labels, \<^const>\<open>None\<close> when the object has no label map; an object is looked up by
  namespace and name.\<close>

record ('w, 'sel, 'x) reader =
  rd_Namespace :: "'w \<Rightarrow> string \<Rightarrow> 'w \<times> labels option got"
  rd_Gateway :: "'w \<Rightarrow> string \<Rightarrow> string \<Rightarrow> 'w \<times> ('sel, 'x) MailoutGateway got"
  rd_Account :: "'w \<Rightarrow> string \<Rightarrow> string \<Rightarrow> 'w \<times> MailoutAccount got"
  rd_Accounts :: "'w \<Rightarrow> 'w \<times> MailoutAccount list result"
  rd_Secret :: "'w \<Rightarrow> string \<Rightarrow> string \<Rightarrow> 'w \<times> Secret got"

text \<open>\<^verbatim>\<open>metav1.LabelSelectorAsSelector\<close>, and the \<^verbatim>\<open>Matches\<close> of what it returns.\<close>

type_synonym 'sel selectors = "'sel \<Rightarrow> (labels \<Rightarrow> bool) result"



section \<open>Samples\<close>

text \<open>A gateway in namespace \<^verbatim>\<open>mail\<close> that takes accounts from everywhere and grants one domain to the
  namespaces labelled with a team, and accounts on it. A selector is a label and its value.\<close>

definition sample_meta :: "string \<Rightarrow> string \<Rightarrow> ObjectMeta" where
  "sample_meta namespace name =
     \<lparr>om_Name = name, om_Namespace = namespace, om_UID = namespace @ name, om_CreationTimestamp = 1,
      om_Generation = 1, om_Labels = Map.empty, om_Annotations = Map.empty, om_OwnerReferences = []\<rparr>"

definition sample_selectors :: "(string \<times> string) selectors" where
  "sample_selectors sel = Inr (\<lambda>l. l (fst sel) = Some (snd sel))"

definition sample_spec :: "(string \<times> string, unit) MailoutGatewaySpec" where
  "sample_spec =
     \<lparr>gs_Hostname = ''relay.example.com'',
      gs_Listeners = \<lparr>lss_Submission = Some \<lparr>lsp_Port = 0\<rparr>, lss_SMTPS = Some \<lparr>lsp_Port = 2465\<rparr>\<rparr>,
      gs_TLS = \<lparr>gts_CertificateRefs = [\<lparr>ref_Name = ''crt''\<rparr>], gts_IssuerRef = None, gts_DNSNames = [],
                gts_DefaultCertificate = ''crt''\<rparr>,
      gs_Upstream = \<lparr>usp_Host = ''up.example.com'', usp_Port = 587, usp_TLS = ''StartTLS'',
                     usp_AuthSecretRef = None, usp_CASecretRef = None, usp_InsecureSkipVerify = False,
                     usp_HandlesDKIM = False, usp_Timeout = None\<rparr>,
      gs_DKIM = [\<lparr>dks_Domain = ''a.example'', dks_Selector = ''s1'',
                  dks_PrivateKeySecretRef = \<lparr>sks_Name = ''dkim-a'', sks_Key = []\<rparr>, dks_HeaderKeys = []\<rparr>],
      gs_Milters = [\<lparr>mls_Name = ''rspamd'', mls_Address = ''tcp://rspamd:11332'', mls_FailOpen = False,
                     mls_Timeout = None\<rparr>],
      gs_AllowedAccounts = \<lparr>aas_Namespaces = ''All'', aas_Selector = None\<rparr>,
      gs_AllowedSenders =
        [\<lparr>sgs_Senders = [''*@a.example''], sgs_NamespaceSelector = Some (''team'', ''a'')\<rparr>],
      gs_RateLimit = None,
      gs_Deployment = \<lparr>dep_Replicas = Some 2, dep_Image = [], dep_Resources = (), dep_ServiceType = [],
                       dep_ServiceAnnotations = Map.empty, dep_PodAnnotations = Map.empty,
                       dep_NodeSelector = Map.empty, dep_Tolerations = [], dep_Affinity = None\<rparr>,
      gs_Metrics = \<lparr>ms_AllowedScrapers =
                      [\<lparr>np_NamespaceSelector = Some (''team'', ''ops''), np_PodSelector = None\<rparr>]\<rparr>\<rparr>"

definition sample_gateway :: "(string \<times> string, unit) MailoutGateway" where
  "sample_gateway =
     \<lparr>gw_Meta = sample_meta ''mail'' ''gw'', gw_Spec = sample_spec,
      gw_Status = \<lparr>gst_Conditions = [], gst_ObservedGeneration = 0, gst_AcceptedAccounts = 0,
                   gst_Listeners = [], gst_ServiceName = []\<rparr>\<rparr>"

definition sample_mailbox :: "string \<Rightarrow> string \<Rightarrow> string list \<Rightarrow> MailoutAccount" where
  "sample_mailbox namespace name senders =
     \<lparr>ma_Meta = sample_meta namespace name,
      ma_Spec = \<lparr>as_GatewayRef = \<lparr>gr_Name = ''gw'', gr_Namespace = []\<rparr>, as_Username = [],
                 as_SecretRef = \<lparr>ref_Name = ''creds''\<rparr>, as_Rotation = [],
                 as_AllowedSenders = senders, as_EnforceHeaderFrom = None, as_Disabled = False\<rparr>,
      ma_Status = \<lparr>ast_Conditions = [], ast_ObservedGeneration = 0, ast_Username = [],
                   ast_SecretName = [], ast_Gateway = [], ast_RotationObserved = []\<rparr>\<rparr>"

text \<open>A cluster that does not change: every namespace has the label \<^verbatim>\<open>team=a\<close>, there is the one
  gateway and no Secret.\<close>

definition sample_reader :: "MailoutAccount list \<Rightarrow> (unit, string \<times> string, unit) reader" where
  "sample_reader accounts =
     \<lparr>rd_Namespace = \<lambda>w n. (w, Found (Some [''team'' \<mapsto> ''a''])),
      rd_Gateway = \<lambda>w ns n. (w, if ns = ''mail'' \<and> n = ''gw'' then Found sample_gateway
                                else NotFound (Plain ''not found'')),
      rd_Account = \<lambda>w ns n.
        (w, case find (\<lambda>a. ma_Namespace a = ns \<and> ma_Name a = n) accounts of
              Some a \<Rightarrow> Found a | None \<Rightarrow> NotFound (Plain ''not found'')),
      rd_Accounts = \<lambda>w. (w, Inr accounts),
      rd_Secret = \<lambda>w ns n. (w, NotFound (Plain ''not found''))\<rparr>"

lemmas sample_defs =
  sample_meta_def sample_selectors_def sample_spec_def sample_gateway_def sample_mailbox_def
  sample_reader_def

end
