(* ===== verification/Access.thy ===== *)
theory Access
  imports Api Policy
begin

text \<open>
  \<^verbatim>\<open>internal/controller/access.go\<close>: which gateway an account belongs to, whether the gateway takes
  accounts from its namespace, the name it is provisioned under, and the senders its namespace was
  granted.
\<close>


section \<open>Which gateway, which name\<close>

definition GatewayNamespaceFor :: "MailoutAccount \<Rightarrow> string \<Rightarrow> string" where
  "GatewayNamespaceFor account operatorNamespace =
     (if gr_Namespace (as_GatewayRef (ma_Spec account)) \<noteq> []
      then gr_Namespace (as_GatewayRef (ma_Spec account)) else operatorNamespace)"

definition UsernameFor :: "MailoutAccount \<Rightarrow> string" where
  "UsernameFor account =
     (if as_Username (ma_Spec account) \<noteq> [] then as_Username (ma_Spec account)
      else ma_Namespace account @ ''.'' @ ma_Name account)"


section \<open>Who may attach\<close>

definition namespaceAllowed ::
  "'sel selectors \<Rightarrow> ('w, 'sel, 'x) reader \<Rightarrow> ('sel, 'x) MailoutGateway \<Rightarrow> string \<Rightarrow> 'w \<Rightarrow> 'w \<times> bool result" where
  "namespaceAllowed S c gw namespace w =
     (let aas = gs_AllowedAccounts (gw_Spec gw);
          from = (if aas_Namespaces aas = [] then NamespacesFromAll else aas_Namespaces aas)
      in
      if from = NamespacesFromAll then (w, Inr True)
      else if from = NamespacesFromSame then (w, Inr (namespace = gw_Namespace gw))
      else if from = NamespacesFromSelector then
        (case aas_Selector aas of
           None \<Rightarrow> (w, Inr False)
         | Some sel \<Rightarrow>
             (case S sel of
                Inl err \<Rightarrow> (w, Inl (Wrap ''invalid allowedAccounts selector'' err))
              | Inr matches \<Rightarrow>
                  (case rd_Namespace c w namespace of
                     (w, Found ls) \<Rightarrow> (w, Inr (matches (case ls of None \<Rightarrow> Map.empty | Some l \<Rightarrow> l)))
                   | (w, NotFound err) \<Rightarrow> (w, Inl (Wrap (''get namespace '' @ namespace) err))
                   | (w, Failed err) \<Rightarrow> (w, Inl (Wrap (''get namespace '' @ namespace) err)))))
      else (w, Inl (Plain (''unknown allowedAccounts.namespaces value '' @ from))))"


section \<open>What was granted\<close>

definition namespaceLabels ::
  "('w, 'sel, 'x) reader \<Rightarrow> string \<Rightarrow> 'w \<Rightarrow> 'w \<times> labels result" where
  "namespaceLabels c namespace w =
     (case rd_Namespace c w namespace of
        (w, Found ls) \<Rightarrow> (w, Inr (case ls of None \<Rightarrow> Map.empty | Some l \<Rightarrow> l))
      | (w, NotFound err) \<Rightarrow> (w, Inl (Wrap (''get namespace '' @ namespace) err))
      | (w, Failed err) \<Rightarrow> (w, Inl (Wrap (''get namespace '' @ namespace) err)))"

text \<open>The loop of \<^verbatim>\<open>grantedSenders\<close>: the index of the grant, the labels once they have been read, and
  the senders granted so far.\<close>

fun granted_loop ::
  "'sel selectors \<Rightarrow> ('w, 'sel, 'x) reader \<Rightarrow> string \<Rightarrow> nat \<Rightarrow> 'sel SenderGrantSpec list \<Rightarrow>
   labels option \<Rightarrow> string list \<Rightarrow> 'w \<Rightarrow> 'w \<times> (labels option \<times> string list) result" where
  "granted_loop S c namespace i [] nsLabels granted w = (w, Inr (nsLabels, granted))"
| "granted_loop S c namespace i (grant # grants) nsLabels granted w =
     (case sgs_NamespaceSelector grant of
        None \<Rightarrow> granted_loop S c namespace (Suc i) grants nsLabels (granted @ sgs_Senders grant) w
      | Some sel \<Rightarrow>
          (case S sel of
             Inl err \<Rightarrow>
               (w, Inl (Wrap (''invalid allowedSenders['' @ show_nat i @ ''].namespaceSelector'') err))
           | Inr matches \<Rightarrow>
               (case (case nsLabels of None \<Rightarrow> namespaceLabels c namespace w | Some l \<Rightarrow> (w, Inr l)) of
                  (w, Inl err) \<Rightarrow> (w, Inl err)
                | (w, Inr l) \<Rightarrow>
                    granted_loop S c namespace (Suc i) grants (Some l)
                      (if matches l then granted @ sgs_Senders grant else granted) w)))"

definition grantedSenders ::
  "'sel selectors \<Rightarrow> ('w, 'sel, 'x) reader \<Rightarrow> ('sel, 'x) MailoutGateway \<Rightarrow> string \<Rightarrow> labels option \<Rightarrow>
   'w \<Rightarrow> 'w \<times> (labels option \<times> string list) result" where
  "grantedSenders S c gw namespace nsLabels w =
     granted_loop S c namespace 0 (gs_AllowedSenders (gw_Spec gw)) nsLabels [] w"

definition GrantedSendersFor ::
  "'sel selectors \<Rightarrow> ('w, 'sel, 'x) reader \<Rightarrow> ('sel, 'x) MailoutGateway \<Rightarrow> string \<Rightarrow> 'w \<Rightarrow>
   'w \<times> string list result" where
  "GrantedSendersFor S c gw namespace w =
     (case grantedSenders S c gw namespace None w of
        (w, Inl err) \<Rightarrow> (w, Inl err)
      | (w, Inr (_, granted)) \<Rightarrow> (w, Inr granted))"


section \<open>The grant as the gateway's owner wrote it\<close>

text \<open>A grant applies to a namespace with labels \<open>l\<close> when it has no selector or its selector matches;
  the senders granted are those of the grants that apply, in order.\<close>

definition applies :: "'sel selectors \<Rightarrow> labels \<Rightarrow> 'sel SenderGrantSpec \<Rightarrow> bool" where
  "applies S l grant =
     (case sgs_NamespaceSelector grant of
        None \<Rightarrow> True
      | Some sel \<Rightarrow> (case S sel of Inl _ \<Rightarrow> False | Inr matches \<Rightarrow> matches l))"

definition granted_to :: "'sel selectors \<Rightarrow> ('sel, 'x) MailoutGateway \<Rightarrow> labels \<Rightarrow> string list" where
  "granted_to S gw l =
     concat (map sgs_Senders (filter (applies S l) (gs_AllowedSenders (gw_Spec gw))))"

text \<open>The labels a namespace has in some world of the run: what a lookup answered.\<close>

definition labels_read :: "('w, 'sel, 'x) reader \<Rightarrow> string \<Rightarrow> labels \<Rightarrow> bool" where
  "labels_read c namespace l \<longleftrightarrow> (\<exists>w w'. namespaceLabels c namespace w = (w', Inr l))"

definition no_selector :: "'sel SenderGrantSpec list \<Rightarrow> bool" where
  "no_selector grants \<longleftrightarrow> list_all (\<lambda>g. sgs_NamespaceSelector g = None) grants"

lemma applies_simps:
  "sgs_NamespaceSelector g = None \<Longrightarrow> applies S l g"
  "sgs_NamespaceSelector g = Some sel \<Longrightarrow> S sel = Inr matches \<Longrightarrow> applies S l g = matches l"
  by (simp_all add: applies_def)

lemma granted_loop_cached:
  "granted_loop S c ns i grants (Some l) acc w = (w', Inr (lo, granted)) \<Longrightarrow>
   w' = w \<and> lo = Some l \<and> granted = acc @ concat (map sgs_Senders (filter (applies S l) grants))"
  by (induction grants arbitrary: i acc)
     (fastforce simp: applies_def split: option.splits sum.splits if_splits)+

text \<open>The labels are read at most once, and the result is the grant for one set of labels.\<close>

lemma granted_loop_law:
  assumes "granted_loop S c ns i grants None acc w = (w', Inr (lo, granted))"
  shows "if no_selector grants then w' = w \<and> granted = acc @ concat (map sgs_Senders grants)
         else \<exists>l. namespaceLabels c ns w = (w', Inr l) \<and>
                granted = acc @ concat (map sgs_Senders (filter (applies S l) grants))"
  using assms
proof (induction grants arbitrary: i acc)
  case Nil
  then show ?case by (simp add: no_selector_def)
next
  case (Cons g gs)
  show ?case
  proof (cases "sgs_NamespaceSelector g")
    case None
    with Cons.prems have "granted_loop S c ns (Suc i) gs None (acc @ sgs_Senders g) w = (w', Inr (lo, granted))"
      by simp
    from Cons.IH [OF this] None show ?thesis by (auto simp: no_selector_def applies_simps)
  next
    case (Some sel)
    then obtain matches where m: "S sel = Inr matches" using Cons.prems by (cases "S sel") auto
    obtain w1 r where r: "namespaceLabels c ns w = (w1, r)" by fastforce
    with Some m Cons.prems obtain l where l: "r = Inr l" by (cases r) auto
    with r Some m Cons.prems have
      "granted_loop S c ns (Suc i) gs (Some l) (if matches l then acc @ sgs_Senders g else acc) w1 =
         (w', Inr (lo, granted))" by simp
    from granted_loop_cached [OF this] r l Some m show ?thesis
      by (auto simp: no_selector_def applies_simps)
  qed
qed

lemma filter_applies_all: "no_selector grants \<Longrightarrow> filter (applies S l) grants = grants"
  by (auto simp: no_selector_def list_all_iff applies_def filter_id_conv)

lemma grantedSenders_law:
  assumes "grantedSenders S c gw ns None w = (w', Inr (lo, granted))"
  shows "\<exists>l. granted = granted_to S gw l \<and>
             (no_selector (gs_AllowedSenders (gw_Spec gw)) \<or> namespaceLabels c ns w = (w', Inr l))"
  using granted_loop_law [OF assms [unfolded grantedSenders_def]]
  by (auto simp: granted_to_def filter_applies_all split: if_splits)

lemma GrantedSendersFor_law:
  assumes "GrantedSendersFor S c gw ns w = (w', Inr granted)"
  shows "\<exists>l. granted = granted_to S gw l \<and>
             (no_selector (gs_AllowedSenders (gw_Spec gw)) \<or> namespaceLabels c ns w = (w', Inr l))"
proof -
  obtain lo where "grantedSenders S c gw ns None w = (w', Inr (lo, granted))"
    using assms by (auto simp: GrantedSendersFor_def split: prod.splits sum.splits)
  then show ?thesis by (rule grantedSenders_law)
qed


section \<open>Usernames and namespaces\<close>

text \<open>A namespace name is a DNS label, so it has no dot; a username that starts with the namespace and
  a dot therefore names its namespace.\<close>

definition own_username :: "MailoutAccount \<Rightarrow> bool" where
  "own_username account \<longleftrightarrow> prefix (ma_Namespace account @ ''.'') (UsernameFor account)"

lemma own_username_namespace:
  assumes "own_username a" "own_username b" "UsernameFor a = UsernameFor b"
    and "CHR ''.'' \<notin> set (ma_Namespace a)" "CHR ''.'' \<notin> set (ma_Namespace b)"
  shows "ma_Namespace a = ma_Namespace b"
proof -
  obtain x where x: "UsernameFor a = ma_Namespace a @ CHR ''.'' # x"
    using assms(1) by (auto simp: own_username_def prefix_def)
  obtain y where y: "UsernameFor b = ma_Namespace b @ CHR ''.'' # y"
    using assms(2) by (auto simp: own_username_def prefix_def)
  show ?thesis
    using append_sep_inject [of "ma_Namespace a" "CHR ''.''" x "ma_Namespace b" y] x y assms(3-5)
    by simp
qed

end
