(* ===== verification/Go_Format.thy ===== *)
theory Go_Format
  imports Go_Strings Go_Text
begin

text \<open>
  The parts of Go's \<^verbatim>\<open>path/filepath\<close>, \<^verbatim>\<open>net\<close>, \<^verbatim>\<open>strconv\<close> and \<^verbatim>\<open>fmt\<close> that the operator uses: joining
  and taking apart file paths (on Unix), splitting \<^verbatim>\<open>host:port\<close>, and reading integers.
\<close>


section \<open>File paths\<close>

abbreviation SLASH :: char where "SLASH \<equiv> CHR ''/''"

fun split_on :: "char \<Rightarrow> string \<Rightarrow> string list" where
  "split_on c [] = [[]]"
| "split_on c (x # xs) =
     (if x = c then [] # split_on c xs
      else (case split_on c xs of [] \<Rightarrow> [[x]] | s # ss \<Rightarrow> (x # s) # ss))"

fun join_with :: "string \<Rightarrow> string list \<Rightarrow> string" where
  "join_with sep [] = []"
| "join_with sep [s] = s"
| "join_with sep (s # t # ss) = s @ sep @ join_with sep (t # ss)"

text \<open>One element of a path: empty elements and \<^verbatim>\<open>.\<close> go, and \<^verbatim>\<open>..\<close> takes back the element before it.
  The elements kept so far are in reverse order.\<close>

definition clean_step :: "bool \<Rightarrow> string \<Rightarrow> string list \<Rightarrow> string list" where
  "clean_step rooted e kept =
     (if e = [] \<or> e = ''.'' then kept
      else if e = ''..'' then
        (case kept of
           [] \<Rightarrow> if rooted then [] else [''..'']
         | lst # below \<Rightarrow> if lst = ''..'' then ''..'' # kept else below)
      else e # kept)"

definition path_Clean :: "string \<Rightarrow> string" where
  "path_Clean path =
     (if path = [] then ''.''
      else let rooted = prefix ''/'' path;
               out = join_with ''/'' (rev (fold (clean_step rooted) (split_on SLASH path) []))
           in if rooted then SLASH # out else if out = [] then ''.'' else out)"

definition path_Join :: "string list \<Rightarrow> string" where
  "path_Join elems =
     (case dropWhile (\<lambda>e. e = []) elems of
        [] \<Rightarrow> []
      | es \<Rightarrow> path_Clean (join_with ''/'' es))"

definition path_Dir :: "string \<Rightarrow> string" where
  "path_Dir path = path_Clean (rev (dropWhile (\<lambda>c. c \<noteq> SLASH) (rev path)))"


section \<open>Addresses\<close>

datatype addr_error = MissingPort | TooManyColons | MissingBracket | UnexpectedBracket

definition SplitHostPort :: "string \<Rightarrow> addr_error + (string \<times> string)" where
  "SplitHostPort hostport =
     (case last_index COLON hostport of
        None \<Rightarrow> Inl MissingPort
      | Some i \<Rightarrow>
          let bounds =
            (if hd hostport = CHR ''['' then
               (case index_char (CHR '']'') hostport of
                  None \<Rightarrow> Inl MissingBracket
                | Some end \<Rightarrow>
                    if end + 1 = length hostport then Inl MissingPort
                    else if end + 1 = i then Inr (take (end - 1) (tl hostport), 1, end + 1)
                    else if hostport ! (end + 1) = COLON then Inl TooManyColons
                    else Inl MissingPort)
             else if COLON \<in> set (take i hostport) then Inl TooManyColons
             else Inr (take i hostport, 0, 0))
          in
          case bounds of
            Inl err \<Rightarrow> Inl err
          | Inr (host, j, k) \<Rightarrow>
              if CHR ''['' \<in> set (drop j hostport) \<or> CHR '']'' \<in> set (drop k hostport)
              then Inl UnexpectedBracket
              else Inr (host, drop (i + 1) hostport))"


section \<open>Reading integers\<close>

definition int64_ok :: "int \<Rightarrow> bool" where
  "int64_ok i \<longleftrightarrow> - (2 ^ 63) \<le> i \<and> i < 2 ^ 63"

text \<open>The conversion \<^verbatim>\<open>int32(i)\<close> keeps the low 32 bits.\<close>

definition int32 :: "int \<Rightarrow> int" where
  "int32 i = (i + 2 ^ 31) mod 2 ^ 32 - 2 ^ 31"

definition with_sign :: "string \<Rightarrow> bool \<times> string" where
  "with_sign s =
     (case s of
        [] \<Rightarrow> (False, [])
      | c # cs \<Rightarrow> if c = CHR ''-'' then (True, cs) else if c = CHR ''+'' then (False, cs) else (False, s))"

definition signed_value :: "bool \<Rightarrow> nat \<Rightarrow> int option" where
  "signed_value neg n =
     (let i = (if neg then - int n else int n) in if int64_ok i then Some i else None)"

text \<open>\<^verbatim>\<open>strconv.Atoi\<close>, \<^const>\<open>None\<close> being its error.\<close>

definition Atoi :: "string \<Rightarrow> int option" where
  "Atoi s =
     (case with_sign s of
        (neg, ds) \<Rightarrow> if ds \<noteq> [] \<and> list_all is_digit ds then signed_value neg (read_nat ds) else None)"

text \<open>\<^verbatim>\<open>fmt.Sscan\<close> into an \<^verbatim>\<open>*int\<close>: space, a sign, a base prefix, then as many digits and underscores as
  there are; underscores may only stand between digits or after a prefix. What follows is left
  unread. On an error, \<^const>\<open>None\<close>, nothing is stored.\<close>

definition base_digit :: "char \<Rightarrow> nat" where
  "base_digit c =
     (if is_digit c then digit_val c
      else if CHR ''a'' \<le> c \<and> c \<le> CHR ''f'' then of_char c - 87
      else if CHR ''A'' \<le> c \<and> c \<le> CHR ''F'' then of_char c - 55
      else 16)"

fun underscores_ok :: "bool \<Rightarrow> string \<Rightarrow> bool" where
  "underscores_ok after_digit [] = after_digit"
| "underscores_ok after_digit (c # cs) =
     (if c = CHR ''_'' then after_digit \<and> underscores_ok False cs else underscores_ok True cs)"

definition scan_digits :: "bool \<Rightarrow> bool \<Rightarrow> nat \<Rightarrow> string \<Rightarrow> nat option" where
  "scan_digits prefixed needed base s =
     (let tok = takeWhile (\<lambda>c. base_digit c < base \<or> c = CHR ''_'') s in
      if needed \<and> tok = [] then None
      else if CHR ''_'' \<in> set tok \<and> \<not> underscores_ok prefixed tok then None
      else Some (foldl (\<lambda>n c. base * n + base_digit c) 0 (filter (\<lambda>c. c \<noteq> CHR ''_'') tok)))"

definition scan_magnitude :: "string \<Rightarrow> nat option" where
  "scan_magnitude s =
     (case s of
        c # cs \<Rightarrow>
          if c = CHR ''0'' then
            (case cs of
               x # ds \<Rightarrow>
                 if x \<in> set ''bB'' then scan_digits True True 2 ds
                 else if x \<in> set ''oO'' then scan_digits True True 8 ds
                 else if x \<in> set ''xX'' then scan_digits True True 16 ds
                 else scan_digits True False 8 cs
             | [] \<Rightarrow> Some 0)
          else scan_digits False True 10 s
      | [] \<Rightarrow> None)"

definition Sscan_int :: "string \<Rightarrow> int option" where
  "Sscan_int s =
     (case with_sign (strip_by space_encodings s) of
        (neg, ds) \<Rightarrow> Option.bind (scan_magnitude ds) (signed_value neg))"


section \<open>Paths built from plain names\<close>

text \<open>A name that is one element of a path and stays as it is.\<close>

definition plain_name :: "string \<Rightarrow> bool" where
  "plain_name s \<longleftrightarrow> s \<noteq> [] \<and> s \<noteq> ''.'' \<and> s \<noteq> ''..'' \<and> SLASH \<notin> set s"

lemma split_on_plain [simp]: "c \<notin> set s \<Longrightarrow> split_on c s = [s]"
  by (induction s) auto

lemma split_on_append: "c \<notin> set s \<Longrightarrow> split_on c (s @ c # t) = s # split_on c t"
  by (induction s) auto

lemma split_on_join:
  "ss \<noteq> [] \<Longrightarrow> \<forall>s \<in> set ss. c \<notin> set s \<Longrightarrow> split_on c (join_with [c] ss) = ss"
  by (induction "[c]" ss rule: join_with.induct) (auto simp: split_on_append)

lemma clean_plain:
  "\<forall>s \<in> set ss. plain_name s \<Longrightarrow> fold (clean_step r) ss kept = rev ss @ kept"
  by (induction ss arbitrary: kept) (auto simp: clean_step_def plain_name_def)

text \<open>A clean absolute path: its elements are plain names.\<close>

definition abs_path :: "string list \<Rightarrow> string" where
  "abs_path ss = SLASH # join_with ''/'' ss"

lemma Clean_abs_path:
  assumes "\<forall>s \<in> set ss. plain_name s"
  shows "path_Clean (abs_path ss) = abs_path ss"
proof (cases "ss = []")
  case True
  then show ?thesis by (simp add: path_Clean_def abs_path_def clean_step_def)
next
  case False
  have "\<forall>s \<in> set ss. SLASH \<notin> set s" using assms by (simp add: plain_name_def)
  with False have "split_on SLASH (abs_path ss) = [] # ss"
    by (simp add: abs_path_def split_on_join)
  moreover have "clean_step True [] [] = []" by (simp add: clean_step_def)
  ultimately show ?thesis
    using clean_plain [OF assms, of True "[]"] by (simp add: path_Clean_def Let_def abs_path_def)
qed

lemma join_with_snoc: "ss \<noteq> [] \<Longrightarrow> join_with sep (ss @ [s]) = join_with sep ss @ sep @ s"
  by (induction sep ss rule: join_with.induct) auto

lemma join_with_append:
  "ss \<noteq> [] \<Longrightarrow> ts \<noteq> [] \<Longrightarrow> join_with sep (ss @ ts) = join_with sep ss @ sep @ join_with sep ts"
  by (induction sep ss rule: join_with.induct) (auto simp: neq_Nil_conv)

lemma Join_abs_path:
  assumes "ss \<noteq> []" "\<forall>s \<in> set ss. plain_name s" "plain_name t"
  shows "path_Join [abs_path ss, t] = abs_path (ss @ [t])"
proof -
  have "join_with ''/'' [abs_path ss, t] = abs_path (ss @ [t])"
    using join_with_snoc [OF assms(1), of "''/''" t] by (simp add: abs_path_def)
  moreover have "path_Clean (abs_path (ss @ [t])) = abs_path (ss @ [t])"
    by (rule Clean_abs_path) (use assms in auto)
  moreover have "dropWhile (\<lambda>e. e = []) [abs_path ss, t] = [abs_path ss, t]"
    by (simp add: abs_path_def)
  ultimately show ?thesis by (simp add: path_Join_def)
qed

lemma Dir_abs_path:
  assumes "ss \<noteq> []" "\<forall>s \<in> set ss. plain_name s" "plain_name t"
  shows "path_Dir (abs_path (ss @ [t])) = abs_path ss"
proof -
  have "abs_path (ss @ [t]) = (abs_path ss @ ''/'') @ t"
    using join_with_snoc [OF assms(1), of "''/''" t] by (simp add: abs_path_def)
  moreover have "SLASH \<notin> set t" using assms(3) by (simp add: plain_name_def)
  ultimately have "rev (dropWhile (\<lambda>c. c \<noteq> SLASH) (rev (abs_path (ss @ [t])))) = abs_path ss @ ''/''"
    by (auto simp: dropWhile_append)
  moreover have "path_Clean (abs_path ss @ ''/'') = abs_path ss"
  proof -
    have slash: "\<forall>s \<in> set ss. SLASH \<notin> set s" using assms(2) by (simp add: plain_name_def)
    have "join_with ''/'' ss @ ''/'' = join_with ''/'' (ss @ [[]])"
      using join_with_snoc [OF assms(1), of "''/''" "[]"] by simp
    then have "split_on SLASH (abs_path ss @ ''/'') = [] # ss @ [[]]"
      using split_on_join [of "ss @ [[]]" SLASH] slash by (simp add: abs_path_def)
    moreover have "fold (clean_step True) ([] # ss @ [[]]) [] = rev ss"
      using clean_plain [OF assms(2), of True "[]"] by (simp add: clean_step_def)
    ultimately show ?thesis by (simp add: path_Clean_def Let_def abs_path_def)
  qed
  ultimately show ?thesis by (simp add: path_Dir_def)
qed

lemma join_with_inject:
  "\<forall>s \<in> set ss \<union> set ts. c \<notin> set s \<Longrightarrow> ss \<noteq> [] \<Longrightarrow> ts \<noteq> [] \<Longrightarrow>
   join_with [c] ss = join_with [c] ts \<longleftrightarrow> ss = ts"
  by (metis Un_iff split_on_join)


section \<open>Reading back what was printed\<close>

lemma take_digits: "takeWhile is_digit (show_nat n) = show_nat n"
  using show_nat_digits [of n] by (simp add: takeWhile_eq_all_conv)

lemma digit_not_sign: "is_digit c \<Longrightarrow> c \<noteq> CHR ''-'' \<and> c \<noteq> CHR ''+''"
  by (auto simp: is_digit_def)

lemma hd_show_nat_digit: "is_digit (hd (show_nat n))"
  using show_nat_digits [of n] show_nat_nonempty [of n] hd_in_set by blast

lemma with_sign_show_nat [simp]: "with_sign (show_nat n) = (False, show_nat n)"
  using hd_show_nat_digit [of n] digit_not_sign [of "hd (show_nat n)"]
  by (cases "show_nat n") (auto simp: with_sign_def)

lemma Atoi_show_nat: "int n < 2 ^ 63 \<Longrightarrow> Atoi (show_nat n) = Some (int n)"
  using show_nat_digits [of n]
  by (simp add: Atoi_def list_all_iff signed_value_def int64_ok_def)

lemma show_nat_no_lead: "0 < n \<Longrightarrow> hd (show_nat n) \<noteq> CHR ''0''"
proof (induction n rule: show_nat.induct)
  case (1 n)
  show ?case
  proof (cases "n < 10")
    case True
    have "digit_val (CHR ''0'') = 0" by (simp add: digit_val_def)
    moreover have "digit_val (char_of (48 + n)) \<noteq> 0" using digit_val_digit [OF True] 1(2) by linarith
    ultimately have "char_of (48 + n) \<noteq> (CHR ''0'' :: char)" by force
    with True show ?thesis by (subst show_nat.simps) simp
  next
    case False
    then have "hd (show_nat (n div 10)) \<noteq> CHR ''0''" using 1 by simp
    with False show ?thesis by (subst show_nat.simps) (simp add: hd_append)
  qed
qed

lemma base_digit_digit: "is_digit c \<Longrightarrow> base_digit c = digit_val c \<and> base_digit c < 10"
  by (auto simp: base_digit_def digit_val_def is_digit_def)

lemma foldl_cong_set:
  "\<forall>x \<in> set xs. f x = g x \<Longrightarrow> foldl (\<lambda>n c. k * n + f c) a xs = foldl (\<lambda>n c. k * n + g c) (a::nat) xs"
  by (induction xs arbitrary: a) auto

lemma scan_digits_show_nat: "scan_digits p q 10 (show_nat n) = Some n"
proof -
  let ?s = "show_nat n"
  have d: "\<forall>c \<in> set ?s. base_digit c = digit_val c \<and> base_digit c < 10 \<and> c \<noteq> CHR ''_''"
    using show_nat_digits [of n] base_digit_digit by (fastforce simp: is_digit_def)
  then have "takeWhile (\<lambda>c. base_digit c < 10 \<or> c = CHR ''_'') ?s = ?s"
    by (subst takeWhile_eq_all_conv) blast
  moreover have "filter (\<lambda>c. c \<noteq> CHR ''_'') ?s = ?s" using d by (simp add: filter_id_conv)
  moreover have "foldl (\<lambda>n c. 10 * n + base_digit c) 0 ?s = n"
    using foldl_cong_set [of ?s base_digit digit_val 10 0] d read_show_nat [of n]
    by (simp add: read_nat_def)
  moreover have "CHR ''_'' \<notin> set ?s" using d by blast
  ultimately show ?thesis unfolding scan_digits_def Let_def
    by (simp del: takeWhile_eq_all_conv)
qed

lemma strip_show_nat: "strip_by space_encodings (show_nat n) = show_nat n"
proof (rule strip_by_id)
  have "is_digit (hd (show_nat n))" by (rule hd_show_nat_digit)
  then show "\<forall>p \<in> set space_encodings. \<not> prefix p (show_nat n)"
    by (cases "show_nat n") (auto simp: space_encodings_def is_digit_def)
qed

lemma scan_magnitude_show_nat: "0 < n \<Longrightarrow> scan_magnitude (show_nat n) = Some n"
  using show_nat_no_lead [of n] scan_digits_show_nat [of False True n]
  by (cases "show_nat n") (auto simp: scan_magnitude_def)

lemma Sscan_show_nat: "0 < n \<Longrightarrow> int n < 2 ^ 63 \<Longrightarrow> Sscan_int (show_nat n) = Some (int n)"
  by (simp add: Sscan_int_def strip_show_nat scan_magnitude_show_nat signed_value_def int64_ok_def)

lemma int32_id: "- (2 ^ 31) \<le> i \<Longrightarrow> i < 2 ^ 31 \<Longrightarrow> int32 i = i"
  by (simp add: int32_def)

lemma int32_small: "0 \<le> i \<Longrightarrow> i \<le> 65535 \<Longrightarrow> int32 i = i"
  by (simp add: int32_def)

end
