(* ===== verification/Render.thy ===== *)
theory Render
  imports Api Go_Format "HOL-Library.Multiset" "HOL-Library.Product_Lexorder"
begin

text \<open>
  \<^verbatim>\<open>internal/render/render.go\<close>: a gateway resource, the accounts collected for it and the secrets read
  for it, turned into the configuration the dataplane loads; and the rule that makes a configuration
  fit in a Secret. Marshalling to YAML is a parameter. So is \<^verbatim>\<open>sort.Slice\<close>, which says nothing about the
  order of elements that compare equal: the locale \<open>slice_sort\<close> is what it promises.
\<close>


section \<open>Sorting a slice\<close>

locale slice_sort =
  fixes key :: "'a \<Rightarrow> 'k::linorder"
    and srt :: "'a list \<Rightarrow> 'a list"
  assumes srt_mset: "mset (srt xs) = mset xs"
    and srt_sorted: "sorted (map key (srt xs))"
begin

lemma set_srt [simp]: "set (srt xs) = set xs"
  using srt_mset [of xs] by (metis set_mset_mset)

lemma length_srt [simp]: "length (srt xs) = length xs"
  using srt_mset [of xs] by (metis size_mset)

lemma distinct_srt [simp]: "distinct (srt xs) = distinct xs"
  using srt_mset [of xs] by (metis mset_eq_imp_distinct_iff)

text \<open>Elements with different keys have only one order, whichever way the sort breaks ties.\<close>

lemma srt_unique:
  assumes "distinct (map key xs)" "mset ys = mset xs"
  shows "srt ys = sort_key key xs"
proof (rule properties_for_sort_key [symmetric])
  show eq: "mset (srt ys) = mset xs" using srt_mset [of ys] assms(2) by simp
  fix k assume k: "k \<in> set (srt ys)"
  have sets: "set (srt ys) = set xs" using eq by (metis set_mset_mset)
  have "filter (\<lambda>x. key k = key x) zs = filter (HOL.eq k) zs" if "set zs = set xs" for zs
    using that k sets assms(1) by (intro filter_cong) (auto simp: distinct_map inj_on_def)
  then have "filter (\<lambda>x. key k = key x) (srt ys) = filter (HOL.eq k) (srt ys)"
    and "filter (\<lambda>x. key k = key x) xs = filter (HOL.eq k) xs"
    using sets by blast+
  then show "filter (\<lambda>x. key k = key x) (srt ys) = filter (\<lambda>x. key k = key x) xs"
    using eq by (metis replicate_count_mset_eq_filter_eq)
qed (rule srt_sorted)

end


section \<open>What is rendered\<close>

definition ConfigDir :: string where "ConfigDir = ''/etc/mailout''"
definition SpoolDir :: string where "SpoolDir = ''/var/spool/mailout''"
definition ConfigFileName :: string where "ConfigFileName = ''gateway.yaml''"
definition TLSDir :: string where "TLSDir = ''/etc/mailout/tls''"
definition DKIMDir :: string where "DKIMDir = ''/etc/mailout/dkim''"
definition DefaultDKIMKeyName :: string where "DefaultDKIMKeyName = ''private.key''"
definition DefaultSubmissionPort :: int where "DefaultSubmissionPort = 587"
definition DefaultSMTPSPort :: int where "DefaultSMTPSPort = 465"

record ResolvedAccount =
  ra_Username :: string
  ra_PasswordHash :: string
  ra_Disabled :: bool
  ra_AllowedSenders :: "string list"
  ra_SkipHeaderFromCheck :: bool

record RateLimitCredentials =
  rlc_Username :: string
  rlc_Password :: string
  rlc_SentinelUsername :: string
  rlc_SentinelPassword :: string
  rlc_CAPEM :: string

record ('sel, 'x) Input =
  in_Gateway :: "('sel, 'x) MailoutGateway option"
  in_Accounts :: "ResolvedAccount list"
  in_UpstreamUsername :: string
  in_UpstreamPassword :: string
  in_UpstreamCAPEM :: string
  in_RateLimitStore :: RateLimitCredentials
  in_MetricsToken :: string

definition renderRateLimit :: "RateLimitSpec option \<Rightarrow> RateLimitCredentials \<Rightarrow> RateLimit option" where
  "renderRateLimit spec creds =
     (case spec of
        None \<Rightarrow> None
      | Some rl \<Rightarrow>
          let store = rsp_Store rl in
          Some \<lparr>rl_Store =
                  \<lparr>rls_Addresses = rss_Addresses store,
                   rls_MasterName = rss_MasterName store,
                   rls_DB = rss_DB store,
                   rls_Username = rlc_Username creds,
                   rls_Password = rlc_Password creds,
                   rls_SentinelUsername = rlc_SentinelUsername creds,
                   rls_SentinelPassword = rlc_SentinelPassword creds,
                   rls_TLS = (rss_TLS store \<noteq> None),
                   rls_InsecureSkipVerify =
                     (case rss_TLS store of None \<Rightarrow> False | Some t \<Rightarrow> rst_InsecureSkipVerify t),
                   rls_RootCAPEM = (case rss_TLS store of None \<Rightarrow> [] | Some _ \<Rightarrow> rlc_CAPEM creds),
                   rls_Timeout = (case rss_Timeout store of None \<Rightarrow> 0 | Some d \<Rightarrow> d)\<rparr>,
                rl_MessagesPerMinute = (case rsp_MessagesPerMinute rl of None \<Rightarrow> 0 | Some n \<Rightarrow> n),
                rl_RecipientsPerMinute = (case rsp_RecipientsPerMinute rl of None \<Rightarrow> 0 | Some n \<Rightarrow> n)\<rparr>)"

definition spec_port :: "ListenerSpec option \<Rightarrow> int \<Rightarrow> int" where
  "spec_port l default_port =
     (case l of None \<Rightarrow> default_port | Some s \<Rightarrow> if lsp_Port s \<noteq> 0 then lsp_Port s else default_port)"

definition renderListeners :: "ListenersSpec \<Rightarrow> Listener list" where
  "renderListeners spec =
     (if lss_Submission spec \<noteq> None \<or> lss_SMTPS spec = None
      then [\<lparr>lis_Name = ''submission'',
             lis_Addr = '':'' @ show_int (spec_port (lss_Submission spec) DefaultSubmissionPort),
             lis_Mode = TLSModeSTARTTLS\<rparr>] else []) @
     (if lss_SMTPS spec \<noteq> None
      then [\<lparr>lis_Name = ''smtps'',
             lis_Addr = '':'' @ show_int (spec_port (lss_SMTPS spec) DefaultSMTPSPort),
             lis_Mode = TLSModeImplicit\<rparr>] else [])"

definition CertificateMountPath :: "string \<Rightarrow> string" where
  "CertificateMountPath secretName = path_Join [TLSDir, secretName]"

definition DKIMMountPath :: "string \<Rightarrow> string" where
  "DKIMMountPath secretName = path_Join [DKIMDir, secretName]"

definition OwnedCertificateSecretName :: "string \<Rightarrow> string" where
  "OwnedCertificateSecretName gatewayName = gatewayName @ ''-tls''"

definition CertificateSecretNames :: "('sel, 'x) MailoutGateway \<Rightarrow> string list" where
  "CertificateSecretNames gw =
     (let tls = gs_TLS (gw_Spec gw) in
      if gts_CertificateRefs tls \<noteq> [] then map ref_Name (gts_CertificateRefs tls)
      else if gts_IssuerRef tls \<noteq> None then [OwnedCertificateSecretName (gw_Name gw)]
      else [])"

definition renderTLS :: "('sel, 'x) MailoutGateway \<Rightarrow> TLSConfig" where
  "renderTLS gw =
     \<lparr>tls_Certificates =
        map (\<lambda>ref. let dir = CertificateMountPath ref in
               \<lparr>crt_Name = ref, crt_CertFile = path_Join [dir, ''tls.crt''],
                crt_KeyFile = path_Join [dir, ''tls.key''], crt_CertPEM = [], crt_KeyPEM = []\<rparr>)
            (CertificateSecretNames gw),
      tls_DefaultCertificate = gts_DefaultCertificate (gs_TLS (gw_Spec gw))\<rparr>"

definition upstreamTLSMode :: "string \<Rightarrow> TLSMode" where
  "upstreamTLSMode mode =
     (if mode = SpecTLSImplicit then TLSModeImplicit
      else if mode = SpecTLSNone then TLSModeNone else TLSModeSTARTTLS)"

definition renderUpstream :: "UpstreamSpec \<Rightarrow> ('sel, 'x) Input \<Rightarrow> Upstream" where
  "renderUpstream spec inp =
     \<lparr>ups_Host = usp_Host spec,
      ups_Port = usp_Port spec,
      ups_TLS = upstreamTLSMode (usp_TLS spec),
      ups_InsecureSkipVerify = usp_InsecureSkipVerify spec,
      ups_RootCAPEM = in_UpstreamCAPEM inp,
      ups_Username = in_UpstreamUsername inp,
      ups_Password = in_UpstreamPassword inp,
      ups_Timeout = (case usp_Timeout spec of None \<Rightarrow> 0 | Some d \<Rightarrow> d)\<rparr>"

definition renderMilters :: "MilterSpec list \<Rightarrow> Milter list" where
  "renderMilters specs =
     map (\<lambda>m. \<lparr>mil_Name = mls_Name m, mil_Address = mls_Address m, mil_FailOpen = mls_FailOpen m,
               mil_Timeout = (case mls_Timeout m of None \<Rightarrow> 0 | Some d \<Rightarrow> d)\<rparr>) specs"

definition DKIMKeyName :: "DKIMKeySpec \<Rightarrow> string" where
  "DKIMKeyName spec =
     (if sks_Key (dks_PrivateKeySecretRef spec) \<noteq> [] then sks_Key (dks_PrivateKeySecretRef spec)
      else DefaultDKIMKeyName)"

definition renderDKIM :: "DKIMKeySpec list \<Rightarrow> DKIMKey list" where
  "renderDKIM specs =
     map (\<lambda>k. \<lparr>dk_Domain = dks_Domain k, dk_Selector = dks_Selector k, dk_PrivateKeyPEM = [],
               dk_PrivateKeyFile =
                 path_Join [DKIMMountPath (sks_Name (dks_PrivateKeySecretRef k)), DKIMKeyName k],
               dk_HeaderKeys = dks_HeaderKeys k\<rparr>) specs"

text \<open>The names of the Secrets that hold a key, each once. The accounts are not looked at.\<close>

fun add_names :: "string list \<Rightarrow> DKIMKeySpec list \<Rightarrow> string list" where
  "add_names names [] = names"
| "add_names names (k # ks) =
     (let name = sks_Name (dks_PrivateKeySecretRef k) in
      if name = [] \<or> name \<in> set names then add_names names ks else add_names (names @ [name]) ks)"

definition DKIMSecretNames ::
  "('sel, 'x) MailoutGateway option \<Rightarrow> ResolvedAccount list \<Rightarrow> string list" where
  "DKIMSecretNames gw accounts =
     (case gw of
        None \<Rightarrow> []
      | Some g \<Rightarrow>
          if usp_HandlesDKIM (gs_Upstream (gw_Spec g)) then []
          else sort (add_names [] (gs_DKIM (gw_Spec g))))"

definition DefaultUsername :: "string \<Rightarrow> string \<Rightarrow> string" where
  "DefaultUsername namespace name = namespace @ ''.'' @ name"

definition ConfigFilePath :: string where
  "ConfigFilePath = path_Join [ConfigDir, ConfigFileName]"

definition empty_limits :: "string \<Rightarrow> Limits" where
  "empty_limits dir =
     \<lparr>lim_MaxMessageBytes = 0, lim_MaxRecipients = 0, lim_ReadTimeout = 0, lim_WriteTimeout = 0,
      lim_MaxLineLength = 0, lim_MaxConnections = 0, lim_SpoolDir = dir, lim_SpoolThreshold = 0\<rparr>"

definition rendered_account :: "ResolvedAccount \<Rightarrow> Account" where
  "rendered_account a =
     \<lparr>acc_Username = ra_Username a, acc_PasswordHash = ra_PasswordHash a,
      acc_Disabled = ra_Disabled a, acc_AllowedSenders = ra_AllowedSenders a,
      acc_SkipHeaderFromCheck = ra_SkipHeaderFromCheck a\<rparr>"

definition GatewayConfig ::
  "(ResolvedAccount list \<Rightarrow> ResolvedAccount list) \<Rightarrow> ('sel, 'x) Input \<Rightarrow> Config result" where
  "GatewayConfig srt inp =
     (case in_Gateway inp of
        None \<Rightarrow> Inl (Plain ''gateway is required'')
      | Some gw \<Rightarrow>
          let spec = gw_Spec gw in
          Inr \<lparr>cfg_Hostname = (if gs_Hostname spec = [] then gw_Name gw else gs_Hostname spec),
               cfg_Listeners = renderListeners (gs_Listeners spec),
               cfg_TLS = renderTLS gw,
               cfg_Upstream = renderUpstream (gs_Upstream spec) inp,
               cfg_Accounts = map rendered_account (srt (in_Accounts inp)),
               cfg_Milters = renderMilters (gs_Milters spec),
               cfg_DKIM =
                 (if usp_HandlesDKIM (gs_Upstream spec) then [] else renderDKIM (gs_DKIM spec)),
               cfg_RateLimit = renderRateLimit (gs_RateLimit spec) (in_RateLimitStore inp),
               cfg_Limits = empty_limits SpoolDir,
               cfg_Metrics = \<lparr>mc_Token = in_MetricsToken inp\<rparr>\<rparr>)"

definition ListenerStatuses :: "Config \<Rightarrow> ListenerStatus list" where
  "ListenerStatuses cfg =
     map (\<lambda>l. \<lparr>lst_Name = lis_Name l,
               lst_Port =
                 int32 (case cut COLON (lis_Addr l) of
                          (_, portStr, found) \<Rightarrow>
                            if found then (case Sscan_int portStr of None \<Rightarrow> 0 | Some p \<Rightarrow> p) else 0),
               lst_Mode = lis_Mode l\<rparr>) (cfg_Listeners cfg)"


section \<open>Fitting in a Secret\<close>

definition ConfigBudget :: int where "ConfigBudget = 700 * 1024"

definition marshalledSize :: "('a \<Rightarrow> bytes result) \<Rightarrow> 'a \<Rightarrow> int result" where
  "marshalledSize marshal v =
     (case marshal v of Inl err \<Rightarrow> Inl err | Inr text \<Rightarrow> Inr (int (length text)))"

text \<open>The accounts with their index, and what each weighs on its own; \<^const>\<open>None\<close> when one does not
  marshal.\<close>

fun weigh :: "(Account \<Rightarrow> bytes result) \<Rightarrow> nat \<Rightarrow> Account list \<Rightarrow> (nat \<times> int) list option" where
  "weigh marshal i [] = Some []"
| "weigh marshal i (a # as) =
     (case marshalledSize marshal a of
        Inl _ \<Rightarrow> None
      | Inr n \<Rightarrow> map_option (\<lambda>order. (i, n) # order) (weigh marshal (Suc i) as))"

definition weight_key :: "Config \<Rightarrow> nat \<times> int \<Rightarrow> int \<times> string" where
  "weight_key cfg s = (- snd s, acc_Username (cfg_Accounts cfg ! fst s))"

definition without :: "Account list \<Rightarrow> nat set \<Rightarrow> Account list" where
  "without accounts gone = map snd (filter (\<lambda>(i, a). i \<notin> gone) (enumerate 0 accounts))"

fun drop_loop ::
  "(Config \<Rightarrow> bytes result) \<Rightarrow> Config \<Rightarrow> int \<Rightarrow> nat set \<Rightarrow> string list \<Rightarrow> (nat \<times> int) list \<Rightarrow>
   (Account list \<times> string list) option" where
  "drop_loop marshal cfg budget gone names [] = None"
| "drop_loop marshal cfg budget gone names (candidate # rest) =
     (let gone = insert (fst candidate) gone;
          names = names @ [acc_Username (cfg_Accounts cfg ! fst candidate)];
          kept = without (cfg_Accounts cfg) gone
      in
      case marshalledSize marshal (cfg\<lparr>cfg_Accounts := kept\<rparr>) of
        Inl _ \<Rightarrow> None
      | Inr n \<Rightarrow>
          if n \<le> budget then Some (kept, names) else drop_loop marshal cfg budget gone names rest)"

definition FitAccounts ::
  "(Config \<Rightarrow> bytes result) \<Rightarrow> (Account \<Rightarrow> bytes result) \<Rightarrow>
   ((nat \<times> int \<Rightarrow> int \<times> string) \<Rightarrow> (nat \<times> int) list \<Rightarrow> (nat \<times> int) list) \<Rightarrow>
   Config \<Rightarrow> int \<Rightarrow> Config \<times> string list" where
  "FitAccounts marshal marshal_account srt cfg budget =
     (case marshalledSize marshal cfg of
        Inl _ \<Rightarrow> (cfg, [])
      | Inr n \<Rightarrow>
          if n \<le> budget then (cfg, [])
          else (case weigh marshal_account 0 (cfg_Accounts cfg) of
                  None \<Rightarrow> (cfg, [])
                | Some order \<Rightarrow>
                    (case drop_loop marshal cfg budget {} [] (srt (weight_key cfg) order) of
                       None \<Rightarrow> (cfg, [])
                     | Some (kept, names) \<Rightarrow> (cfg\<lparr>cfg_Accounts := kept\<rparr>, names))))"


section \<open>Rendering is a function of the set of accounts\<close>

interpretation account_order: slice_sort ra_Username "sort_key ra_Username"
  by unfold_locales auto

interpretation weight_order: slice_sort k "sort_key k" for k :: "nat \<times> int \<Rightarrow> int \<times> string"
  by unfold_locales auto

lemma GatewayConfig_accounts:
  "GatewayConfig srt inp = Inr cfg \<Longrightarrow> cfg_Accounts cfg = map rendered_account (srt (in_Accounts inp))"
  by (auto simp: GatewayConfig_def Let_def split: option.splits)

lemma rendered_account_sel [simp]:
  "acc_Username (rendered_account a) = ra_Username a"
  "acc_PasswordHash (rendered_account a) = ra_PasswordHash a"
  "acc_AllowedSenders (rendered_account a) = ra_AllowedSenders a"
  "acc_Disabled (rendered_account a) = ra_Disabled a"
  "acc_SkipHeaderFromCheck (rendered_account a) = ra_SkipHeaderFromCheck a"
  by (simp_all add: rendered_account_def)


section \<open>Ports are read back as they were written\<close>

definition port_ok :: "int \<Rightarrow> bool" where
  "port_ok p \<longleftrightarrow> 0 \<le> p \<and> p \<le> 65535"

definition listeners_ok :: "ListenersSpec \<Rightarrow> bool" where
  "listeners_ok spec \<longleftrightarrow>
     (\<forall>l. lss_Submission spec = Some l \<longrightarrow> port_ok (lsp_Port l)) \<and>
     (\<forall>l. lss_SMTPS spec = Some l \<longrightarrow> port_ok (lsp_Port l))"

lemma spec_port_range:
  "\<forall>s. l = Some s \<longrightarrow> port_ok (lsp_Port s) \<Longrightarrow> 0 < d \<Longrightarrow> d \<le> 65535 \<Longrightarrow>
   0 < spec_port l d \<and> spec_port l d \<le> 65535"
  by (auto simp: spec_port_def port_ok_def split: option.splits)

lemma status_port:
  assumes "0 < p" "p \<le> 65535"
  shows "int32 (case cut COLON ('':'' @ show_int p) of
                  (_, portStr, found) \<Rightarrow>
                    if found then (case Sscan_int portStr of None \<Rightarrow> 0 | Some p \<Rightarrow> p) else 0) = p"
proof -
  have "cut COLON ([] @ COLON # show_int p) = ([], show_int p, True)" by (rule cut_found) simp
  moreover have "show_int p = show_nat (nat p)" using assms(1) by (simp add: show_int_def)
  moreover have "Sscan_int (show_nat (nat p)) = Some (int (nat p))"
    by (rule Sscan_show_nat) (use assms in auto)
  ultimately show ?thesis using assms int32_small [of p] by simp
qed

definition rendered_ports :: "ListenersSpec \<Rightarrow> (string \<times> int \<times> TLSMode) list" where
  "rendered_ports spec =
     (if lss_Submission spec \<noteq> None \<or> lss_SMTPS spec = None
      then [(''submission'', spec_port (lss_Submission spec) 587, TLSModeSTARTTLS)] else []) @
     (if lss_SMTPS spec \<noteq> None
      then [(''smtps'', spec_port (lss_SMTPS spec) 465, TLSModeImplicit)] else [])"

lemma ListenerStatuses_rendered:
  assumes "GatewayConfig srt inp = Inr cfg" "in_Gateway inp = Some gw"
    and "listeners_ok (gs_Listeners (gw_Spec gw))"
  shows "map (\<lambda>l. (lst_Name l, lst_Port l, lst_Mode l)) (ListenerStatuses cfg) =
         rendered_ports (gs_Listeners (gw_Spec gw))"
proof -
  let ?spec = "gs_Listeners (gw_Spec gw)"
  have ls: "cfg_Listeners cfg = renderListeners ?spec"
    using assms(1,2) by (auto simp: GatewayConfig_def Let_def)
  note r1 = spec_port_range [of "lss_Submission ?spec" 587]
  note r2 = spec_port_range [of "lss_SMTPS ?spec" 465]
  have "0 < spec_port (lss_Submission ?spec) 587 \<and> spec_port (lss_Submission ?spec) 587 \<le> 65535"
    "0 < spec_port (lss_SMTPS ?spec) 465 \<and> spec_port (lss_SMTPS ?spec) 465 \<le> 65535"
    using r1 r2 assms(3) by (simp_all add: listeners_ok_def)
  then show ?thesis
    using status_port [of "spec_port (lss_Submission ?spec) 587"]
      status_port [of "spec_port (lss_SMTPS ?spec) 465"]
    by (simp add: ListenerStatuses_def ls renderListeners_def rendered_ports_def
        DefaultSubmissionPort_def DefaultSMTPSPort_def)
qed


section \<open>Dropping accounts\<close>

definition config_size :: "(Config \<Rightarrow> bytes result) \<Rightarrow> Config \<Rightarrow> int" where
  "config_size marshal cfg = (case marshalledSize marshal cfg of Inl _ \<Rightarrow> 0 | Inr n \<Rightarrow> n)"

definition weight :: "(Account \<Rightarrow> bytes result) \<Rightarrow> Account \<Rightarrow> int" where
  "weight marshal a = (case marshalledSize marshal a of Inl _ \<Rightarrow> 0 | Inr n \<Rightarrow> n)"

definition marshals :: "('a \<Rightarrow> bytes result) \<Rightarrow> bool" where
  "marshals marshal \<longleftrightarrow> (\<forall>v. \<exists>text. marshal v = Inr text)"

lemma marshals_ok: "marshals marshal \<Longrightarrow> marshal v \<noteq> Inl err"
  unfolding marshals_def by (metis sum.simps(4))

lemma marshals_size: "marshals marshal \<Longrightarrow> marshalledSize marshal cfg = Inr (config_size marshal cfg)"
  by (auto simp: marshalledSize_def config_size_def marshals_ok split: sum.splits)

lemma weigh_law:
  "weigh marshal i as = Some order \<Longrightarrow>
   order = map (\<lambda>j. (i + j, weight marshal (as ! j))) [0..<length as]"
proof (induction as arbitrary: i order)
  case (Cons a as)
  obtain n rest where n: "marshalledSize marshal a = Inr n" and r: "weigh marshal (Suc i) as = Some rest"
    and o: "order = (i, n) # rest"
    using Cons.prems by (auto split: sum.splits)
  have "rest = map (\<lambda>j. (Suc i + j, weight marshal (as ! j))) [0..<length as]"
    by (rule Cons.IH [OF r])
  moreover have "[0..<length (a # as)] = 0 # map Suc [0..<length as]"
    by (simp add: map_Suc_upt upt_conv_Cons del: upt_Suc)
  ultimately show ?case using o n by (simp add: weight_def o_def)
qed simp

lemma weigh_total: "marshals marshal \<Longrightarrow> weigh marshal i as \<noteq> None"
  by (induction as arbitrary: i)
     (auto simp: marshals_ok marshalledSize_def split: sum.splits)

lemma drop_loop_law:
  assumes "drop_loop marshal cfg budget gone names order = Some (kept, ns)" "marshals marshal"
  shows "\<exists>k < length order.
           kept = without (cfg_Accounts cfg) (gone \<union> fst ` set (take (Suc k) order)) \<and>
           ns = names @ map (\<lambda>s. acc_Username (cfg_Accounts cfg ! fst s)) (take (Suc k) order) \<and>
           config_size marshal (cfg\<lparr>cfg_Accounts := kept\<rparr>) \<le> budget \<and>
           (0 < k \<longrightarrow> budget < config_size marshal
              (cfg\<lparr>cfg_Accounts := without (cfg_Accounts cfg) (gone \<union> fst ` set (take k order))\<rparr>))"
  using assms(1)
proof (induction order arbitrary: gone names)
  case (Cons c rest)
  let ?gone = "insert (fst c) gone" and ?names = "names @ [acc_Username (cfg_Accounts cfg ! fst c)]"
  let ?size = "config_size marshal (cfg\<lparr>cfg_Accounts := without (cfg_Accounts cfg) ?gone\<rparr>)"
  show ?case
  proof (cases "?size \<le> budget")
    case True
    then show ?thesis using Cons.prems
      by (intro exI [of _ 0]) (auto simp: marshals_size [OF assms(2)] Let_def)
  next
    case False
    with Cons.prems have "drop_loop marshal cfg budget ?gone ?names rest = Some (kept, ns)"
      by (simp add: marshals_size [OF assms(2)] Let_def)
    from Cons.IH [OF this] obtain k where k: "k < length rest"
      "kept = without (cfg_Accounts cfg) (?gone \<union> fst ` set (take (Suc k) rest))"
      "ns = ?names @ map (\<lambda>s. acc_Username (cfg_Accounts cfg ! fst s)) (take (Suc k) rest)"
      "config_size marshal (cfg\<lparr>cfg_Accounts := kept\<rparr>) \<le> budget"
      "0 < k \<longrightarrow> budget < config_size marshal
         (cfg\<lparr>cfg_Accounts := without (cfg_Accounts cfg) (?gone \<union> fst ` set (take k rest))\<rparr>)"
      by blast
    have "budget < config_size marshal
            (cfg\<lparr>cfg_Accounts := without (cfg_Accounts cfg) (?gone \<union> fst ` set (take k rest))\<rparr>)"
      using k(5) False by (cases "k = 0") auto
    with k(1-4) show ?thesis by (intro exI [of _ "Suc k"]) auto
  qed
qed simp

lemma drop_loop_total:
  assumes "marshals marshal" "order \<noteq> []"
    and "config_size marshal
           (cfg\<lparr>cfg_Accounts := without (cfg_Accounts cfg) (gone \<union> fst ` set order)\<rparr>) \<le> budget"
  shows "drop_loop marshal cfg budget gone names order \<noteq> None"
  using assms(2,3)
proof (induction order arbitrary: gone names)
  case (Cons c rest)
  then show ?case
    by (cases "rest = []") (auto simp: marshals_size [OF assms(1)] Let_def)
qed simp

lemma without_none: "without as {} = as"
  by (simp add: without_def)

lemma without_all: "{0..<length as} \<subseteq> gone \<Longrightarrow> without as gone = []"
  by (auto simp: without_def filter_empty_conv in_set_enumerate_eq)

text \<open>What \<^const>\<open>FitAccounts\<close> does to a configuration that is too large: it takes out the accounts
  \<open>gone\<close>, which weigh at least as much as those that stay, and one fewer would not have done.\<close>

definition fitted ::
  "(Config \<Rightarrow> bytes result) \<Rightarrow> (Account \<Rightarrow> bytes result) \<Rightarrow> Config \<Rightarrow> int \<Rightarrow> nat set \<Rightarrow> Config \<Rightarrow> bool" where
  "fitted marshal marshal_account cfg budget gone cfg' \<longleftrightarrow>
     cfg' = cfg\<lparr>cfg_Accounts := without (cfg_Accounts cfg) gone\<rparr> \<and>
     gone \<subseteq> {..<length (cfg_Accounts cfg)} \<and>
     (\<forall>i \<in> gone. \<forall>j < length (cfg_Accounts cfg). j \<notin> gone \<longrightarrow>
        weight marshal_account (cfg_Accounts cfg ! j) \<le> weight marshal_account (cfg_Accounts cfg ! i)) \<and>
     (gone \<noteq> {} \<longrightarrow>
        (\<exists>i \<in> gone. budget < config_size marshal
           (cfg\<lparr>cfg_Accounts := without (cfg_Accounts cfg) (gone - {i})\<rparr>)))"

lemma sorted_take_drop:
  assumes "sorted (map key xs)" "x \<in> set (take k xs)" "y \<in> set xs" "y \<notin> set (take k xs)"
  shows "key x \<le> key y"
proof -
  have "y \<in> set (drop k xs)" using assms(3,4) by (metis Un_iff append_take_drop_id set_append)
  moreover have "sorted (map key (take k xs) @ map key (drop k xs))"
    using assms(1) by (metis append_take_drop_id map_append)
  ultimately show ?thesis using assms(2) by (auto simp: sorted_append)
qed

lemma drop_order_law:
  assumes so: "slice_sort (weight_key cfg) srt"
    and order: "weigh marshal_account 0 (cfg_Accounts cfg) = Some order"
  shows "set (srt order) = (\<lambda>j. (j, weight marshal_account (cfg_Accounts cfg ! j))) ` {..<length (cfg_Accounts cfg)}"
    and "distinct (map fst (srt order))"
    and "\<forall>i \<in> fst ` set (take k (srt order)). \<forall>j < length (cfg_Accounts cfg).
           j \<notin> fst ` set (take k (srt order)) \<longrightarrow>
           weight marshal_account (cfg_Accounts cfg ! j) \<le> weight marshal_account (cfg_Accounts cfg ! i)"
proof -
  let ?w = "\<lambda>j. (j, weight marshal_account (cfg_Accounts cfg ! j))"
  have o: "order = map ?w [0..<length (cfg_Accounts cfg)]" using weigh_law [OF order] by simp
  show s: "set (srt order) = ?w ` {..<length (cfg_Accounts cfg)}"
    using slice_sort.set_srt [OF so, of order] o by (simp add: lessThan_atLeast0)
  have "mset (map fst (srt order)) = mset (map fst order)"
    using slice_sort.srt_mset [OF so, of order] by simp
  moreover have "distinct (map fst order)" using o by (simp add: o_def)
  ultimately show "distinct (map fst (srt order))" by (metis mset_eq_imp_distinct_iff)
  show "\<forall>i \<in> fst ` set (take k (srt order)). \<forall>j < length (cfg_Accounts cfg).
          j \<notin> fst ` set (take k (srt order)) \<longrightarrow>
          weight marshal_account (cfg_Accounts cfg ! j) \<le> weight marshal_account (cfg_Accounts cfg ! i)"
  proof (intro ballI allI impI)
    fix i j assume i: "i \<in> fst ` set (take k (srt order))" and j: "j < length (cfg_Accounts cfg)"
      "j \<notin> fst ` set (take k (srt order))"
    from i obtain x where x: "x \<in> set (take k (srt order))" "i = fst x" by blast
    from x(1) have "x \<in> set (srt order)" by (rule in_set_takeD)
    with s x(2) have x': "x = ?w i" by auto
    have "?w j \<in> set (srt order)" using s j(1) by blast
    moreover have "?w j \<notin> set (take k (srt order))" using j(2) by force
    ultimately have "weight_key cfg x \<le> weight_key cfg (?w j)"
      using sorted_take_drop [OF slice_sort.srt_sorted [OF so], OF x(1)] by blast
    with x' show "weight marshal_account (cfg_Accounts cfg ! j) \<le> weight marshal_account (cfg_Accounts cfg ! i)"
      by (auto simp: weight_key_def less_eq_prod_def)
  qed
qed

lemma fitted_nothing: "fitted marshal marshal_account cfg budget {} cfg"
  by (simp add: fitted_def without_none)

lemma fst_take_remove:
  assumes "distinct (map fst xs)" "k < length xs"
  shows "fst ` set (take (Suc k) xs) - {fst (xs ! k)} = fst ` set (take k xs)"
proof -
  have "fst (xs ! k) \<notin> fst ` set (take k xs)"
  proof
    assume "fst (xs ! k) \<in> fst ` set (take k xs)"
    then obtain j where "j < k" "fst (xs ! j) = fst (xs ! k)"
      using assms(2) by (auto simp: in_set_conv_nth)
    with assms show False using nth_eq_iff_index_eq [OF assms(1), of j k] by simp
  qed
  then show ?thesis using assms(2) by (auto simp: take_Suc_conv_app_nth)
qed

lemma drop_loop_fitted:
  assumes so: "slice_sort (weight_key cfg) srt" and m: "marshals marshal"
    and order: "weigh marshal_account 0 (cfg_Accounts cfg) = Some order"
    and kept: "drop_loop marshal cfg budget {} [] (srt order) = Some (kept, ns)"
    and large: "budget < config_size marshal cfg"
  shows "\<exists>gone. fitted marshal marshal_account cfg budget gone (cfg\<lparr>cfg_Accounts := kept\<rparr>) \<and>
           mset ns = {#acc_Username (cfg_Accounts cfg ! i). i \<in># mset_set gone#}"
proof -
  let ?as = "cfg_Accounts cfg" and ?so = "srt order"
  note law = drop_order_law [OF so order]
  obtain k where k: "k < length ?so" "kept = without ?as (fst ` set (take (Suc k) ?so))"
    "ns = map (\<lambda>s. acc_Username (?as ! fst s)) (take (Suc k) ?so)"
    "0 < k \<longrightarrow> budget < config_size marshal
       (cfg\<lparr>cfg_Accounts := without ?as (fst ` set (take k ?so))\<rparr>)"
    using drop_loop_law [OF kept m] by auto
  let ?gone = "fst ` set (take (Suc k) ?so)"
  have gone: "?gone \<subseteq> {..<length ?as}" using law(1) set_take_subset [of "Suc k" ?so] by auto
  have "budget < config_size marshal (cfg\<lparr>cfg_Accounts := without ?as (?gone - {fst (?so ! k)})\<rparr>)"
    unfolding fst_take_remove [OF law(2) k(1)]
    using k(4) large by (cases "k = 0") (simp_all add: without_none)
  moreover have "fst (?so ! k) \<in> ?gone" using k(1) by (simp add: take_Suc_conv_app_nth)
  ultimately have "fitted marshal marshal_account cfg budget ?gone (cfg\<lparr>cfg_Accounts := kept\<rparr>)"
    unfolding fitted_def using gone law(3) [of "Suc k"] k(2) by blast
  moreover have "mset_set ?gone = mset (map fst (take (Suc k) ?so))"
    using law(2) by (metis distinct_take mset_set_set set_map take_map)
  then have "mset ns = {#acc_Username (?as ! i). i \<in># mset_set ?gone#}"
    using k(3) by (simp add: image_mset.compositionality o_def)
  ultimately show ?thesis by blast
qed

lemma no_account_size:
  assumes "budget < config_size marshal cfg" "config_size marshal (cfg\<lparr>cfg_Accounts := []\<rparr>) \<le> budget"
  shows "cfg_Accounts cfg \<noteq> []"
proof
  assume "cfg_Accounts cfg = []"
  then have "cfg\<lparr>cfg_Accounts := []\<rparr> = cfg" by (cases cfg) simp
  with assms show False by simp
qed


text \<open>What is rendered depends on which accounts there are and not on the order they were listed in,
  nor on how the sort breaks ties, as long as no two share a username; they are rendered in the
  order of their usernames.\<close>

theorem GatewayConfig_deterministic:
  assumes "slice_sort ra_Username srt" "slice_sort ra_Username srt'"
    and "distinct (map ra_Username (in_Accounts inp))"
    and "mset accounts = mset (in_Accounts inp)"
  shows "GatewayConfig srt' (inp\<lparr>in_Accounts := accounts\<rparr>) = GatewayConfig srt inp \<and>
         (\<forall>cfg. GatewayConfig srt inp = Inr cfg \<longrightarrow>
            map acc_Username (cfg_Accounts cfg) = sort (map ra_Username (in_Accounts inp)))"
proof
  have "srt' accounts = srt (in_Accounts inp)"
    using slice_sort.srt_unique [OF assms(1,3) refl] slice_sort.srt_unique [OF assms(2-4)] by simp
  then show "GatewayConfig srt' (inp\<lparr>in_Accounts := accounts\<rparr>) = GatewayConfig srt inp"
    by (cases "in_Gateway inp") (simp_all add: GatewayConfig_def renderUpstream_def Let_def)
  have "map ra_Username (srt (in_Accounts inp)) = sort (map ra_Username (in_Accounts inp))"
    using properties_for_sort [of "map ra_Username (srt (in_Accounts inp))" "map ra_Username (in_Accounts inp)"]
      slice_sort.srt_mset [OF assms(1)] slice_sort.srt_sorted [OF assms(1)] by simp
  then show "\<forall>cfg. GatewayConfig srt inp = Inr cfg \<longrightarrow>
      map acc_Username (cfg_Accounts cfg) = sort (map ra_Username (in_Accounts inp))"
    by (simp add: GatewayConfig_accounts o_def)
qed


section \<open>Samples\<close>

definition sample_resolved :: "string \<Rightarrow> ResolvedAccount" where
  "sample_resolved name =
     \<lparr>ra_Username = name, ra_PasswordHash = ''h'', ra_Disabled = False,
      ra_AllowedSenders = [''*@a.example''], ra_SkipHeaderFromCheck = False\<rparr>"

definition sample_input :: "string list \<Rightarrow> (string \<times> string, unit) Input" where
  "sample_input names =
     \<lparr>in_Gateway = Some sample_gateway, in_Accounts = map sample_resolved names,
      in_UpstreamUsername = [], in_UpstreamPassword = [], in_UpstreamCAPEM = [],
      in_RateLimitStore = \<lparr>rlc_Username = [], rlc_Password = [], rlc_SentinelUsername = [],
                           rlc_SentinelPassword = [], rlc_CAPEM = []\<rparr>,
      in_MetricsToken = ''token''\<rparr>"

definition sample_rendering :: "string list \<Rightarrow> Config" where
  "sample_rendering names =
     (case GatewayConfig (sort_key ra_Username) (sample_input names) of Inr cfg \<Rightarrow> cfg)"

text \<open>A toy rendering to text, which needs no more than the usernames.\<close>

definition sample_marshal :: "Config \<Rightarrow> bytes result" where
  "sample_marshal cfg = Inr (concat (map acc_Username (cfg_Accounts cfg)))"

definition sample_marshal_account :: "Account \<Rightarrow> bytes result" where
  "sample_marshal_account a = Inr (acc_Username a)"

lemma sample_marshals: "marshals sample_marshal" "marshals sample_marshal_account"
  by (simp_all add: marshals_def sample_marshal_def sample_marshal_account_def)


theorem GatewayConfig_deterministic_witness:
  "GatewayConfig (sort_key ra_Username) (sample_input [''b'', ''a'']) =
   GatewayConfig (sort_key ra_Username) (sample_input [''a'', ''b''])"
proof -
  let ?inp = "sample_input [''a'', ''b'']"
  have "sample_input [''b'', ''a''] = ?inp\<lparr>in_Accounts := map sample_resolved [''b'', ''a'']\<rparr>"
    by (simp add: sample_input_def)
  then show ?thesis
    using GatewayConfig_deterministic [OF account_order.slice_sort_axioms account_order.slice_sort_axioms,
        of ?inp "map sample_resolved [''b'', ''a'']"]
    by (simp add: sample_input_def sample_resolved_def)
qed

end
