(* ===== verification/Objects.thy ===== *)
theory Objects
  imports Render
begin

text \<open>
  \<^verbatim>\<open>internal/render/objects.go\<close>: the Kubernetes objects that carry a rendered configuration. An object
  is a record of the fields the source sets; a field left out has its zero value. SHA-256 is a
  parameter. \<^verbatim>\<open>Deployment\<close> reads the first listener of the configuration and panics when there is none:
  \<^const>\<open>None\<close>.
\<close>


section \<open>Names and labels\<close>

definition ConfigSecretSuffix :: string where "ConfigSecretSuffix = ''-config''"
definition LabelGatewayName :: string where "LabelGatewayName = ''mailout.daly.nc/gateway''"
definition LabelGatewayNamespace :: string where
  "LabelGatewayNamespace = ''mailout.daly.nc/gateway-namespace''"
definition MetricsServiceSuffix :: string where "MetricsServiceSuffix = ''-metrics''"
definition LabelService :: string where "LabelService = ''mailout.daly.nc/service''"
definition RestartHashAnnotation :: string where
  "RestartHashAnnotation = ''mailout.daly.nc/restart-hash''"
definition dataplaneUID :: int where "dataplaneUID = 65532"
definition dataplaneGID :: int where "dataplaneGID = 65532"
definition secretFileMode :: int where "secretFileMode = 4 * 64 + 4 * 8"
definition MetricsPortName :: string where "MetricsPortName = ''metrics''"
definition MetricsTokenKey :: string where "MetricsTokenKey = ''metricsToken''"
definition SpoolVolumeName :: string where "SpoolVolumeName = ''spool''"
definition spoolSizeLimit :: string where "spoolSizeLimit = ''2Gi''"
definition MetricsPort :: int where "MetricsPort = 9090"
definition MetricsPath :: string where "MetricsPath = ''/metrics''"
definition PasswordHashKey :: string where "PasswordHashKey = ''passwordHash''"

definition MetricsServiceName :: "string \<Rightarrow> string" where
  "MetricsServiceName gatewayName = gatewayName @ MetricsServiceSuffix"

definition ConfigSecretName :: "string \<Rightarrow> string" where
  "ConfigSecretName gatewayName = gatewayName @ ConfigSecretSuffix"

definition MetricsNetworkPolicyName :: "string \<Rightarrow> string" where
  "MetricsNetworkPolicyName gatewayName = gatewayName @ ''-metrics''"

definition SelectorLabels :: "string \<Rightarrow> labels" where
  "SelectorLabels gatewayName =
     [''app.kubernetes.io/name'' \<mapsto> ''mailout'',
      ''app.kubernetes.io/instance'' \<mapsto> gatewayName,
      ''app.kubernetes.io/component'' \<mapsto> ''gateway'']"

definition Labels :: "string \<Rightarrow> labels" where
  "Labels gatewayName =
     [''app.kubernetes.io/name'' \<mapsto> ''mailout'',
      ''app.kubernetes.io/instance'' \<mapsto> gatewayName,
      ''app.kubernetes.io/component'' \<mapsto> ''gateway'',
      ''app.kubernetes.io/managed-by'' \<mapsto> ''mailout-operator'']"

definition MetricsServiceLabels :: "string \<Rightarrow> labels" where
  "MetricsServiceLabels gatewayName = (Labels gatewayName)(LabelService \<mapsto> MetricsPortName)"

definition new_meta :: "string \<Rightarrow> string \<Rightarrow> labels \<Rightarrow> ObjectMeta" where
  "new_meta name namespace ls =
     \<lparr>om_Name = name, om_Namespace = namespace, om_UID = [], om_CreationTimestamp = 0,
      om_Generation = 0, om_Labels = ls, om_Annotations = Map.empty, om_OwnerReferences = []\<rparr>"


section \<open>The configuration Secret and the certificate\<close>

definition ConfigSecret :: "('sel, 'x) MailoutGateway \<Rightarrow> bytes \<Rightarrow> string \<Rightarrow> Secret" where
  "ConfigSecret gw rendered metricsToken =
     \<lparr>sec_Meta = new_meta (ConfigSecretName (gw_Name gw)) (gw_Namespace gw) (Labels (gw_Name gw)),
      sec_Type = ''Opaque'',
      sec_Data =
        (if metricsToken \<noteq> [] then [ConfigFileName \<mapsto> rendered, MetricsTokenKey \<mapsto> metricsToken]
         else [ConfigFileName \<mapsto> rendered])\<rparr>"

record Certificate =
  cer_Meta :: ObjectMeta
  cer_SecretName :: string
  cer_DNSNames :: "string list"
  cer_IssuerRef :: IssuerReference

definition render_Certificate :: "('sel, 'x) MailoutGateway \<Rightarrow> Certificate option" where
  "render_Certificate gw =
     (let tls = gs_TLS (gw_Spec gw) in
      case gts_IssuerRef tls of
        None \<Rightarrow> None
      | Some issuer \<Rightarrow>
          Some \<lparr>cer_Meta = new_meta (gw_Name gw) (gw_Namespace gw) (Labels (gw_Name gw)),
                cer_SecretName = OwnedCertificateSecretName (gw_Name gw),
                cer_DNSNames =
                  (if gts_DNSNames tls = [] \<and> gs_Hostname (gw_Spec gw) \<noteq> []
                   then [gs_Hostname (gw_Spec gw)] else gts_DNSNames tls),
                cer_IssuerRef =
                  \<lparr>iss_Name = iss_Name issuer,
                   iss_Kind = (if iss_Kind issuer = [] then ''Issuer'' else iss_Kind issuer),
                   iss_Group = (if iss_Group issuer = [] then ''cert-manager.io'' else iss_Group issuer)\<rparr>\<rparr>)"


section \<open>Services\<close>

datatype IntOrString = FromInt32 int | FromString string

record ServicePort =
  svp_Name :: string
  svp_Port :: int
  svp_TargetPort :: IntOrString
  svp_Protocol :: string

record Service =
  svc_Meta :: ObjectMeta
  svc_Selector :: labels
  svc_Type :: string
  svc_Ports :: "ServicePort list"
  svc_ClusterIP :: string

definition serviceType :: "('sel, 'x) MailoutGateway \<Rightarrow> string" where
  "serviceType gw =
     (if dep_ServiceType (gs_Deployment (gw_Spec gw)) \<noteq> []
      then dep_ServiceType (gs_Deployment (gw_Spec gw)) else ''ClusterIP'')"

definition render_Service :: "('sel, 'x) MailoutGateway \<Rightarrow> Config \<Rightarrow> Service" where
  "render_Service gw cfg =
     \<lparr>svc_Meta = (new_meta (gw_Name gw) (gw_Namespace gw) (Labels (gw_Name gw)))
        \<lparr>om_Annotations := dep_ServiceAnnotations (gs_Deployment (gw_Spec gw))\<rparr>,
      svc_Selector = SelectorLabels (gw_Name gw),
      svc_Type = serviceType gw,
      svc_Ports =
        map (\<lambda>l. \<lparr>svp_Name = lst_Name l, svp_Port = lst_Port l, svp_TargetPort = FromInt32 (lst_Port l),
                  svp_Protocol = ''TCP''\<rparr>) (ListenerStatuses cfg),
      svc_ClusterIP = []\<rparr>"

definition MetricsService :: "('sel, 'x) MailoutGateway \<Rightarrow> Service" where
  "MetricsService gw =
     \<lparr>svc_Meta = new_meta (MetricsServiceName (gw_Name gw)) (gw_Namespace gw)
                   (MetricsServiceLabels (gw_Name gw)),
      svc_Selector = SelectorLabels (gw_Name gw),
      svc_Type = ''ClusterIP'',
      svc_Ports = [\<lparr>svp_Name = MetricsPortName, svp_Port = MetricsPort,
                    svp_TargetPort = FromString MetricsPortName, svp_Protocol = ''TCP''\<rparr>],
      svc_ClusterIP = []\<rparr>"

record ServiceMonitor =
  mon_Meta :: ObjectMeta
  mon_MatchLabels :: labels
  mon_MatchNames :: "string list"
  mon_Port :: string
  mon_Path :: string
  mon_Scheme :: string
  mon_Credentials :: SecretKeySelector

definition render_ServiceMonitor :: "('sel, 'x) MailoutGateway \<Rightarrow> ServiceMonitor" where
  "render_ServiceMonitor gw =
     \<lparr>mon_Meta = new_meta (MetricsServiceName (gw_Name gw)) (gw_Namespace gw)
                   (MetricsServiceLabels (gw_Name gw)),
      mon_MatchLabels = MetricsServiceLabels (gw_Name gw),
      mon_MatchNames = [gw_Namespace gw],
      mon_Port = MetricsPortName,
      mon_Path = MetricsPath,
      mon_Scheme = ''http'',
      mon_Credentials = \<lparr>sks_Name = ConfigSecretName (gw_Name gw), sks_Key = MetricsTokenKey\<rparr>\<rparr>"


section \<open>The Deployment\<close>

datatype VolumeSource = SecretVolume string int | EmptyDir string

record Volume =
  vol_Name :: string
  vol_Source :: VolumeSource

record VolumeMount =
  mnt_Name :: string
  mnt_MountPath :: string
  mnt_ReadOnly :: bool

record ContainerPort =
  cnp_Name :: string
  cnp_ContainerPort :: int
  cnp_Protocol :: string

record SecurityContext =
  sc_AllowPrivilegeEscalation :: bool
  sc_ReadOnlyRootFilesystem :: bool
  sc_RunAsNonRoot :: bool
  sc_RunAsUser :: int
  sc_RunAsGroup :: int
  sc_DropCapabilities :: "string list"

record PodSecurityContext =
  psc_RunAsNonRoot :: bool
  psc_RunAsUser :: int
  psc_RunAsGroup :: int
  psc_FSGroup :: int
  psc_SeccompProfile :: string

record 'x Container =
  con_Name :: string
  con_Image :: string
  con_ImagePullPolicy :: string
  con_Args :: "string list"
  con_Ports :: "ContainerPort list"
  con_VolumeMounts :: "VolumeMount list"
  con_Resources :: 'x
  con_ReadinessPort :: int
  con_LivenessPort :: int
  con_SecurityContext :: SecurityContext

record 'x PodSpec =
  pod_AutomountServiceAccountToken :: bool
  pod_Containers :: "'x Container list"
  pod_Volumes :: "Volume list"
  pod_NodeSelector :: labels
  pod_Tolerations :: "'x list"
  pod_Affinity :: "'x option"
  pod_SecurityContext :: PodSecurityContext

record 'x Deployment =
  dpl_Meta :: ObjectMeta
  dpl_Replicas :: "int option"
  dpl_Selector :: "labels option"
  dpl_TemplateLabels :: labels
  dpl_TemplateAnnotations :: labels
  dpl_PodSpec :: "'x PodSpec"
  dpl_AvailableReplicas :: int

definition index_int :: "nat option \<Rightarrow> int" where
  "index_int i = (case i of None \<Rightarrow> - 1 | Some n \<Rightarrow> int n)"

definition PullPolicyFor :: "string \<Rightarrow> string" where
  "PullPolicyFor img =
     (if index_sub ''@sha256:'' img \<noteq> None then ''IfNotPresent''
      else let i = index_int (last_index COLON img);
               tag = (if i > index_int (last_index SLASH img) then drop (nat (i + 1)) img else [])
           in if tag \<in> set [[], ''dev'', ''latest'', ''main'', ''edge'', ''nightly'']
              then ''Always'' else ''IfNotPresent'')"

definition hex_digit :: "nat \<Rightarrow> char" where
  "hex_digit n = ''0123456789abcdef'' ! (n mod 16)"

definition hex_encode :: "bytes \<Rightarrow> string" where
  "hex_encode bs = concat (map (\<lambda>b. [hex_digit (of_char b div 16), hex_digit (of_char b)]) bs)"

definition restart_text :: "('sel, 'x) MailoutGateway \<Rightarrow> Config \<Rightarrow> ResolvedAccount list \<Rightarrow> string" where
  "restart_text gw cfg accounts =
     concat (map (\<lambda>l. ''listener='' @ lis_Name l @ '':'' @ lis_Addr l @ '':'' @ lis_Mode l @ [LF])
                 (cfg_Listeners cfg)) @
     concat (map (\<lambda>name. ''tls='' @ name @ [LF]) (CertificateSecretNames gw)) @
     concat (map (\<lambda>name. ''dkim='' @ name @ [LF]) (DKIMSecretNames (Some gw) accounts))"

definition RestartHash ::
  "(bytes \<Rightarrow> bytes) \<Rightarrow> ('sel, 'x) MailoutGateway \<Rightarrow> Config \<Rightarrow> ResolvedAccount list \<Rightarrow> string" where
  "RestartHash sha256 gw cfg accounts = hex_encode (take 8 (sha256 (restart_text gw cfg accounts)))"

definition secret_volumes :: "string \<Rightarrow> string list \<Rightarrow> Volume list" where
  "secret_volumes stem names =
     map (\<lambda>(i, name). \<lparr>vol_Name = stem @ show_nat i, vol_Source = SecretVolume name secretFileMode\<rparr>)
         (enumerate 0 names)"

definition secret_mounts :: "string \<Rightarrow> (string \<Rightarrow> string) \<Rightarrow> string list \<Rightarrow> VolumeMount list" where
  "secret_mounts stem path names =
     map (\<lambda>(i, name). \<lparr>mnt_Name = stem @ show_nat i, mnt_MountPath = path name, mnt_ReadOnly = True\<rparr>)
         (enumerate 0 names)"

definition pod_volumes :: "('sel, 'x) MailoutGateway \<Rightarrow> ResolvedAccount list \<Rightarrow> Volume list" where
  "pod_volumes gw accounts =
     [\<lparr>vol_Name = ''config'', vol_Source = SecretVolume (ConfigSecretName (gw_Name gw)) secretFileMode\<rparr>,
      \<lparr>vol_Name = SpoolVolumeName, vol_Source = EmptyDir spoolSizeLimit\<rparr>] @
     secret_volumes ''tls-'' (CertificateSecretNames gw) @
     secret_volumes ''dkim-'' (DKIMSecretNames (Some gw) accounts)"

definition pod_mounts :: "('sel, 'x) MailoutGateway \<Rightarrow> ResolvedAccount list \<Rightarrow> VolumeMount list" where
  "pod_mounts gw accounts =
     [\<lparr>mnt_Name = ''config'', mnt_MountPath = ConfigDir, mnt_ReadOnly = True\<rparr>,
      \<lparr>mnt_Name = SpoolVolumeName, mnt_MountPath = SpoolDir, mnt_ReadOnly = False\<rparr>] @
     secret_mounts ''tls-'' CertificateMountPath (CertificateSecretNames gw) @
     secret_mounts ''dkim-'' DKIMMountPath (DKIMSecretNames (Some gw) accounts)"

definition pod_ports :: "Config \<Rightarrow> ContainerPort list" where
  "pod_ports cfg =
     map (\<lambda>l. \<lparr>cnp_Name = lst_Name l, cnp_ContainerPort = lst_Port l, cnp_Protocol = ''TCP''\<rparr>)
         (ListenerStatuses cfg) @
     [\<lparr>cnp_Name = MetricsPortName, cnp_ContainerPort = MetricsPort, cnp_Protocol = ''TCP''\<rparr>]"

definition render_Deployment ::
  "(bytes \<Rightarrow> bytes) \<Rightarrow> ('sel, 'x) MailoutGateway \<Rightarrow> Config \<Rightarrow> ResolvedAccount list \<Rightarrow> string \<Rightarrow>
   'x Deployment option" where
  "render_Deployment sha256 gw cfg accounts img =
     (let spec = gs_Deployment (gw_Spec gw) in
      case ListenerStatuses cfg of
        [] \<Rightarrow> None
      | first # _ \<Rightarrow>
          Some \<lparr>dpl_Meta = new_meta (gw_Name gw) (gw_Namespace gw) (Labels (gw_Name gw)),
                dpl_Replicas = dep_Replicas spec,
                dpl_Selector = Some (SelectorLabels (gw_Name gw)),
                dpl_TemplateLabels = Labels (gw_Name gw),
                dpl_TemplateAnnotations =
                  [RestartHashAnnotation \<mapsto> RestartHash sha256 gw cfg accounts] ++ dep_PodAnnotations spec,
                dpl_PodSpec =
                  \<lparr>pod_AutomountServiceAccountToken = False,
                   pod_Containers =
                     [\<lparr>con_Name = ''gateway'',
                       con_Image = img,
                       con_ImagePullPolicy = PullPolicyFor img,
                       con_Args = [''gateway'', ''--config='' @ ConfigFilePath,
                                   ''--metrics-bind-address=:'' @ show_int MetricsPort,
                                   ''--log-format=json''],
                       con_Ports = pod_ports cfg,
                       con_VolumeMounts = pod_mounts gw accounts,
                       con_Resources = dep_Resources spec,
                       con_ReadinessPort = lst_Port first,
                       con_LivenessPort = lst_Port first,
                       con_SecurityContext =
                         \<lparr>sc_AllowPrivilegeEscalation = False, sc_ReadOnlyRootFilesystem = True,
                          sc_RunAsNonRoot = True, sc_RunAsUser = dataplaneUID,
                          sc_RunAsGroup = dataplaneGID, sc_DropCapabilities = [''ALL'']\<rparr>\<rparr>],
                   pod_Volumes = pod_volumes gw accounts,
                   pod_NodeSelector = dep_NodeSelector spec,
                   pod_Tolerations = dep_Tolerations spec,
                   pod_Affinity = dep_Affinity spec,
                   pod_SecurityContext =
                     \<lparr>psc_RunAsNonRoot = True, psc_RunAsUser = dataplaneUID,
                      psc_RunAsGroup = dataplaneGID, psc_FSGroup = dataplaneGID,
                      psc_SeccompProfile = ''RuntimeDefault''\<rparr>\<rparr>,
                dpl_AvailableReplicas = 0\<rparr>)"


section \<open>What an account is given\<close>

record Endpoint =
  ep_Host :: string
  ep_Port :: int
  ep_TLS :: string

definition prefer_listener :: "ListenerStatus \<Rightarrow> Endpoint \<Rightarrow> Endpoint" where
  "prefer_listener l endpoint =
     (if ep_Port endpoint = 0 \<or> lst_Name l = ''submission''
      then endpoint\<lparr>ep_Port := lst_Port l, ep_TLS := lst_Mode l\<rparr> else endpoint)"

definition GatewayEndpoint :: "('sel, 'x) MailoutGateway \<Rightarrow> Config \<Rightarrow> Endpoint" where
  "GatewayEndpoint gw cfg =
     fold prefer_listener (ListenerStatuses cfg)
       \<lparr>ep_Host = gw_Name gw @ ''.'' @ gw_Namespace gw @ ''.svc'', ep_Port = 0, ep_TLS = []\<rparr>"

definition accountSecretLabels :: "MailoutAccount \<Rightarrow> string \<Rightarrow> labels" where
  "accountSecretLabels account gatewayNamespace =
     [''app.kubernetes.io/name'' \<mapsto> ''mailout'',
      ''app.kubernetes.io/component'' \<mapsto> ''account'',
      ''app.kubernetes.io/managed-by'' \<mapsto> ''mailout-operator'',
      ''mailout.daly.nc/account'' \<mapsto> ma_Name account,
      LabelGatewayName \<mapsto> gr_Name (as_GatewayRef (ma_Spec account)),
      LabelGatewayNamespace \<mapsto> gatewayNamespace]"

definition AccountSecret ::
  "MailoutAccount \<Rightarrow> string \<Rightarrow> string \<Rightarrow> string \<Rightarrow> Endpoint \<Rightarrow> string \<Rightarrow> Secret" where
  "AccountSecret account username password passwordHash endpoint gatewayNamespace =
     \<lparr>sec_Meta = new_meta (ref_Name (as_SecretRef (ma_Spec account))) (ma_Namespace account)
                   (accountSecretLabels account gatewayNamespace),
      sec_Type = ''kubernetes.io/basic-auth'',
      sec_Data =
        [''username'' \<mapsto> username,
         ''password'' \<mapsto> password,
         PasswordHashKey \<mapsto> passwordHash,
         ''host'' \<mapsto> ep_Host endpoint,
         ''port'' \<mapsto> show_int (ep_Port endpoint),
         ''tls'' \<mapsto> ep_TLS endpoint]\<rparr>"


section \<open>Who may read the metrics\<close>

definition listenerPortOf :: "Listener \<Rightarrow> int" where
  "listenerPortOf l =
     (case SplitHostPort (lis_Addr l) of
        Inl _ \<Rightarrow> 0
      | Inr (_, port) \<Rightarrow> (case Atoi port of None \<Rightarrow> 0 | Some n \<Rightarrow> int32 n))"

record NetworkPolicyPort =
  npp_Protocol :: string
  npp_Port :: int

record 'sel IngressRule =
  ing_Ports :: "NetworkPolicyPort list"
  ing_From :: "'sel NetworkPeer list"

record 'sel NetworkPolicy =
  pol_Meta :: ObjectMeta
  pol_PodSelector :: labels
  pol_PolicyTypes :: "string list"
  pol_Ingress :: "'sel IngressRule list"

definition MetricsNetworkPolicy ::
  "('sel, 'x) MailoutGateway \<Rightarrow> Config \<Rightarrow> 'sel NetworkPolicy option" where
  "MetricsNetworkPolicy gw cfg =
     (let scrapers = ms_AllowedScrapers (gs_Metrics (gw_Spec gw)) in
      if scrapers = [] then None
      else Some \<lparr>pol_Meta = new_meta (MetricsNetworkPolicyName (gw_Name gw)) (gw_Namespace gw)
                              (Labels (gw_Name gw)),
                 pol_PodSelector = SelectorLabels (gw_Name gw),
                 pol_PolicyTypes = [''Ingress''],
                 pol_Ingress =
                   [\<lparr>ing_Ports = map (\<lambda>l. \<lparr>npp_Protocol = ''TCP'', npp_Port = listenerPortOf l\<rparr>)
                                     (cfg_Listeners cfg),
                     ing_From = []\<rparr>,
                    \<lparr>ing_Ports = [\<lparr>npp_Protocol = ''TCP'', npp_Port = MetricsPort\<rparr>],
                     ing_From = map (\<lambda>s. \<lparr>np_NamespaceSelector = np_NamespaceSelector s,
                                          np_PodSelector = np_PodSelector s\<rparr>) scrapers\<rparr>]\<rparr>)"


section \<open>Every file the configuration names is mounted\<close>

lemmas dirs = TLSDir_def DKIMDir_def ConfigDir_def SpoolDir_def

lemma dirs_abs:
  "TLSDir = abs_path [''etc'', ''mailout'', ''tls'']"
  "DKIMDir = abs_path [''etc'', ''mailout'', ''dkim'']"
  "ConfigDir = abs_path [''etc'', ''mailout'']"
  "SpoolDir = abs_path [''var'', ''spool'', ''mailout'']"
  by (simp_all add: dirs abs_path_def)

lemma plain_names [simp]:
  "plain_name ''etc''" "plain_name ''mailout''" "plain_name ''tls''" "plain_name ''dkim''"
  "plain_name ''var''" "plain_name ''spool''" "plain_name ''tls.crt''" "plain_name ''tls.key''"
  "plain_name ''private.key''" "plain_name ''gateway.yaml''"
  by (simp_all add: plain_name_def)

lemma mount_paths:
  assumes "plain_name n"
  shows "CertificateMountPath n = abs_path [''etc'', ''mailout'', ''tls'', n]"
    and "DKIMMountPath n = abs_path [''etc'', ''mailout'', ''dkim'', n]"
  using Join_abs_path [of "[''etc'', ''mailout'', ''tls'']" n] Join_abs_path [of "[''etc'', ''mailout'', ''dkim'']" n]
    assms by (simp_all add: CertificateMountPath_def DKIMMountPath_def dirs_abs)

lemma Dir_Join_mount:
  assumes "plain_name n" "plain_name f"
  shows "path_Dir (path_Join [CertificateMountPath n, f]) = CertificateMountPath n"
    and "path_Dir (path_Join [DKIMMountPath n, f]) = DKIMMountPath n"
  using Join_abs_path [of "[''etc'', ''mailout'', ''tls'', n]" f] Dir_abs_path [of "[''etc'', ''mailout'', ''tls'', n]" f]
    Join_abs_path [of "[''etc'', ''mailout'', ''dkim'', n]" f] Dir_abs_path [of "[''etc'', ''mailout'', ''dkim'', n]" f]
    assms by (simp_all add: mount_paths)

lemma Dir_ConfigFilePath: "path_Dir ConfigFilePath = ConfigDir"
  using Join_abs_path [of "[''etc'', ''mailout'']" "''gateway.yaml''"]
    Dir_abs_path [of "[''etc'', ''mailout'']" "''gateway.yaml''"]
  by (simp add: ConfigFilePath_def ConfigFileName_def dirs_abs)

text \<open>The Secrets of a gateway have names that are one path element, as the API server requires of
  the name of an object and of the keys of its data.\<close>

definition secrets_plain :: "('sel, 'x) MailoutGateway \<Rightarrow> bool" where
  "secrets_plain gw \<longleftrightarrow>
     list_all plain_name (CertificateSecretNames gw) \<and>
     list_all (\<lambda>k. plain_name (sks_Name (dks_PrivateKeySecretRef k)) \<and> plain_name (DKIMKeyName k))
       (gs_DKIM (gw_Spec gw))"

definition deployed_mounts :: "'x Deployment \<Rightarrow> VolumeMount list" where
  "deployed_mounts d = concat (map con_VolumeMounts (pod_Containers (dpl_PodSpec d)))"

text \<open>A Secret's keys appear as files of the directory \<open>dir\<close>.\<close>

definition mounted :: "'x Deployment \<Rightarrow> string \<Rightarrow> string \<Rightarrow> bool" where
  "mounted d secret dir \<longleftrightarrow>
     (\<exists>m \<in> set (deployed_mounts d). \<exists>v \<in> set (pod_Volumes (dpl_PodSpec d)).
        mnt_Name m = vol_Name v \<and> mnt_MountPath m = dir \<and> mnt_ReadOnly m \<and>
        vol_Source v = SecretVolume secret secretFileMode)"

lemma set_add_names:
  "set (add_names names ks) =
   set names \<union> {n. n \<noteq> [] \<and> n \<in> (\<lambda>k. sks_Name (dks_PrivateKeySecretRef k)) ` set ks}"
  by (induction names ks rule: add_names.induct) (auto simp: Let_def)

lemma distinct_add_names: "distinct names \<Longrightarrow> distinct (add_names names ks)"
  by (induction names ks rule: add_names.induct) (auto simp: Let_def)

lemma secret_mounted:
  assumes "n \<in> set names"
  shows "\<exists>m \<in> set (secret_mounts stem path names). \<exists>v \<in> set (secret_volumes stem names).
           mnt_Name m = vol_Name v \<and> mnt_MountPath m = path n \<and> mnt_ReadOnly m \<and>
           vol_Source v = SecretVolume n secretFileMode"
proof -
  obtain i where "(i, n) \<in> set (enumerate 0 names)" using enumerate_mem [OF assms] by blast
  then show ?thesis unfolding secret_mounts_def secret_volumes_def by force
qed

lemma Deployment_pod:
  assumes "render_Deployment sha gw cfg accounts img = Some d"
  shows "deployed_mounts d = pod_mounts gw accounts" "pod_Volumes (dpl_PodSpec d) = pod_volumes gw accounts"
  using assms by (auto simp: render_Deployment_def Let_def deployed_mounts_def split: list.splits)

lemma mounted_cases:
  assumes "render_Deployment sha gw cfg accounts img = Some d"
  shows "n \<in> set (CertificateSecretNames gw) \<Longrightarrow> mounted d n (CertificateMountPath n)"
    and "n \<in> set (DKIMSecretNames (Some gw) accounts) \<Longrightarrow> mounted d n (DKIMMountPath n)"
    and "mounted d (ConfigSecretName (gw_Name gw)) ConfigDir"
  using secret_mounted [of n "CertificateSecretNames gw" "''tls-''" CertificateMountPath]
    secret_mounted [of n "DKIMSecretNames (Some gw) accounts" "''dkim-''" DKIMMountPath]
  unfolding mounted_def Deployment_pod [OF assms] pod_mounts_def pod_volumes_def
  by (fastforce, fastforce, simp)

lemma secret_names_stem: "map vol_Name (secret_volumes stem names) = map (\<lambda>i. stem @ show_nat i) [0..<length names]"
  by (rule nth_equalityI) (auto simp: secret_volumes_def nth_enumerate_eq)

lemma pod_volume_names: "distinct (map vol_Name (pod_volumes gw accounts))"
proof -
  have "map vol_Name (pod_volumes gw accounts) =
      [''config'', ''spool''] @ map (\<lambda>i. ''tls-'' @ show_nat i) [0..<length (CertificateSecretNames gw)] @
      map (\<lambda>i. ''dkim-'' @ show_nat i) [0..<length (DKIMSecretNames (Some gw) accounts)]"
    by (simp add: pod_volumes_def secret_names_stem SpoolVolumeName_def)
  then show ?thesis by (auto simp: distinct_map inj_on_def)
qed

lemma secret_mounts_elem:
  "m \<in> set (secret_mounts stem path names) \<Longrightarrow> mnt_ReadOnly m \<and> (\<exists>n \<in> set names. mnt_MountPath m = path n)"
  by (auto simp: secret_mounts_def in_set_enumerate_eq)

lemma mount_path_not_spool:
  "plain_name n \<Longrightarrow> CertificateMountPath n \<noteq> SpoolDir \<and> DKIMMountPath n \<noteq> SpoolDir \<and> ConfigDir \<noteq> SpoolDir"
  by (simp add: mount_paths dirs_abs abs_path_def)

lemma only_spool_writable:
  assumes "secrets_plain gw" "m \<in> set (pod_mounts gw accounts)"
  shows "mnt_ReadOnly m = (mnt_MountPath m \<noteq> SpoolDir)"
proof -
  have "plain_name n" if "n \<in> set (CertificateSecretNames gw) \<union> set (DKIMSecretNames (Some gw) accounts)" for n
    using assms(1) that
    by (auto simp: secrets_plain_def list_all_iff DKIMSecretNames_def set_add_names split: if_splits)
  then show ?thesis
    using assms(2) secret_mounts_elem [of m "''tls-''" CertificateMountPath "CertificateSecretNames gw"]
      secret_mounts_elem [of m "''dkim-''" DKIMMountPath "DKIMSecretNames (Some gw) accounts"]
      mount_path_not_spool [of "''tls''"] mount_path_not_spool
    unfolding pod_mounts_def by fastforce
qed



section \<open>A rollout only when the pod cannot follow\<close>

lemma DKIMSecretNames_accounts: "DKIMSecretNames gw accounts = DKIMSecretNames gw accounts'"
  by (simp add: DKIMSecretNames_def)

lemma ListenerStatuses_listeners:
  "cfg_Listeners cfg = cfg_Listeners cfg' \<Longrightarrow> ListenerStatuses cfg = ListenerStatuses cfg'"
  by (simp add: ListenerStatuses_def)

text \<open>The Deployment depends on the configuration only through its listeners and not at all on the
  accounts: adding, changing or revoking accounts, filters, quotas or the upstream restarts no pod.\<close>

theorem accounts_do_not_restart:
  assumes "cfg_Listeners cfg = cfg_Listeners cfg'"
  shows "render_Deployment sha gw cfg accounts img = render_Deployment sha gw cfg' accounts' img"
proof -
  note names = DKIMSecretNames_accounts [of "Some gw" accounts accounts']
  note ls = ListenerStatuses_listeners [OF assms]
  have "RestartHash sha gw cfg accounts = RestartHash sha gw cfg' accounts'"
    unfolding RestartHash_def restart_text_def names assms ..
  moreover have "pod_mounts gw accounts = pod_mounts gw accounts'" "pod_volumes gw accounts = pod_volumes gw accounts'"
    unfolding pod_mounts_def pod_volumes_def names by (rule refl)+
  moreover have "pod_ports cfg = pod_ports cfg'" unfolding pod_ports_def ls ..
  ultimately show ?thesis unfolding render_Deployment_def ls by (simp only:)
qed

lemma renderListeners_nonempty: "renderListeners spec \<noteq> []"
  by (simp add: renderListeners_def)

lemma Deployment_no_panic:
  assumes "GatewayConfig srt inp = Inr cfg"
  shows "render_Deployment sha gw cfg accounts img \<noteq> None"
proof -
  have "cfg_Listeners cfg \<noteq> []"
    using assms renderListeners_nonempty by (auto simp: GatewayConfig_def Let_def split: option.splits)
  then show ?thesis by (cases "cfg_Listeners cfg") (auto simp: render_Deployment_def ListenerStatuses_def Let_def)
qed


section \<open>The network policy\<close>

text \<open>What a NetworkPolicy lets in: a rule without ports is about every port, a rule without peers about
  every peer.\<close>

definition ingress_allows :: "'sel NetworkPolicy \<Rightarrow> 'sel NetworkPeer \<Rightarrow> int \<Rightarrow> bool" where
  "ingress_allows policy peer port \<longleftrightarrow>
     (\<exists>r \<in> set (pol_Ingress policy).
        (ing_Ports r = [] \<or> port \<in> npp_Port ` set (ing_Ports r)) \<and>
        (ing_From r = [] \<or> peer \<in> set (ing_From r)))"

lemma SplitHostPort_port: "SplitHostPort (COLON # show_nat n) = Inr ([], show_nat n)"
proof -
  have "takeWhile (\<lambda>x. x \<noteq> COLON) (rev (show_nat n) @ [COLON]) = rev (show_nat n)"
    using colon_notin_show_nat [of n] by (simp add: takeWhile_neq_append)
  then have "last_index COLON (COLON # show_nat n) = Some 0" by (simp add: last_index_def)
  moreover have "CHR ''['' \<notin> set (show_nat n)" "CHR '']'' \<notin> set (show_nat n)"
    by (rule not_digit_notin_show_nat, simp add: is_digit_def)+
  ultimately show ?thesis by (simp add: SplitHostPort_def)
qed

lemma listenerPortOf_port:
  assumes "0 < p" "p \<le> 65535" "lis_Addr l = '':'' @ show_int p"
  shows "listenerPortOf l = p"
proof -
  have "lis_Addr l = COLON # show_nat (nat p)" using assms by (simp add: show_int_def)
  then show ?thesis
    using SplitHostPort_port [of "nat p"] Atoi_show_nat [of "nat p"] assms(1,2) int32_small [of p]
    by (simp add: listenerPortOf_def)
qed

lemma listenerPortOf_rendered:
  assumes "listeners_ok spec"
  shows "map listenerPortOf (renderListeners spec) = map (\<lambda>(_, p, _). p) (rendered_ports spec)"
  using assms spec_port_range [of "lss_Submission spec" 587] spec_port_range [of "lss_SMTPS spec" 465]
    listenerPortOf_port
  by (simp add: renderListeners_def rendered_ports_def listeners_ok_def DefaultSubmissionPort_def
      DefaultSMTPSPort_def)

lemma ingress_allows_iff:
  assumes "MetricsNetworkPolicy gw cfg = Some policy" "cfg_Listeners cfg \<noteq> []"
  shows "ingress_allows policy peer port \<longleftrightarrow>
           port \<in> listenerPortOf ` set (cfg_Listeners cfg) \<or>
           (port = MetricsPort \<and> peer \<in> set (ms_AllowedScrapers (gs_Metrics (gw_Spec gw))))"
proof -
  have copy: "map (\<lambda>s. \<lparr>np_NamespaceSelector = np_NamespaceSelector s, np_PodSelector = np_PodSelector s\<rparr>) xs = xs"
    for xs :: "'a NetworkPeer list" by (simp add: map_idI)
  show ?thesis
    using assms
    by (auto simp: MetricsNetworkPolicy_def Let_def copy ingress_allows_def image_image split: if_splits)
qed



section \<open>Where an account is sent\<close>

lemma ListenerStatuses_eq:
  assumes "GatewayConfig srt inp = Inr cfg" "in_Gateway inp = Some gw"
    and "listeners_ok (gs_Listeners (gw_Spec gw))"
  shows "ListenerStatuses cfg =
         map (\<lambda>(n, p, m). \<lparr>lst_Name = n, lst_Port = p, lst_Mode = m\<rparr>) (rendered_ports (gs_Listeners (gw_Spec gw)))"
  unfolding ListenerStatuses_rendered [OF assms, symmetric] by (simp add: o_def map_idI)

text \<open>The endpoint written into an account's Secret is a listener of the gateway, with its mode: the
  submission listener when there is one and the implicit TLS one otherwise; and the Service
  forwards that port.\<close>

theorem GatewayEndpoint_exact:
  assumes cfg: "GatewayConfig srt inp = Inr cfg" "in_Gateway inp = Some gw"
    and ports: "listeners_ok (gs_Listeners (gw_Spec gw))"
  shows "(if lss_Submission (gs_Listeners (gw_Spec gw)) \<noteq> None \<or> lss_SMTPS (gs_Listeners (gw_Spec gw)) = None
          then ep_Port (GatewayEndpoint gw cfg) = spec_port (lss_Submission (gs_Listeners (gw_Spec gw))) 587 \<and>
               ep_TLS (GatewayEndpoint gw cfg) = TLSModeSTARTTLS
          else ep_Port (GatewayEndpoint gw cfg) = spec_port (lss_SMTPS (gs_Listeners (gw_Spec gw))) 465 \<and>
               ep_TLS (GatewayEndpoint gw cfg) = TLSModeImplicit) \<and>
         (\<exists>p \<in> set (svc_Ports (render_Service gw cfg)).
            svp_Port p = ep_Port (GatewayEndpoint gw cfg) \<and> svp_TargetPort p = FromInt32 (svp_Port p))"
proof -
  let ?spec = "gs_Listeners (gw_Spec gw)"
  have "spec_port (lss_SMTPS ?spec) 465 \<noteq> 0" "spec_port (lss_Submission ?spec) 587 \<noteq> 0"
    using spec_port_range [of "lss_SMTPS ?spec" 465] spec_port_range [of "lss_Submission ?spec" 587] ports
    by (simp_all add: listeners_ok_def)
  then show ?thesis
    unfolding GatewayEndpoint_def render_Service_def ListenerStatuses_eq [OF cfg ports]
    by (simp add: rendered_ports_def prefer_listener_def)
qed


section \<open>Samples\<close>

definition sample_gw_config :: Config where
  "sample_gw_config = sample_rendering [''a.app'', ''b.app'']"

lemma sample_rendered:
  "GatewayConfig (sort_key ra_Username) (sample_input [''a.app'', ''b.app'']) = Inr sample_gw_config"
  "in_Gateway (sample_input [''a.app'', ''b.app'']) = Some sample_gateway"
  by (simp_all add: sample_gw_config_def sample_rendering_def sample_input_def GatewayConfig_def Let_def)

lemma sample_listeners_ok: "listeners_ok (gs_Listeners (gw_Spec sample_gateway))"
  by (simp add: listeners_ok_def port_ok_def sample_gateway_def sample_spec_def)


theorem accounts_do_not_restart_witness:
  "render_Deployment (\<lambda>b. b) sample_gateway (sample_rendering [''a'']) [sample_resolved ''a''] ''mailout:1'' =
   render_Deployment (\<lambda>b. b) sample_gateway (sample_rendering []) [] ''mailout:1''"
  by (rule accounts_do_not_restart) code_simp


theorem GatewayEndpoint_exact_witness:
  "ep_Port (GatewayEndpoint sample_gateway sample_gw_config) = 587"
  using GatewayEndpoint_exact [OF sample_rendered sample_listeners_ok]
  by (simp add: sample_gateway_def sample_spec_def spec_port_def)

end
