(* ===== verification/Admission.thy ===== *)
theory Admission
  imports Access Objects
begin

text \<open>
  \<^verbatim>\<open>internal/webhook/v1alpha1\<close>: what the admission webhooks accept. A refusal is a list of field errors,
  one constructor per message the source can produce with what it prints; the field it is attached
  to is part of the constructor's meaning. The gateway webhook is a function of the object alone, the
  account webhook reads the cluster.
\<close>


section \<open>Problems\<close>

datatype sender_problem = NotAnAddress | MissingLocalPart | MissingDomain | PartialWildcard | WildcardDomain

text \<open>Where a list of senders stands: in an account, or in a grant of a gateway.\<close>

datatype sender_field = AccountSenders | GrantSenders nat

datatype field_error =
    SenderDuplicate sender_field nat string
  | SenderInvalid sender_field nat string sender_problem
  \<comment> \<open>gateways\<close>
  | OutsideOperatorNamespace string
  | RefsAndIssuer
  | NeitherRefsNorIssuer
  | CertManagerMissing string
  | DNSNamesRequired
  | DefaultCertificateUnknown string
  | CertificateDuplicate nat string
  | SharedListenerPort int
  | MetricsPortTaken string int
  | MilterDuplicate nat string
  | MilterAddressInvalid nat string address_error
  | StoreAddressesMissing
  | StoreAddressShape nat string
  | StoreAddressPort nat string
  | SentinelAuthWithoutMaster string
  | DKIMDomainDuplicate nat string
  | DKIMSecretRequired nat
  | DKIMFromNotSigned nat "string list"
  | GrantSelectorInvalid nat go_error
  | AccountSelectorRequired
  \<comment> \<open>accounts\<close>
  | NoSuchGateway string string
  | OnlyOwnNamespace string string
  | UsernameTaken string
  | UsernameOutsideNamespace string string
  | UsernameUnusable string
  | DefaultUsernameUnusable string
  | NotGranted string
  | NothingGranted string
  | GrantUnresolved go_error
  | SecretNotManaged string

datatype warning =
    NoSenderGranted | UpstreamInClear | UpstreamUnverified | KeysUnused | NothingCounted | FailsClosed
  | StoreUnverified | TakenForCluster | FilterFailsOpen nat string | AnyHeaderFrom


section \<open>Lists of senders\<close>

definition sender_shape :: "string \<Rightarrow> sender_problem option" where
  "sender_shape normalized =
     (case cut AT normalized of
        (local, domain, found) \<Rightarrow>
          if \<not> found then Some NotAnAddress
          else if local = [] then Some MissingLocalPart
          else if domain = [] then Some MissingDomain
          else if CHR ''*'' \<in> set local \<and> local \<noteq> ''*'' then Some PartialWildcard
          else if CHR ''*'' \<in> set domain then Some WildcardDomain
          else None)"

fun senders_loop :: "unicode \<Rightarrow> sender_field \<Rightarrow> nat \<Rightarrow> string set \<Rightarrow> string list \<Rightarrow> field_error list" where
  "senders_loop U path i seen [] = []"
| "senders_loop U path i seen (entry # rest) =
     (let normalized = to_lower U (trim_space entry) in
      (if normalized \<in> seen then [SenderDuplicate path i entry] else []) @
      (case sender_shape normalized of None \<Rightarrow> [] | Some p \<Rightarrow> [SenderInvalid path i entry p]) @
      senders_loop U path (Suc i) (insert normalized seen) rest)"

definition validateAllowedSenders :: "unicode \<Rightarrow> string list \<Rightarrow> sender_field \<Rightarrow> field_error list" where
  "validateAllowedSenders U senders path = senders_loop U path 0 {} senders"


section \<open>Gateways\<close>

fun duplicate_refs :: "nat \<Rightarrow> string set \<Rightarrow> LocalObjectReference list \<Rightarrow> field_error list" where
  "duplicate_refs i seen [] = []"
| "duplicate_refs i seen (ref # refs) =
     (if ref_Name ref \<in> seen then [CertificateDuplicate i (ref_Name ref)] else []) @
     duplicate_refs (Suc i) (insert (ref_Name ref) seen) refs"

definition validateTLS :: "bool \<Rightarrow> ('sel, 'x) MailoutGateway \<Rightarrow> field_error list" where
  "validateTLS certManagerAvailable gw =
     (let tls = gs_TLS (gw_Spec gw) in
      (if gts_CertificateRefs tls \<noteq> [] \<and> gts_IssuerRef tls \<noteq> None then [RefsAndIssuer]
       else if gts_CertificateRefs tls = [] \<and> gts_IssuerRef tls = None then [NeitherRefsNorIssuer]
       else []) @
      (case gts_IssuerRef tls of
         None \<Rightarrow> []
       | Some issuer \<Rightarrow>
           (if \<not> certManagerAvailable then [CertManagerMissing (iss_Name issuer)] else []) @
           (if gts_DNSNames tls = [] \<and> gs_Hostname (gw_Spec gw) = [] then [DNSNamesRequired] else [])) @
      (if gts_DefaultCertificate tls \<noteq> [] \<and>
          \<not> list_ex (\<lambda>ref. ref_Name ref = gts_DefaultCertificate tls) (gts_CertificateRefs tls)
       then [DefaultCertificateUnknown (gts_DefaultCertificate tls)] else []) @
      duplicate_refs 0 {} (gts_CertificateRefs tls))"

definition listenerPort :: "ListenerSpec \<Rightarrow> int \<Rightarrow> int" where
  "listenerPort spec def_port = (if lsp_Port spec = 0 then def_port else lsp_Port spec)"

definition metrics_port_taken :: "string \<Rightarrow> ListenerSpec option \<Rightarrow> int \<Rightarrow> field_error list" where
  "metrics_port_taken name spec def_port =
     (case spec of
        None \<Rightarrow> []
      | Some l \<Rightarrow>
          if listenerPort l def_port = MetricsPort
          then [MetricsPortTaken name (listenerPort l def_port)] else [])"

definition validateListeners :: "('sel, 'x) MailoutGateway \<Rightarrow> field_error list" where
  "validateListeners gw =
     (let submission = lss_Submission (gs_Listeners (gw_Spec gw));
          smtps = lss_SMTPS (gs_Listeners (gw_Spec gw))
      in
      (case (submission, smtps) of
         (Some s, Some t) \<Rightarrow>
           if listenerPort s 587 = listenerPort t 465 then [SharedListenerPort (listenerPort t 465)] else []
       | _ \<Rightarrow> []) @
      metrics_port_taken ''submission'' submission 587 @
      metrics_port_taken ''smtps'' smtps 465)"

definition bare_milter :: "string \<Rightarrow> Milter" where
  "bare_milter address =
     \<lparr>mil_Name = [], mil_Address = address, mil_FailOpen = False, mil_Timeout = 0\<rparr>"

fun milters_loop :: "nat \<Rightarrow> string set \<Rightarrow> MilterSpec list \<Rightarrow> field_error list" where
  "milters_loop i seen [] = []"
| "milters_loop i seen (m # ms) =
     (if mls_Name m \<in> seen then [MilterDuplicate i (mls_Name m)] else []) @
     (case ParseAddress (bare_milter (mls_Address m)) of
        Inl err \<Rightarrow> [MilterAddressInvalid i (mls_Address m) err]
      | Inr _ \<Rightarrow> []) @
     milters_loop (Suc i) (insert (mls_Name m) seen) ms"

definition validateMilters :: "MilterSpec list \<Rightarrow> field_error list" where
  "validateMilters milters = milters_loop 0 {} milters"

definition store_address :: "nat \<Rightarrow> string \<Rightarrow> field_error list" where
  "store_address i addr =
     (case SplitHostPort addr of
        Inl _ \<Rightarrow> [StoreAddressShape i addr]
      | Inr (host, port) \<Rightarrow>
          if host = [] \<or> port = [] then [StoreAddressShape i addr]
          else if Atoi port = None then [StoreAddressPort i addr] else [])"

definition validateRateLimit :: "RateLimitSpec option \<Rightarrow> field_error list" where
  "validateRateLimit spec =
     (case spec of
        None \<Rightarrow> []
      | Some rl \<Rightarrow>
          let store = rsp_Store rl in
          (if rss_Addresses store = [] then [StoreAddressesMissing] else []) @
          concat (map (\<lambda>(i, addr). store_address i addr) (enumerate 0 (rss_Addresses store))) @
          (case rss_SentinelAuthSecretRef store of
             None \<Rightarrow> []
           | Some ref \<Rightarrow>
               if rss_MasterName store = [] then [SentinelAuthWithoutMaster (ref_Name ref)] else []))"

definition containsFold :: "unicode \<Rightarrow> string list \<Rightarrow> string \<Rightarrow> bool" where
  "containsFold U values want = list_ex (\<lambda>v. equal_fold U v want) values"

fun dkim_loop :: "unicode \<Rightarrow> nat \<Rightarrow> string set \<Rightarrow> DKIMKeySpec list \<Rightarrow> field_error list" where
  "dkim_loop U i seen [] = []"
| "dkim_loop U i seen (k # ks) =
     (let domain = to_lower U (dks_Domain k) in
      (if domain \<in> seen then [DKIMDomainDuplicate i (dks_Domain k)] else []) @
      (if sks_Name (dks_PrivateKeySecretRef k) = [] then [DKIMSecretRequired i] else []) @
      (if dks_HeaderKeys k \<noteq> [] \<and> \<not> containsFold U (dks_HeaderKeys k) ''From''
       then [DKIMFromNotSigned i (dks_HeaderKeys k)] else []) @
      dkim_loop U (Suc i) (insert domain seen) ks)"

definition validateDKIM :: "unicode \<Rightarrow> DKIMKeySpec list \<Rightarrow> field_error list" where
  "validateDKIM U keys = dkim_loop U 0 {} keys"

definition validate_grant ::
  "'sel selectors \<Rightarrow> unicode \<Rightarrow> nat \<Rightarrow> 'sel SenderGrantSpec \<Rightarrow> field_error list" where
  "validate_grant S U i grant =
     validateAllowedSenders U (sgs_Senders grant) (GrantSenders i) @
     (case sgs_NamespaceSelector grant of
        None \<Rightarrow> []
      | Some sel \<Rightarrow> (case S sel of Inl err \<Rightarrow> [GrantSelectorInvalid i err] | Inr _ \<Rightarrow> []))"

definition validateSenderGrants ::
  "'sel selectors \<Rightarrow> unicode \<Rightarrow> 'sel SenderGrantSpec list \<Rightarrow> field_error list" where
  "validateSenderGrants S U grants =
     concat (map (\<lambda>(i, grant). validate_grant S U i grant) (enumerate 0 grants))"

definition rate_limit_warnings :: "RateLimitSpec option \<Rightarrow> warning list" where
  "rate_limit_warnings spec =
     (case spec of
        None \<Rightarrow> []
      | Some rl \<Rightarrow>
          (if rsp_MessagesPerMinute rl = None \<and> rsp_RecipientsPerMinute rl = None
           then [NothingCounted] else [FailsClosed]) @
          (case rss_TLS (rsp_Store rl) of
             None \<Rightarrow> [] | Some t \<Rightarrow> if rst_InsecureSkipVerify t then [StoreUnverified] else []) @
          (if rss_MasterName (rsp_Store rl) = [] \<and> length (rss_Addresses (rsp_Store rl)) > 1
           then [TakenForCluster] else []))"

definition gateway_validate ::
  "'sel selectors \<Rightarrow> unicode \<Rightarrow> string \<Rightarrow> bool \<Rightarrow> ('sel, 'x) MailoutGateway \<Rightarrow> warning list \<times> field_error list" where
  "gateway_validate S U operatorNamespace certManagerAvailable gw =
     (let spec = gw_Spec gw;
          errs =
            (if gw_Namespace gw \<noteq> operatorNamespace then [OutsideOperatorNamespace operatorNamespace] else []) @
            validateTLS certManagerAvailable gw @
            validateMilters (gs_Milters spec) @
            validateSenderGrants S U (gs_AllowedSenders spec) @
            validateDKIM U (gs_DKIM spec) @
            validateListeners gw @
            validateRateLimit (gs_RateLimit spec) @
            (if aas_Namespaces (gs_AllowedAccounts spec) = NamespacesFromSelector \<and>
                aas_Selector (gs_AllowedAccounts spec) = None then [AccountSelectorRequired] else []);
          warnings =
            (if gs_AllowedSenders spec = [] then [NoSenderGranted] else []) @
            (if usp_TLS (gs_Upstream spec) = SpecTLSNone then [UpstreamInClear] else []) @
            (if usp_InsecureSkipVerify (gs_Upstream spec) then [UpstreamUnverified] else []) @
            (if usp_HandlesDKIM (gs_Upstream spec) \<and> gs_DKIM spec \<noteq> [] then [KeysUnused] else []) @
            rate_limit_warnings (gs_RateLimit spec) @
            concat (map (\<lambda>(i, m). if mls_FailOpen m then [FilterFailsOpen i (mls_Name m)] else [])
                        (enumerate 0 (gs_Milters spec)))
      in (warnings, errs))"


section \<open>Accounts\<close>

definition on_gateway :: "string \<Rightarrow> ('sel, 'x) MailoutGateway \<Rightarrow> MailoutAccount \<Rightarrow> bool" where
  "on_gateway operatorNamespace gw account \<longleftrightarrow>
     GatewayNamespaceFor account operatorNamespace = gw_Namespace gw \<and>
     gr_Name (as_GatewayRef (ma_Spec account)) = gw_Name gw"

definition same_object :: "MailoutAccount \<Rightarrow> MailoutAccount \<Rightarrow> bool" where
  "same_object a b \<longleftrightarrow> ma_Namespace a = ma_Namespace b \<and> ma_Name a = ma_Name b"

definition validateAgainstGateway ::
  "('w, 'sel, 'x) reader \<Rightarrow> string \<Rightarrow> MailoutAccount \<Rightarrow> ('sel, 'x) MailoutGateway \<Rightarrow> 'w \<Rightarrow>
   'w \<times> field_error list" where
  "validateAgainstGateway c operatorNamespace account gw w =
     (let errs =
            (if aas_Namespaces (gs_AllowedAccounts (gw_Spec gw)) = NamespacesFromSame \<and>
                ma_Namespace account \<noteq> gw_Namespace gw
             then [OnlyOwnNamespace (gw_Namespace gw) (gw_Name gw)] else []);
          username = UsernameFor account
      in
      case rd_Accounts c w of
        (w, Inl _) \<Rightarrow> (w, errs)
      | (w, Inr accounts) \<Rightarrow>
          (w, errs @
              (if list_ex (\<lambda>other. \<not> same_object other account \<and> on_gateway operatorNamespace gw other \<and>
                                   UsernameFor other = username) accounts
               then [UsernameTaken username] else [])))"

definition validateAgainstGrant ::
  "'sel selectors \<Rightarrow> unicode \<Rightarrow> ('w, 'sel, 'x) reader \<Rightarrow> string \<Rightarrow> MailoutAccount \<Rightarrow> 'w \<Rightarrow>
   'w \<times> field_error list" where
  "validateAgainstGrant S U c operatorNamespace account w =
     (if as_AllowedSenders (ma_Spec account) = [] then (w, [])
      else case rd_Gateway c w (GatewayNamespaceFor account operatorNamespace)
                  (gr_Name (as_GatewayRef (ma_Spec account))) of
             (w, NotFound _) \<Rightarrow> (w, [])
           | (w, Failed _) \<Rightarrow> (w, [])
           | (w, Found gw) \<Rightarrow>
               (case GrantedSendersFor S c gw (ma_Namespace account) w of
                  (w, Inl err) \<Rightarrow> (w, [GrantUnresolved err])
                | (w, Inr granted) \<Rightarrow>
                    (w, map (\<lambda>entry. if granted = [] then NothingGranted entry else NotGranted entry)
                          (snd (GrantedSubset U granted (as_AllowedSenders (ma_Spec account)))))))"

definition validateSecretRef ::
  "('w, 'sel, 'x) reader \<Rightarrow> MailoutAccount \<Rightarrow> 'w \<Rightarrow> 'w \<times> field_error list" where
  "validateSecretRef c account w =
     (case rd_Secret c w (ma_Namespace account) (ref_Name (as_SecretRef (ma_Spec account))) of
        (w, NotFound _) \<Rightarrow> (w, [])
      | (w, Failed _) \<Rightarrow> (w, [])
      | (w, Found secret) \<Rightarrow>
          (w, if list_ex (\<lambda>owner. own_Kind owner = ''MailoutAccount'' \<and> own_Name owner = ma_Name account)
                 (om_OwnerReferences (sec_Meta secret)) \<or>
                 om_Labels (sec_Meta secret) ''app.kubernetes.io/managed-by'' = Some ''mailout-operator''
              then [] else [SecretNotManaged (ref_Name (as_SecretRef (ma_Spec account)))]))"

definition username_errors :: "MailoutAccount \<Rightarrow> field_error list" where
  "username_errors account =
     (let explicit = as_Username (ma_Spec account); prefx = ma_Namespace account @ ''.''
      in if explicit \<noteq> [] \<and> \<not> prefix prefx explicit then [UsernameOutsideNamespace explicit prefx] else []) @
     (let username = UsernameFor account
      in if ValidUsername username then []
         else if as_Username (ma_Spec account) = [] then [DefaultUsernameUnusable username]
         else [UsernameUnusable username])"

datatype admission_error = LookUpFailed string string go_error | InvalidObject "field_error list"

definition account_validate ::
  "'sel selectors \<Rightarrow> unicode \<Rightarrow> ('w, 'sel, 'x) reader \<Rightarrow> string \<Rightarrow> MailoutAccount \<Rightarrow> 'w \<Rightarrow>
   'w \<times> warning list \<times> admission_error option" where
  "account_validate S U c operatorNamespace account w =
     (let warnings = (if as_EnforceHeaderFrom (ma_Spec account) = Some False then [AnyHeaderFrom] else []);
          ns = GatewayNamespaceFor account operatorNamespace;
          name = gr_Name (as_GatewayRef (ma_Spec account));
          (w, found) =
            (case rd_Gateway c w ns name of
               (w, NotFound _) \<Rightarrow> (w, Inr [NoSuchGateway ns name])
             | (w, Failed err) \<Rightarrow> (w, Inl err)
             | (w, Found gw) \<Rightarrow>
                 (case validateAgainstGateway c operatorNamespace account gw w of (w, errs) \<Rightarrow> (w, Inr errs)))
      in
      case found of
        Inl err \<Rightarrow> (w, [], Some (LookUpFailed ns name err))
      | Inr errs1 \<Rightarrow>
          (let errs2 = username_errors account @
                 validateAllowedSenders U (as_AllowedSenders (ma_Spec account)) AccountSenders;
               (w, errs3) = validateAgainstGrant S U c operatorNamespace account w;
               (w, errs4) = validateSecretRef c account w;
               errs = errs1 @ errs2 @ errs3 @ errs4
           in (w, warnings, if errs \<noteq> [] then Some (InvalidObject errs) else None)))"


section \<open>What an accepted list of senders means\<close>

lemma senders_loop_Nil:
  "senders_loop U path i seen es = [] \<longleftrightarrow>
     (\<forall>e \<in> set es. sender_shape (norm_entry U e) = None) \<and> distinct (map (norm_entry U) es) \<and>
     norm_entry U ` set es \<inter> seen = {}"
  by (induction es arbitrary: i seen) (auto simp: Let_def split: option.splits)

lemma sender_shape_None:
  assumes "sender_shape (norm_entry U e) = None"
  shows "(\<exists>d. domain_entry U e d \<and> CHR ''*'' \<notin> set d) \<or>
         (\<exists>l d. address_entry U e (norm_entry U e) \<and> norm_entry U e = l @ AT # d \<and> l \<noteq> [] \<and> d \<noteq> [] \<and>
                CHR ''*'' \<notin> set l \<union> set d)"
proof (cases rule: cut_cases [of "norm_entry U e" AT])
  case (found l d)
  then have s: "l \<noteq> []" "d \<noteq> []" "CHR ''*'' \<in> set l \<longrightarrow> l = ''*''" "CHR ''*'' \<notin> set d"
    using assms by (auto simp: sender_shape_def split: if_splits)
  show ?thesis
  proof (cases "l = ''*''")
    case True
    have "domain_entry U e d" unfolding domain_entry_def using found(1) s(2) True by simp
    with s(4) show ?thesis by blast
  next
    case False
    then have "address_entry U e (norm_entry U e)"
      unfolding address_entry_def using found(1,2) s(1,2) by blast
    with found(1) s False show ?thesis by blast
  qed
next
  case missing
  then show ?thesis using assms by (simp add: sender_shape_def)
qed


section \<open>What an accepted gateway means\<close>

lemma duplicate_refs_Nil:
  "duplicate_refs i seen refs = [] \<longleftrightarrow> distinct (map ref_Name refs) \<and> ref_Name ` set refs \<inter> seen = {}"
  by (induction refs arbitrary: i seen) auto

lemma milters_loop_Nil:
  "milters_loop i seen ms = [] \<longleftrightarrow>
     (\<forall>m \<in> set ms. \<not> isl (ParseAddress (bare_milter (mls_Address m)))) \<and>
     distinct (map mls_Name ms) \<and> mls_Name ` set ms \<inter> seen = {}"
  by (induction ms arbitrary: i seen) (auto split: sum.splits)

lemma dkim_loop_Nil:
  "dkim_loop U i seen ks = [] \<longleftrightarrow>
     (\<forall>k \<in> set ks. sks_Name (dks_PrivateKeySecretRef k) \<noteq> [] \<and>
        (dks_HeaderKeys k = [] \<or> containsFold U (dks_HeaderKeys k) ''From'')) \<and>
     distinct (map (\<lambda>k. to_lower U (dks_Domain k)) ks) \<and>
     (\<lambda>k. to_lower U (dks_Domain k)) ` set ks \<inter> seen = {}"
  by (induction ks arbitrary: i seen) (auto simp: Let_def)

lemma listenerPort_spec_port: "listenerPort l d = spec_port (Some l) d"
  by (simp add: listenerPort_def spec_port_def)

lemma validateListeners_Nil:
  "validateListeners gw = [] \<Longrightarrow>
     distinct (map (\<lambda>(_, p, _). p) (rendered_ports (gs_Listeners (gw_Spec gw)))) \<and>
     MetricsPort \<notin> (\<lambda>(_, p, _). p) ` set (rendered_ports (gs_Listeners (gw_Spec gw)))"
  by (cases "lss_Submission (gs_Listeners (gw_Spec gw))"; cases "lss_SMTPS (gs_Listeners (gw_Spec gw))")
     (auto simp: validateListeners_def metrics_port_taken_def listenerPort_spec_port rendered_ports_def
        Let_def spec_port_def MetricsPort_def split: if_splits)

lemma gateway_validate_Nil:
  assumes "gateway_validate S U ns cm gw = (ws, [])"
  shows "gw_Namespace gw = ns" "validateTLS cm gw = []" "validateMilters (gs_Milters (gw_Spec gw)) = []"
    "validateSenderGrants S U (gs_AllowedSenders (gw_Spec gw)) = []" "validateDKIM U (gs_DKIM (gw_Spec gw)) = []"
    "validateListeners gw = []" "validateRateLimit (gs_RateLimit (gw_Spec gw)) = []"
  using assms by (simp_all add: gateway_validate_def Let_def split: if_splits)

lemma ref_named: "list_ex (\<lambda>ref. ref_Name ref = d) refs \<longleftrightarrow> d \<in> ref_Name ` set refs"
  by (induction refs) auto

lemma validateTLS_Nil:
  assumes "validateTLS cm gw = []"
  shows "CertificateSecretNames gw \<noteq> []" "distinct (CertificateSecretNames gw)"
    "gts_DefaultCertificate (gs_TLS (gw_Spec gw)) = [] \<or>
     gts_DefaultCertificate (gs_TLS (gw_Spec gw)) \<in> set (CertificateSecretNames gw)"
  using assms
  by (auto simp: validateTLS_def CertificateSecretNames_def Let_def duplicate_refs_Nil ref_named
      split: if_splits option.splits)

text \<open>What the resource's schema already guarantees: the host, the DKIM domains and selectors are not
  empty, and a port is a port.\<close>

definition schema_ok :: "('sel, 'x) MailoutGateway \<Rightarrow> bool" where
  "schema_ok gw \<longleftrightarrow>
     usp_Host (gs_Upstream (gw_Spec gw)) \<noteq> [] \<and> listeners_ok (gs_Listeners (gw_Spec gw)) \<and>
     list_all (\<lambda>k. dks_Domain k \<noteq> [] \<and> dks_Selector k \<noteq> []) (gs_DKIM (gw_Spec gw))"

lemma path_Join_nonempty: "a \<noteq> [] \<Longrightarrow> path_Join [a, b] \<noteq> []"
  by (auto simp: path_Join_def path_Clean_def Let_def)

lemma mount_path_nonempty: "CertificateMountPath n \<noteq> []"
  unfolding CertificateMountPath_def by (rule path_Join_nonempty) (simp add: TLSDir_def)

lemma rendered_listeners_valid:
  assumes "listeners_ok spec" "distinct (map (\<lambda>(_, p, _). p) (rendered_ports spec))"
  shows "validate_listeners 0 {} (renderListeners spec) = []"
proof -
  have "lis_Addr ` set (renderListeners spec) = (\<lambda>(_, p, _). '':'' @ show_int p) ` set (rendered_ports spec)"
    by (auto simp: renderListeners_def rendered_ports_def DefaultSubmissionPort_def DefaultSMTPSPort_def)
  have "map lis_Addr (renderListeners spec) = map (\<lambda>p. '':'' @ show_int p) (map (\<lambda>(_, p, _). p) (rendered_ports spec))"
    by (simp add: renderListeners_def rendered_ports_def DefaultSubmissionPort_def DefaultSMTPSPort_def)
  then have "distinct (map lis_Addr (renderListeners spec))"
    using assms(2) by (auto simp: distinct_map inj_on_def)
  moreover have "\<forall>l \<in> set (renderListeners spec). lis_Addr l \<noteq> [] \<and> lis_Mode l \<in> {TLSModeSTARTTLS, TLSModeImplicit}"
    by (auto simp: renderListeners_def)
  ultimately show ?thesis by (simp add: validate_listeners_Nil fixed_ports_def)
qed

lemma rendered_certificates_valid:
  "CertificateSecretNames gw \<noteq> [] \<Longrightarrow> validate_certificates (tls_Certificates (renderTLS gw)) = []"
  using path_Join_nonempty [OF mount_path_nonempty]
  by (auto simp: validate_certificates_Nil renderTLS_def Let_def complete_cert_def)

lemma rendered_rateLimit_valid:
  "validateRateLimit spec = [] \<Longrightarrow> validate_rateLimit (renderRateLimit spec creds) = []"
  by (auto simp: validate_rateLimit_Nil validateRateLimit_def renderRateLimit_def Let_def split: option.splits if_splits)

lemma rendered_milters_valid:
  "validateMilters ms = [] \<Longrightarrow> validate_milters (renderMilters ms) = []"
  by (auto simp: validate_milters_Nil validateMilters_def milters_loop_Nil renderMilters_def ParseAddress_ok bare_milter_def)

lemma admitted_gateway_valid:
  assumes adm: "gateway_validate S U ns cm gw = (ws, [])" and schema: "schema_ok gw"
    and cfg: "GatewayConfig srt inp = Inr cfg" "in_Gateway inp = Some gw"
  shows "Validate cfg = []"
proof -
  note a = gateway_validate_Nil [OF adm]
  have c: "cfg_Listeners cfg = renderListeners (gs_Listeners (gw_Spec gw))" "cfg_TLS cfg = renderTLS gw"
    "cfg_Upstream cfg = renderUpstream (gs_Upstream (gw_Spec gw)) inp"
    "cfg_Milters cfg = renderMilters (gs_Milters (gw_Spec gw))"
    "cfg_RateLimit cfg = renderRateLimit (gs_RateLimit (gw_Spec gw)) (in_RateLimitStore inp)"
    using cfg by (auto simp: GatewayConfig_def Let_def)
  have "validate_upstream (cfg_Upstream cfg) = []"
    using schema c(3) by (simp add: validate_upstream_Nil schema_ok_def renderUpstream_def upstreamTLSMode_def)
  then show ?thesis
    using rendered_listeners_valid [of "gs_Listeners (gw_Spec gw)"] validateListeners_Nil [OF a(6)] schema
      rendered_certificates_valid [OF validateTLS_Nil(1) [OF a(2)]] rendered_rateLimit_valid [OF a(7)]
      rendered_milters_valid [OF a(3)] renderListeners_nonempty
    by (simp add: Validate_def c schema_ok_def)
qed

text \<open>Nothing in an accepted grant is silently dropped: every entry names either one address or one
  whole domain, without any other wildcard, and the policy compiled from the grant has it.\<close>

theorem admitted_grants_compile:
  assumes "gateway_validate S U ns cm gw = (ws, [])"
    and "grant \<in> set (gs_AllowedSenders (gw_Spec gw))" "e \<in> set (sgs_Senders grant)"
  shows "(\<exists>d. norm_entry U e = ''*@'' @ d \<and> d \<noteq> [] \<and> CHR ''*'' \<notin> set d \<and>
              d \<in> pol_domains (newSenderPolicy U (sgs_Senders grant))) \<or>
         (\<exists>l d. norm_entry U e = l @ AT # d \<and> l \<noteq> [] \<and> d \<noteq> [] \<and> CHR ''*'' \<notin> set l \<union> set d \<and>
                norm_entry U e \<in> pol_addresses (newSenderPolicy U (sgs_Senders grant)))"
proof -
  obtain i where "(i, grant) \<in> set (enumerate 0 (gs_AllowedSenders (gw_Spec gw)))"
    using enumerate_mem [OF assms(2)] by blast
  then have "validate_grant S U i grant = []"
    using gateway_validate_Nil(4) [OF assms(1)] by (force simp: validateSenderGrants_def)
  then have "sender_shape (norm_entry U e) = None"
    using assms(3) by (simp add: validate_grant_def validateAllowedSenders_def senders_loop_Nil)
  from sender_shape_None [OF this] show ?thesis
  proof
    assume "\<exists>d. domain_entry U e d \<and> CHR ''*'' \<notin> set d"
    then obtain d where d: "domain_entry U e d" "CHR ''*'' \<notin> set d" by blast
    then have "d \<in> pol_domains (newSenderPolicy U (sgs_Senders grant))"
      using assms(3) pol_domains_new by blast
    with d show ?thesis unfolding domain_entry_def by blast
  next
    assume *: "\<exists>l d. address_entry U e (norm_entry U e) \<and> norm_entry U e = l @ AT # d \<and> l \<noteq> [] \<and> d \<noteq> [] \<and>
      CHR ''*'' \<notin> set l \<union> set d"
    then have "norm_entry U e \<in> pol_addresses (newSenderPolicy U (sgs_Senders grant))"
      using assms(3) pol_addresses_new by blast
    with * show ?thesis by blast
  qed
qed


section \<open>What an accepted account means\<close>

lemma username_errors_Nil:
  "username_errors a = [] \<longleftrightarrow> own_username a \<and> ValidUsername (UsernameFor a)"
  by (auto simp: username_errors_def own_username_def UsernameFor_def Let_def prefix_def split: if_splits)

lemma account_validate_None:
  assumes "snd (snd (account_validate S U c ons a w)) = None"
  shows "username_errors a = []"
    and "validateAllowedSenders U (as_AllowedSenders (ma_Spec a)) AccountSenders = []"
  using assms
  by (auto simp: account_validate_def Let_def split: prod.splits sum.splits got.splits if_splits)

text \<open>C25: Tenants cannot take each other's names. Two accounts that the webhook accepted, whatever the
  cluster held when each was accepted, can have the same username only if they are in the same
  namespace; and the username of an accepted account is one the dataplane serves. A namespace's name
  is a DNS label and so has no dot.\<close>

theorem admitted_usernames_isolated:
  assumes "snd (snd (account_validate S U c ons a w)) = None"
    and "snd (snd (account_validate S' U c' ons b w')) = None"
    and "CHR ''.'' \<notin> set (ma_Namespace a)" "CHR ''.'' \<notin> set (ma_Namespace b)"
  shows "ValidUsername (UsernameFor a) \<and>
         (UsernameFor a = UsernameFor b \<longrightarrow> ma_Namespace a = ma_Namespace b)"
  using account_validate_None(1) [OF assms(1)] account_validate_None(1) [OF assms(2)]
    own_username_namespace [of a b] assms(3,4)
  by (auto simp: username_errors_Nil)

text \<open>A cluster that does not change while it is read.\<close>

definition steady :: "('w, 'sel, 'x) reader \<Rightarrow> bool" where
  "steady c \<longleftrightarrow>
     (\<forall>w n. fst (rd_Namespace c w n) = w) \<and> (\<forall>w ns n. fst (rd_Gateway c w ns n) = w) \<and>
     (\<forall>w. fst (rd_Accounts c w) = w) \<and> (\<forall>w ns n. fst (rd_Secret c w ns n) = w)"

lemma steadyD:
  assumes "steady c"
  shows "rd_Namespace c w n = (w, snd (rd_Namespace c w n))"
    and "rd_Gateway c w ns n = (w, snd (rd_Gateway c w ns n))"
    and "rd_Accounts c w = (w, snd (rd_Accounts c w))"
    and "rd_Secret c w ns n = (w, snd (rd_Secret c w ns n))"
  using assms by (simp_all add: steady_def prod_eq_iff)

lemma steady_namespaceLabels: "steady c \<Longrightarrow> fst (namespaceLabels c ns w) = w"
  using steadyD(1) [of c w ns] by (auto simp: namespaceLabels_def split: prod.splits got.splits)

lemma steady_granted_loop: "steady c \<Longrightarrow> fst (granted_loop S c ns i grants l acc w) = w"
  by (induction grants arbitrary: i l acc)
     (auto dest: steady_namespaceLabels [of c ns w] split: option.splits sum.splits prod.splits)

lemma steady_GrantedSendersFor: "steady c \<Longrightarrow> GrantedSendersFor S c gw ns w = (w, snd (GrantedSendersFor S c gw ns w))"
  using steady_granted_loop [of c S ns 0 "gs_AllowedSenders (gw_Spec gw)" None "[]" w]
  by (auto simp: GrantedSendersFor_def grantedSenders_def split: prod.splits sum.splits)

definition secret_free :: "('w, 'sel, 'x) reader \<Rightarrow> MailoutAccount \<Rightarrow> 'w \<Rightarrow> bool" where
  "secret_free c a w \<longleftrightarrow>
     (case snd (rd_Secret c w (ma_Namespace a) (ref_Name (as_SecretRef (ma_Spec a)))) of
        Found secret \<Rightarrow>
          (\<exists>owner \<in> set (om_OwnerReferences (sec_Meta secret)).
             own_Kind owner = ''MailoutAccount'' \<and> own_Name owner = ma_Name a) \<or>
          om_Labels (sec_Meta secret) ''app.kubernetes.io/managed-by'' = Some ''mailout-operator''
      | _ \<Rightarrow> True)"

definition username_free :: "('w, 'sel, 'x) reader \<Rightarrow> string \<Rightarrow> ('sel, 'x) MailoutGateway \<Rightarrow> MailoutAccount \<Rightarrow> 'w \<Rightarrow> bool" where
  "username_free c ons gw a w \<longleftrightarrow>
     (\<forall>accounts. snd (rd_Accounts c w) = Inr accounts \<longrightarrow>
        (\<forall>other \<in> set accounts. on_gateway ons gw other \<and> UsernameFor other = UsernameFor a \<longrightarrow>
           same_object other a))"

definition within_grant :: "'sel selectors \<Rightarrow> unicode \<Rightarrow> ('w, 'sel, 'x) reader \<Rightarrow> ('sel, 'x) MailoutGateway \<Rightarrow> MailoutAccount \<Rightarrow> 'w \<Rightarrow> bool" where
  "within_grant S U c gw a w \<longleftrightarrow>
     as_AllowedSenders (ma_Spec a) = [] \<or>
     (\<exists>granted. snd (GrantedSendersFor S c gw (ma_Namespace a) w) = Inr granted \<and>
        (\<forall>e \<in> set (as_AllowedSenders (ma_Spec a)). covers_entry U (newSenderPolicy U granted) e))"

lemma validateSecretRef_steady:
  assumes "steady c"
  shows "fst (validateSecretRef c a w) = w" "snd (validateSecretRef c a w) = [] \<longleftrightarrow> secret_free c a w"
  using steadyD(4) [OF assms, of w "ma_Namespace a" "ref_Name (as_SecretRef (ma_Spec a))"]
  by (auto simp: validateSecretRef_def secret_free_def list_ex_iff split: prod.splits got.splits)

lemma validateAgainstGateway_steady:
  assumes "steady c"
  shows "fst (validateAgainstGateway c ons a gw w) = w"
    and "snd (validateAgainstGateway c ons a gw w) = [] \<longleftrightarrow>
      (aas_Namespaces (gs_AllowedAccounts (gw_Spec gw)) = NamespacesFromSame \<longrightarrow> ma_Namespace a = gw_Namespace gw) \<and>
      username_free c ons gw a w"
  using steadyD(3) [OF assms, of w]
  by (auto simp: validateAgainstGateway_def username_free_def Let_def list_ex_iff split: prod.splits sum.splits)

lemma validateAgainstGrant_steady:
  assumes "steady c" "snd (rd_Gateway c w (GatewayNamespaceFor a ons) (gr_Name (as_GatewayRef (ma_Spec a)))) = Found gw"
  shows "fst (validateAgainstGrant S U c ons a w) = w"
    and "snd (validateAgainstGrant S U c ons a w) = [] \<longleftrightarrow> within_grant S U c gw a w"
proof -
  have gw: "rd_Gateway c w (GatewayNamespaceFor a ons) (gr_Name (as_GatewayRef (ma_Spec a))) = (w, Found gw)"
    using steadyD(2) [OF assms(1)] assms(2) by metis
  obtain r where r: "GrantedSendersFor S c gw (ma_Namespace a) w = (w, r)"
    using steady_GrantedSendersFor [OF assms(1)] by metis
  show "fst (validateAgainstGrant S U c ons a w) = w"
    using gw r by (auto simp: validateAgainstGrant_def split: sum.splits)
  show "snd (validateAgainstGrant S U c ons a w) = [] \<longleftrightarrow> within_grant S U c gw a w"
    using gw r
    by (cases r) (auto simp: validateAgainstGrant_def within_grant_def GrantedSubset_def Let_def covers_def filter_empty_conv)
qed



section \<open>Samples\<close>

lemma sample_gateway_admitted:
  "snd (gateway_validate sample_selectors ascii_unicode ''mail'' False sample_gateway) = []"
  by code_simp

lemma sample_gateway_schema: "schema_ok sample_gateway"
  using sample_listeners_ok by (simp add: schema_ok_def sample_gateway_def sample_spec_def)

lemma sample_gateway_validate:
  "gateway_validate sample_selectors ascii_unicode ''mail'' False sample_gateway =
     (fst (gateway_validate sample_selectors ascii_unicode ''mail'' False sample_gateway), [])"
  using sample_gateway_admitted by (simp add: prod_eq_iff)

lemma sample_reader_steady: "steady (sample_reader accounts)"
  by (simp add: steady_def sample_reader_def)

lemma sample_account_admitted:
  "snd (snd (account_validate sample_selectors ascii_unicode (sample_reader []) ''mail''
     (sample_mailbox ''a'' ''app'' [''x@a.example'']) ())) = None"
  by code_simp

theorem admitted_grants_compile_witness:
  "''a.example'' \<in> pol_domains (newSenderPolicy ascii_unicode [''*@a.example''])"
proof -
  have "norm_entry ascii_unicode ''*@a.example'' = ''*@'' @ ''a.example''" by code_simp
  moreover have "\<lparr>sgs_Senders = [''*@a.example''], sgs_NamespaceSelector = Some (''team'', ''a'')\<rparr>
      \<in> set (gs_AllowedSenders (gw_Spec sample_gateway))"
    by (simp add: sample_gateway_def sample_spec_def)
  ultimately show ?thesis
    using admitted_grants_compile [OF sample_gateway_validate, of _ "''*@a.example''"]
    by (fastforce simp: append_eq_Cons_conv)
qed

theorem admitted_usernames_isolated_witness:
  "UsernameFor (sample_mailbox ''a'' ''app'' [''x@a.example'']) \<noteq> UsernameFor (sample_mailbox ''b'' ''app'' [])"
proof -
  have "snd (snd (account_validate sample_selectors ascii_unicode (sample_reader []) ''mail''
     (sample_mailbox ''b'' ''app'' []) ())) = None" by code_simp
  from admitted_usernames_isolated [OF sample_account_admitted this] show ?thesis
    by (simp add: sample_mailbox_def sample_meta_def)
qed



section \<open>Where the webhook checks less than it says\<close>

text \<open>A cluster whose second answer about the gateway is an error, for instance a timeout.\<close>

definition flaky_reader :: "(nat, string \<times> string, unit) reader" where
  "flaky_reader =
     \<lparr>rd_Namespace = \<lambda>w n. (w, Found (Some [''team'' \<mapsto> ''a''])),
      rd_Gateway = \<lambda>w ns n. (Suc w, if w = 0 then Found sample_gateway else Failed (Plain ''timeout'')),
      rd_Account = \<lambda>w ns n. (w, NotFound (Plain ''not found'')),
      rd_Accounts = \<lambda>w. (w, Inr []),
      rd_Secret = \<lambda>w ns n. (w, NotFound (Plain ''not found''))\<rparr>"

text \<open>\<^verbatim>\<open>validateAgainstGrant\<close> reads the gateway again and takes every error of that read for the missing
  gateway its caller has reported. When the first read succeeded and the second one fails, nothing
  has been reported and nothing is checked: an account that asks for a domain it was not granted is
  accepted.\<close>

lemma unchecked_when_second_read_fails:
  "snd (snd (account_validate sample_selectors ascii_unicode flaky_reader ''mail''
     (sample_mailbox ''a'' ''app'' [''x@b.example'']) 0)) = None"
  by code_simp

text \<open>A gateway that takes accounts from selected namespaces only: the webhook accepts an account from any
  namespace, the controller does not.\<close>

definition selective_gateway :: "(string \<times> string, unit) MailoutGateway" where
  "selective_gateway =
     sample_gateway\<lparr>gw_Spec := sample_spec\<lparr>gs_AllowedAccounts :=
       \<lparr>aas_Namespaces = ''Selector'', aas_Selector = Some (''team'', ''b'')\<rparr>\<rparr>\<rparr>"

lemma selector_not_checked_at_admission:
  "snd (snd (account_validate sample_selectors ascii_unicode
       ((sample_reader [])\<lparr>rd_Gateway := \<lambda>w ns n. (w, Found selective_gateway)\<rparr>) ''mail''
       (sample_mailbox ''a'' ''app'' []) ())) = None \<and>
   namespaceAllowed sample_selectors (sample_reader []) selective_gateway ''a'' () = ((), Inr False)"
  by (rule conjI; code_simp)

end
