(* ===== verification/Account_Controller.thy ===== *)
theory Account_Controller
  imports Admission Auth
begin

text \<open>
  \<^verbatim>\<open>internal/controller/account_controller.go\<close> and \<^verbatim>\<open>conditions.go\<close>: bringing one account to its desired
  state. What the Kubernetes client does is a parameter: reading, \<^verbatim>\<open>CreateOrUpdate\<close> (which is handed the
  function that turns the object found into the one wanted), setting an owner, patching a status and
  \<^verbatim>\<open>meta.SetStatusCondition\<close>. So are the random source and bcrypt. The result of a reconciliation is
  the error it returns, if any, with what it wrote.
\<close>


section \<open>The cluster\<close>

text \<open>\<open>kb_Secret\<close> is \<^verbatim>\<open>controllerutil.CreateOrUpdate\<close> for a Secret: namespace, name and the mutation, which
  may itself act on the world. \<open>kb_SetOwner\<close> is \<^verbatim>\<open>SetControllerReference\<close>.\<close>

record ('w, 'sel, 'x) kube =
  kb_Client :: "('w, 'sel, 'x) reader"
  kb_APIReader :: "('w, 'sel, 'x) reader"
  kb_Selectors :: "'sel selectors"
  kb_Secret :: "'w \<Rightarrow> string \<Rightarrow> string \<Rightarrow> ('w \<Rightarrow> Secret \<Rightarrow> 'w \<times> Secret result) \<Rightarrow> 'w \<times> go_error option"
  kb_SetOwner :: "ObjectMeta \<Rightarrow> ObjectMeta \<Rightarrow> ObjectMeta result"
  kb_SetStatusCondition :: "Condition \<Rightarrow> Condition list \<Rightarrow> Condition list"
  kb_PatchAccount :: "'w \<Rightarrow> MailoutAccount \<Rightarrow> 'w \<times> go_error option"
  kb_Rand :: "'w \<Rightarrow> 'w \<times> nat list result"
  kb_bcrypt_Generate :: "string \<Rightarrow> int \<Rightarrow> string result"
  kb_bcrypt_Cost :: "string \<Rightarrow> int option"

definition setCondition ::
  "('w, 'sel, 'x, 'm) kube_scheme \<Rightarrow> string \<Rightarrow> string \<Rightarrow> string \<Rightarrow> string \<Rightarrow> int \<Rightarrow> Condition list \<Rightarrow>
   Condition list" where
  "setCondition K conditionType status reason message generation conditions =
     kb_SetStatusCondition K
       \<lparr>cond_Type = conditionType, cond_Status = status, cond_Reason = reason, cond_Message = message,
        cond_ObservedGeneration = generation\<rparr> conditions"


section \<open>Who holds a username\<close>

text \<open>Whether another account on the gateway with the same username goes before this one: the older one
  does, and of two with the same timestamp the one with the smaller UID.\<close>

definition goes_before :: "MailoutAccount \<Rightarrow> MailoutAccount \<Rightarrow> bool" where
  "goes_before other account \<longleftrightarrow>
     (let t = om_CreationTimestamp (ma_Meta other); t' = om_CreationTimestamp (ma_Meta account) in
      if t < t' then True else if t' < t then False
      else om_UID (ma_Meta other) < om_UID (ma_Meta account))"

definition conflicts ::
  "string \<Rightarrow> ('sel, 'x) MailoutGateway \<Rightarrow> MailoutAccount \<Rightarrow> string \<Rightarrow> MailoutAccount \<Rightarrow> bool" where
  "conflicts operatorNamespace gw account username other \<longleftrightarrow>
     \<not> same_object other account \<and> on_gateway operatorNamespace gw other \<and>
     UsernameFor other = username \<and> goes_before other account"

definition usernameConflict ::
  "('w, 'sel, 'x, 'm) kube_scheme \<Rightarrow> string \<Rightarrow> MailoutAccount \<Rightarrow> ('sel, 'x) MailoutGateway \<Rightarrow> string \<Rightarrow> 'w \<Rightarrow>
   'w \<times> string result" where
  "usernameConflict K operatorNamespace account gw username w =
     (case rd_Accounts (kb_Client K) w of
        (w, Inl err) \<Rightarrow> (w, Inl (Wrap ''list accounts'' err))
      | (w, Inr accounts) \<Rightarrow>
          (w, Inr (case find (conflicts operatorNamespace gw account username) accounts of
                     None \<Rightarrow> []
                   | Some other \<Rightarrow> ma_Namespace other @ ''/'' @ ma_Name other)))"


section \<open>The credentials\<close>

text \<open>The mutation of \<^verbatim>\<open>reconcileSecret\<close>. The password is kept unless it or its hash is missing, the hash is not
  one the gateway serves, or a rotation was asked for.\<close>

definition credentials ::
  "('w, 'sel, 'x, 'm) kube_scheme \<Rightarrow> bool \<Rightarrow> Secret \<Rightarrow> 'w \<Rightarrow> 'w \<times> (string \<times> string) result" where
  "credentials K rotationChanged secret w =
     (let password = secret_key secret ''password''; hash = secret_key secret PasswordHashKey in
      if password = [] \<or> hash = [] \<or> rotationChanged \<or> \<not> UsableHash (kb_bcrypt_Cost K) hash
      then (case kb_Rand K w of
              (w, random) \<Rightarrow>
                (case GeneratePassword random of
                   Inl err \<Rightarrow> (w, Inl err)
                 | Inr password \<Rightarrow>
                     (case HashPassword (kb_bcrypt_Generate K) password of
                        Inl err \<Rightarrow> (w, Inl err)
                      | Inr hash \<Rightarrow> (w, Inr (password, hash)))))
      else (w, Inr (password, hash)))"

definition mutate_account_secret ::
  "('w, 'sel, 'x, 'm) kube_scheme \<Rightarrow> MailoutAccount \<Rightarrow> string \<Rightarrow> Endpoint \<Rightarrow> string \<Rightarrow> 'w \<Rightarrow> Secret \<Rightarrow>
   'w \<times> Secret result" where
  "mutate_account_secret K account username endpoint gatewayNamespace w secret =
     (case credentials K (ast_RotationObserved (ma_Status account) \<noteq> as_Rotation (ma_Spec account)) secret w of
        (w, Inl err) \<Rightarrow> (w, Inl err)
      | (w, Inr (password, hash)) \<Rightarrow>
          (let desired = AccountSecret account username password hash endpoint gatewayNamespace;
               meta = (sec_Meta secret)\<lparr>om_Labels := om_Labels (sec_Meta desired)\<rparr>
           in
           case kb_SetOwner K (ma_Meta account) meta of
             Inl err \<Rightarrow> (w, Inl err)
           | Inr meta \<Rightarrow>
               (w, Inr \<lparr>sec_Meta = meta, sec_Type = sec_Type desired, sec_Data = sec_Data desired\<rparr>)))"

definition reconcileSecret ::
  "('w, 'sel, 'x, 'm) kube_scheme \<Rightarrow> MailoutAccount \<Rightarrow> ('sel, 'x) MailoutGateway \<Rightarrow> string \<Rightarrow> 'w \<Rightarrow>
   'w \<times> go_error option" where
  "reconcileSecret K account gw username w =
     (let inp = \<lparr>in_Gateway = Some gw, in_Accounts = [], in_UpstreamUsername = [], in_UpstreamPassword = [],
                 in_UpstreamCAPEM = [],
                 in_RateLimitStore = \<lparr>rlc_Username = [], rlc_Password = [], rlc_SentinelUsername = [],
                                      rlc_SentinelPassword = [], rlc_CAPEM = []\<rparr>,
                 in_MetricsToken = []\<rparr>
      in
      case GatewayConfig (\<lambda>accounts. accounts) inp of
        Inl err \<Rightarrow> (w, Some (Wrap ''render gateway endpoint'' err))
      | Inr cfg \<Rightarrow>
          (case kb_Secret K w (ma_Namespace account) (ref_Name (as_SecretRef (ma_Spec account)))
                  (mutate_account_secret K account username (GatewayEndpoint gw cfg) (gw_Namespace gw)) of
             (w, Some err) \<Rightarrow> (w, Some (Wrap ''reconcile account secret'' err))
           | (w, None) \<Rightarrow> (w, None)))"


section \<open>Reconciliation\<close>

definition account_not_accepted ::
  "('w, 'sel, 'x, 'm) kube_scheme \<Rightarrow> MailoutAccount \<Rightarrow> string \<Rightarrow> string \<Rightarrow> MailoutAccount" where
  "account_not_accepted K account reason message =
     (let gen = om_Generation (ma_Meta account); st = ma_Status account in
      account\<lparr>ma_Status := st\<lparr>ast_ObservedGeneration := gen, ast_Conditions :=
        setCondition K ConditionReady ''False'' reason message gen
          (setCondition K ConditionAccepted ''False'' reason message gen (ast_Conditions st))\<rparr>\<rparr>)"

definition account_ready ::
  "('w, 'sel, 'x, 'm) kube_scheme \<Rightarrow> MailoutAccount \<Rightarrow> ('sel, 'x) MailoutGateway \<Rightarrow> string \<Rightarrow> MailoutAccount" where
  "account_ready K account gw username =
     (let gen = om_Generation (ma_Meta account);
          secret = ref_Name (as_SecretRef (ma_Spec account));
          conditions =
            setCondition K ConditionAccepted ''True'' ReasonAccepted (''Account accepted by '' @ gw_Name gw) gen
              (ast_Conditions (ma_Status account));
          conditions =
            (if as_Disabled (ma_Spec account)
             then setCondition K ConditionReady ''False'' ReasonDisabled
                    ''Account is disabled; authentication is refused'' gen conditions
             else setCondition K ConditionReady ''True'' ReasonReady
                    (''Credentials provisioned in Secret '' @ secret) gen conditions)
      in
      account\<lparr>ma_Status :=
        \<lparr>ast_Conditions = conditions, ast_ObservedGeneration = gen, ast_Username = username,
         ast_SecretName = secret, ast_Gateway = gw_Namespace gw @ ''/'' @ gw_Name gw,
         ast_RotationObserved = as_Rotation (ma_Spec account)\<rparr>\<rparr>)"

datatype account_write = CredentialsWritten string string | StatusPatched MailoutAccount

definition mark_account ::
  "('w, 'sel, 'x, 'm) kube_scheme \<Rightarrow> MailoutAccount \<Rightarrow> account_write list \<Rightarrow> 'w \<Rightarrow>
   'w \<times> account_write list \<times> go_error option" where
  "mark_account K account log w =
     (case kb_PatchAccount K w account of (w, err) \<Rightarrow> (w, log @ [StatusPatched account], err))"

definition account_Reconcile ::
  "('w, 'sel, 'x, 'm) kube_scheme \<Rightarrow> string \<Rightarrow> string \<Rightarrow> string \<Rightarrow> 'w \<Rightarrow> 'w \<times> account_write list \<times> go_error option" where
  "account_Reconcile K operatorNamespace namespace name w =
     (case rd_Account (kb_Client K) w namespace name of
        (w, NotFound _) \<Rightarrow> (w, [], None)
      | (w, Failed err) \<Rightarrow> (w, [], Some err)
      | (w, Found account) \<Rightarrow>
     (let gatewayNamespace = GatewayNamespaceFor account operatorNamespace;
          gatewayName = gr_Name (as_GatewayRef (ma_Spec account))
      in
      case rd_Gateway (kb_Client K) w gatewayNamespace gatewayName of
        (w, NotFound _) \<Rightarrow>
          mark_account K (account_not_accepted K account ReasonGatewayNotFound
            (''MailoutGateway '' @ gatewayNamespace @ ''/'' @ gatewayName @ '' not found'')) [] w
      | (w, Failed err) \<Rightarrow> (w, [], Some (Wrap ''get gateway'' err))
      | (w, Found gw) \<Rightarrow>
     (case namespaceAllowed (kb_Selectors K) (kb_Client K) gw (ma_Namespace account) w of
        (w, Inl err) \<Rightarrow> (w, [], Some err)
      | (w, Inr allowed) \<Rightarrow>
          if \<not> allowed then
            mark_account K (account_not_accepted K account ReasonNamespaceNotAllowed
              (''MailoutGateway '' @ gw_Namespace gw @ ''/'' @ gw_Name gw @
               '' does not accept accounts from namespace '' @ ma_Namespace account)) [] w
          else
     (let username = UsernameFor account in
      case usernameConflict K operatorNamespace account gw username w of
        (w, Inl err) \<Rightarrow> (w, [], Some err)
      | (w, Inr conflict) \<Rightarrow>
          if conflict \<noteq> [] then
            mark_account K (account_not_accepted K account ReasonUsernameConflict
              (''username '' @ username @ '' is already taken on this gateway'')) [] w
          else
            (case reconcileSecret K account gw username w of
               (w, Some err) \<Rightarrow> (w, [], Some err)
             | (w, None) \<Rightarrow>
                 mark_account K (account_ready K account gw username)
                   [CredentialsWritten (ma_Namespace account) (ref_Name (as_SecretRef (ma_Spec account)))] w)))))"


section \<open>One holder per username\<close>

definition seniority :: "MailoutAccount \<Rightarrow> int \<times> string" where
  "seniority a = (om_CreationTimestamp (ma_Meta a), om_UID (ma_Meta a))"

lemma goes_before_iff: "goes_before a b \<longleftrightarrow> seniority a < seniority b"
  by (auto simp: goes_before_def seniority_def less_prod_def Let_def)

lemma ex_senior:
  assumes "xs \<noteq> []"
  shows "\<exists>a \<in> set xs. \<forall>b \<in> set xs. seniority a \<le> seniority b"
proof -
  have "Min (seniority ` set xs) \<in> seniority ` set xs" using assms by (intro Min_in) auto
  then obtain a where "a \<in> set xs" "seniority a = Min (seniority ` set xs)" by auto
  then show ?thesis by (auto intro: bexI [of _ a])
qed

text \<open>The accounts of a cluster: no two have the same namespace and name, and no two the same UID.\<close>

definition objects_ok :: "MailoutAccount list \<Rightarrow> bool" where
  "objects_ok accounts \<longleftrightarrow>
     (\<forall>a \<in> set accounts. \<forall>b \<in> set accounts.
        (same_object a b \<longrightarrow> a = b) \<and> (om_UID (ma_Meta a) = om_UID (ma_Meta b) \<longrightarrow> a = b))"

lemma usernameConflict_free:
  assumes "rd_Accounts (kb_Client K) w = (w', Inr accounts)"
  shows "usernameConflict K ons a gw u w = (w', Inr []) \<longleftrightarrow>
           (\<forall>b \<in> set accounts. \<not> conflicts ons gw a u b)"
  using assms by (auto simp: usernameConflict_def find_None_iff split: option.splits dest: find_SomeD)



section \<open>Passwords are kept\<close>

text \<open>What bcrypt documents: a hash made at a cost is not empty and has that cost. And the random source
  fills the buffer it is given.\<close>

definition credential_laws :: "('w, 'sel, 'x, 'm) kube_scheme \<Rightarrow> bool" where
  "credential_laws K \<longleftrightarrow>
     (\<forall>p c h. kb_bcrypt_Generate K p c = Inr h \<longrightarrow> h \<noteq> [] \<and> kb_bcrypt_Cost K h = Some c) \<and>
     (\<forall>w w' buf. kb_Rand K w = (w', Inr buf) \<longrightarrow> length buf = PasswordBytes)"

lemma b64_encode_nonempty: "buf \<noteq> [] \<Longrightarrow> b64_encode buf \<noteq> []"
  by (induction buf rule: b64_encode.induct) auto

lemma credentials_usable:
  assumes laws: "credential_laws K" and run: "credentials K r secret w = (w', Inr (p, h))"
  shows "p \<noteq> []" "h \<noteq> []" "UsableHash (kb_bcrypt_Cost K) h"
proof -
  have cost: "UsableHash (kb_bcrypt_Cost K) h'" if "kb_bcrypt_Generate K p' BcryptCost = Inr h'" for p' h'
    using laws that
    by (simp add: credential_laws_def UsableHash_def BcryptCost_def MinBcryptCost_def MaxBcryptCost_def)
  have fresh: "p' \<noteq> [] \<and> h' \<noteq> []"
    if rand: "kb_Rand K w = (w1, random)" and gen: "GeneratePassword random = Inr p'"
      and hash: "kb_bcrypt_Generate K p' BcryptCost = Inr h'"
    for w1 random p' h'
  proof
    obtain buf where buf: "random = Inr buf" "p' = b64_encode buf"
      using gen by (cases random) (auto simp: GeneratePassword_def)
    then have "length buf = PasswordBytes" using laws rand unfolding credential_laws_def by blast
    then have "buf \<noteq> []" by (auto simp: PasswordBytes_def)
    then show "p' \<noteq> []" using buf(2) b64_encode_nonempty by simp
    show "h' \<noteq> []" using laws hash unfolding credential_laws_def by blast
  qed
  show "p \<noteq> []" "h \<noteq> []" "UsableHash (kb_bcrypt_Cost K) h"
    using run cost fresh
    by (fastforce simp: credentials_def Let_def HashPassword_def split: if_splits prod.splits sum.splits)+
qed

lemma AccountSecret_keys:
  "sec_Data (AccountSecret a u p h e ns) ''password'' = Some p"
  "sec_Data (AccountSecret a u p h e ns) ''username'' = Some u"
  "sec_Data (AccountSecret a u p h e ns) PasswordHashKey = Some h"
  by (simp_all add: AccountSecret_def PasswordHashKey_def)



section \<open>What a reconciliation writes\<close>

text \<open>Credentials are written only for an account whose gateway exists, takes accounts from its
  namespace, and on which no other account has a better claim to its username; an account that is
  refused only has its status patched.\<close>

theorem credentials_only_when_accepted:
  assumes run: "account_Reconcile K ons ns n w = (w', log, err)" and wrote: "CredentialsWritten ns' n' \<in> set log"
  shows "\<exists>account gw w1 w2 w3 w4 w5.
           rd_Account (kb_Client K) w ns n = (w1, Found account) \<and>
           ns' = ma_Namespace account \<and> n' = ref_Name (as_SecretRef (ma_Spec account)) \<and>
           rd_Gateway (kb_Client K) w1 (GatewayNamespaceFor account ons)
             (gr_Name (as_GatewayRef (ma_Spec account))) = (w2, Found gw) \<and>
           namespaceAllowed (kb_Selectors K) (kb_Client K) gw (ma_Namespace account) w2 = (w3, Inr True) \<and>
           usernameConflict K ons account gw (UsernameFor account) w3 = (w4, Inr []) \<and>
           reconcileSecret K account gw (UsernameFor account) w4 = (w5, None)"
  using run wrote
  by (auto simp: account_Reconcile_def mark_account_def Let_def split: prod.splits got.splits sum.splits if_splits option.splits)



section \<open>Samples\<close>

definition plain_kube :: "MailoutAccount list \<Rightarrow> (unit, string \<times> string, unit) kube" where
  "plain_kube accounts =
     \<lparr>kb_Client = sample_reader accounts, kb_APIReader = sample_reader accounts,
      kb_Selectors = sample_selectors,
      kb_Secret = \<lambda>w ns n f. (w, None), kb_SetOwner = \<lambda>owner meta. Inr meta,
      kb_SetStatusCondition = \<lambda>c cs. cs @ [c], kb_PatchAccount = \<lambda>w a. (w, None),
      kb_Rand = \<lambda>w. (w, Inr (replicate 24 7)), kb_bcrypt_Generate = \<lambda>p c. if c < 0 then Inl (Plain ''cost'') else Inr (show_int c),
      kb_bcrypt_Cost = \<lambda>h. Some (int (read_nat h))\<rparr>"

text \<open>Two accounts that claim the username \<^verbatim>\<open>a.app\<close>.\<close>

abbreviation rivals :: "MailoutAccount list" where
  "rivals \<equiv>
     [sample_mailbox ''a'' ''app'' [],
      (sample_mailbox ''b'' ''app'' [])\<lparr>ma_Spec := (ma_Spec (sample_mailbox ''b'' ''app'' []))\<lparr>as_Username := ''a.app''\<rparr>\<rparr>]"


lemma plain_credential_laws: "credential_laws (plain_kube accounts)"
  by (auto simp: credential_laws_def plain_kube_def show_int_def PasswordBytes_def split: if_splits)

definition blank_secret :: Secret where
  "blank_secret = \<lparr>sec_Meta = sample_meta ''a'' ''creds'', sec_Type = [], sec_Data = Map.empty\<rparr>"


theorem credentials_only_when_accepted_witness:
  "\<exists>w1 w2 log. account_Reconcile (plain_kube rivals) ''mail'' ''a'' ''app'' () = ((), log, None) \<and>
     CredentialsWritten ''a'' ''creds'' \<in> set log \<and>
     usernameConflict (plain_kube rivals) ''mail'' (hd rivals) sample_gateway ''a.app'' w1 = (w2, Inr [])"
proof -
  let ?r = "account_Reconcile (plain_kube rivals) ''mail'' ''a'' ''app'' ()"
  obtain log err where run: "?r = ((), log, err)" by (cases ?r) auto
  have "(case ?r of (_, CredentialsWritten x y # _, None) \<Rightarrow> x = ''a'' \<and> y = ''creds'' | _ \<Rightarrow> False)"
    by code_simp
  with run have wrote: "CredentialsWritten ''a'' ''creds'' \<in> set log" and "err = None"
    by (auto split: list.splits account_write.splits option.splits)
  have found: "rd_Account (kb_Client (plain_kube rivals)) () ''a'' ''app'' = ((), Found (hd rivals))"
    "rd_Gateway (kb_Client (plain_kube rivals)) () (GatewayNamespaceFor (hd rivals) ''mail'')
       (gr_Name (as_GatewayRef (ma_Spec (hd rivals)))) = ((), Found sample_gateway)"
    "UsernameFor (hd rivals) = ''a.app''"
    by (simp_all add: plain_kube_def sample_reader_def sample_mailbox_def sample_meta_def GatewayNamespaceFor_def
        UsernameFor_def)
  show ?thesis
    using credentials_only_when_accepted [OF run wrote] found run wrote \<open>err = None\<close> by auto
qed

end
