(* ===== verification/Gateway_Controller.thy ===== *)
theory Gateway_Controller
  imports Account_Controller
begin

text \<open>
  \<^verbatim>\<open>internal/controller/gateway_controller.go\<close>: collecting the accounts a gateway serves, reading the Secrets
  it points at, rendering its configuration and bringing the objects that carry it up to date. As in
  the account controller, the Kubernetes client is a parameter; every object handed to it is also
  recorded in a log, so that what was written can be stated. Marshalling, the two sorts and SHA-256
  are parameters too. A panic is an error that the controller runtime reports.
\<close>


section \<open>The cluster and the reconciler\<close>

text \<open>One \<^verbatim>\<open>CreateOrUpdate\<close> per kind of object: namespace, name and the mutation.\<close>

record ('w, 'sel, 'x) gateway_kube = "('w, 'sel, 'x) kube" +
  kb_Certificate :: "'w \<Rightarrow> string \<Rightarrow> string \<Rightarrow> (Certificate \<Rightarrow> Certificate result) \<Rightarrow> 'w \<times> go_error option"
  kb_Service :: "'w \<Rightarrow> string \<Rightarrow> string \<Rightarrow> (Service \<Rightarrow> Service result) \<Rightarrow> 'w \<times> go_error option"
  kb_Monitor :: "'w \<Rightarrow> string \<Rightarrow> string \<Rightarrow> (ServiceMonitor \<Rightarrow> ServiceMonitor result) \<Rightarrow> 'w \<times> go_error option"
  kb_Policy :: "'w \<Rightarrow> string \<Rightarrow> string \<Rightarrow> ('sel NetworkPolicy \<Rightarrow> 'sel NetworkPolicy result) \<Rightarrow> 'w \<times> go_error option"
  kb_DeletePolicy :: "'w \<Rightarrow> string \<Rightarrow> string \<Rightarrow> 'w \<times> unit got"
  kb_Deployment :: "'w \<Rightarrow> string \<Rightarrow> string \<Rightarrow> ('x Deployment \<Rightarrow> 'x Deployment result) \<Rightarrow> 'w \<times> 'x Deployment result"
  kb_PatchGateway :: "'w \<Rightarrow> ('sel, 'x) MailoutGateway \<Rightarrow> 'w \<times> go_error option"
  kb_Marshal :: "Config \<Rightarrow> bytes result"
  kb_MarshalAccount :: "Account \<Rightarrow> bytes result"
  kb_SortAccounts :: "ResolvedAccount list \<Rightarrow> ResolvedAccount list"
  kb_SortWeights :: "(nat \<times> int \<Rightarrow> int \<times> string) \<Rightarrow> (nat \<times> int) list \<Rightarrow> (nat \<times> int) list"
  kb_sha256 :: "bytes \<Rightarrow> bytes"
  kb_unicode :: unicode

definition resyncInterval :: int where "resyncInterval = 5 * 60 * 1000000000"

record GatewayReconciler =
  rec_OperatorNamespace :: string
  rec_GatewayImage :: string
  rec_CertManagerAvailable :: bool
  rec_PrometheusOperatorAvailable :: bool

datatype ('sel, 'x) kube_write =
    WroteCertificate Certificate
  | WroteConfig Secret
  | WroteService Service
  | WrotePolicy "'sel NetworkPolicy"
  | RemovedPolicy string string
  | WroteMonitor ServiceMonitor
  | WroteDeployment "'x Deployment"
  | PatchedGateway "('sel, 'x) MailoutGateway"

type_synonym ('w, 'sel, 'x) rstate = "'w \<times> ('sel, 'x) kube_write list"

text \<open>One step after the other, up to the first error.\<close>

definition and_then ::
  "'s \<times> go_error option \<Rightarrow> ('s \<Rightarrow> 's \<times> 'a result) \<Rightarrow> 's \<times> 'a result" where
  "and_then r f = (case r of (s, Some err) \<Rightarrow> (s, Inl err) | (s, None) \<Rightarrow> f s)"


section \<open>The accounts of a gateway\<close>

definition resolved_account :: "unicode \<Rightarrow> MailoutAccount \<Rightarrow> string \<Rightarrow> string list \<Rightarrow> ResolvedAccount" where
  "resolved_account U account hash granted =
     \<lparr>ra_Username = UsernameFor account,
      ra_PasswordHash = hash,
      ra_Disabled = as_Disabled (ma_Spec account),
      ra_AllowedSenders = fst (GrantedSubset U granted (as_AllowedSenders (ma_Spec account))),
      ra_SkipHeaderFromCheck = (as_EnforceHeaderFrom (ma_Spec account) = Some False)\<rparr>"

text \<open>One turn of the loop of \<^verbatim>\<open>collectAccounts\<close>: nothing, when the account is skipped.\<close>

definition collect_account ::
  "('w, 'sel, 'x, 'm) gateway_kube_scheme \<Rightarrow> string \<Rightarrow> ('sel, 'x) MailoutGateway \<Rightarrow> MailoutAccount \<Rightarrow> 'w \<Rightarrow>
   'w \<times> ResolvedAccount option result" where
  "collect_account K operatorNamespace gw account w =
     (if \<not> on_gateway operatorNamespace gw account then (w, Inr None)
      else case namespaceAllowed (kb_Selectors K) (kb_Client K) gw (ma_Namespace account) w of
             (w, Inl err) \<Rightarrow> (w, Inl err)
           | (w, Inr False) \<Rightarrow> (w, Inr None)
           | (w, Inr True) \<Rightarrow>
      (let secretName = ref_Name (as_SecretRef (ma_Spec account)) in
       case rd_Secret (kb_Client K) w (ma_Namespace account) secretName of
         (w, Failed err) \<Rightarrow>
           (w, Inl (Wrap (''get secret '' @ ma_Namespace account @ ''/'' @ secretName) err))
       | (w, NotFound _) \<Rightarrow> (w, Inr None)
       | (w, Found secret) \<Rightarrow>
           (let hash = secret_key secret PasswordHashKey in
            if hash = [] then (w, Inr None)
            else case grantedSenders (kb_Selectors K) (kb_Client K) gw (ma_Namespace account) None w of
                   (w, Inl err) \<Rightarrow> (w, Inl err)
                 | (w, Inr (_, granted)) \<Rightarrow>
                     (w, Inr (Some (resolved_account (kb_unicode K) account hash granted))))))"

fun collect_loop ::
  "('w, 'sel, 'x, 'm) gateway_kube_scheme \<Rightarrow> string \<Rightarrow> ('sel, 'x) MailoutGateway \<Rightarrow> MailoutAccount list \<Rightarrow> 'w \<Rightarrow>
   'w \<times> ResolvedAccount list result" where
  "collect_loop K operatorNamespace gw [] w = (w, Inr [])"
| "collect_loop K operatorNamespace gw (account # accounts) w =
     (case collect_account K operatorNamespace gw account w of
        (w, Inl err) \<Rightarrow> (w, Inl err)
      | (w, Inr found) \<Rightarrow>
          (case collect_loop K operatorNamespace gw accounts w of
             (w, Inl err) \<Rightarrow> (w, Inl err)
           | (w, Inr rest) \<Rightarrow> (w, Inr (case found of None \<Rightarrow> rest | Some a \<Rightarrow> a # rest))))"

definition collectAccounts ::
  "('w, 'sel, 'x, 'm) gateway_kube_scheme \<Rightarrow> string \<Rightarrow> ('sel, 'x) MailoutGateway \<Rightarrow> 'w \<Rightarrow>
   'w \<times> ResolvedAccount list result" where
  "collectAccounts K operatorNamespace gw w =
     (case rd_Accounts (kb_Client K) w of
        (w, Inl err) \<Rightarrow> (w, Inl (Wrap ''list accounts'' err))
      | (w, Inr accounts) \<Rightarrow> collect_loop K operatorNamespace gw accounts w)"


section \<open>The Secrets a gateway points at\<close>

definition read_secret ::
  "('w, 'sel, 'x, 'm) gateway_kube_scheme \<Rightarrow> string \<Rightarrow> string \<Rightarrow> string \<Rightarrow> 'w \<Rightarrow> 'w \<times> Secret result" where
  "read_secret K what namespace name w =
     (case rd_Secret (kb_APIReader K) w namespace name of
        (w, Found secret) \<Rightarrow> (w, Inr secret)
      | (w, NotFound err) \<Rightarrow> (w, Inl (Wrap (what @ '' Secret '' @ namespace @ ''/'' @ name) err))
      | (w, Failed err) \<Rightarrow> (w, Inl (Wrap (what @ '' Secret '' @ namespace @ ''/'' @ name) err)))"

definition no_key :: "string \<Rightarrow> string \<Rightarrow> string \<Rightarrow> string \<Rightarrow> go_error" where
  "no_key what namespace name k =
     Plain (what @ '' Secret '' @ namespace @ ''/'' @ name @ '' has no '' @ k @ '' key'')"

definition read_ca ::
  "('w, 'sel, 'x, 'm) gateway_kube_scheme \<Rightarrow> string \<Rightarrow> string \<Rightarrow> SecretKeySelector \<Rightarrow> 'w \<Rightarrow> 'w \<times> string result" where
  "read_ca K what namespace ref w =
     (case read_secret K what namespace (sks_Name ref) w of
        (w, Inl err) \<Rightarrow> (w, Inl err)
      | (w, Inr secret) \<Rightarrow>
          (let caKey = (if sks_Key ref = [] then ''ca.crt'' else sks_Key ref);
               pem = secret_key secret caKey
           in (w, if pem = [] then Inl (no_key what namespace (sks_Name ref) caKey) else Inr pem)))"

definition read_store_auth ::
  "('w, 'sel, 'x, 'm) gateway_kube_scheme \<Rightarrow> string \<Rightarrow> string \<Rightarrow> LocalObjectReference option \<Rightarrow> 'w \<Rightarrow>
   'w \<times> (string \<times> string) result" where
  "read_store_auth K what namespace ref w =
     (case ref of
        None \<Rightarrow> (w, Inr ([], []))
      | Some r \<Rightarrow>
          (case read_secret K what namespace (ref_Name r) w of
             (w, Inl err) \<Rightarrow> (w, Inl err)
           | (w, Inr secret) \<Rightarrow>
               (let password = secret_key secret ''password'' in
                (w, if password = [] then Inl (no_key what namespace (ref_Name r) ''password'')
                    else Inr (secret_key secret ''username'', password)))))"

definition resolveRateLimitSecrets ::
  "('w, 'sel, 'x, 'm) gateway_kube_scheme \<Rightarrow> ('sel, 'x) MailoutGateway \<Rightarrow> ('sel, 'x) Input \<Rightarrow> 'w \<Rightarrow>
   'w \<times> ('sel, 'x) Input result" where
  "resolveRateLimitSecrets K gw inp w =
     (case gs_RateLimit (gw_Spec gw) of
        None \<Rightarrow> (w, Inr inp)
      | Some rl \<Rightarrow>
     (let store = rsp_Store rl in
      case read_store_auth K ''rate limit store auth'' (gw_Namespace gw) (rss_AuthSecretRef store) w of
        (w, Inl err) \<Rightarrow> (w, Inl err)
      | (w, Inr (username, password)) \<Rightarrow>
     (case read_store_auth K ''rate limit store sentinel auth'' (gw_Namespace gw)
             (rss_SentinelAuthSecretRef store) w of
        (w, Inl err) \<Rightarrow> (w, Inl err)
      | (w, Inr (sentinelUsername, sentinelPassword)) \<Rightarrow>
     (let creds = (in_RateLimitStore inp)\<lparr>rlc_Username := username, rlc_Password := password,
                    rlc_SentinelUsername := sentinelUsername, rlc_SentinelPassword := sentinelPassword\<rparr>
      in
      case Option.bind (rss_TLS store) rst_CASecretRef of
        None \<Rightarrow> (w, Inr (inp\<lparr>in_RateLimitStore := creds\<rparr>))
      | Some ref \<Rightarrow>
          (case read_ca K ''rate limit store CA'' (gw_Namespace gw) ref w of
             (w, Inl err) \<Rightarrow> (w, Inl err)
           | (w, Inr pem) \<Rightarrow> (w, Inr (inp\<lparr>in_RateLimitStore := creds\<lparr>rlc_CAPEM := pem\<rparr>\<rparr>)))))))"

definition resolve_upstream_auth ::
  "('w, 'sel, 'x, 'm) gateway_kube_scheme \<Rightarrow> ('sel, 'x) MailoutGateway \<Rightarrow> ('sel, 'x) Input \<Rightarrow> 'w \<Rightarrow>
   'w \<times> ('sel, 'x) Input result" where
  "resolve_upstream_auth K gw inp w =
     (case usp_AuthSecretRef (gs_Upstream (gw_Spec gw)) of
        None \<Rightarrow> (w, Inr inp)
      | Some ref \<Rightarrow>
          (case read_secret K ''upstream auth'' (gw_Namespace gw) (ref_Name ref) w of
             (w, Inl err) \<Rightarrow> (w, Inl err)
           | (w, Inr secret) \<Rightarrow>
               (let username = secret_key secret ''username'' in
                (w, if username = [] then Inl (no_key ''upstream auth'' (gw_Namespace gw) (ref_Name ref) ''username'')
                    else Inr (inp\<lparr>in_UpstreamUsername := username,
                                 in_UpstreamPassword := secret_key secret ''password''\<rparr>)))))"

definition resolveSecrets ::
  "('w, 'sel, 'x, 'm) gateway_kube_scheme \<Rightarrow> ('sel, 'x) MailoutGateway \<Rightarrow> ('sel, 'x) Input \<Rightarrow> 'w \<Rightarrow>
   'w \<times> ('sel, 'x) Input result" where
  "resolveSecrets K gw inp w =
     (case resolve_upstream_auth K gw inp w of
        (w, Inl err) \<Rightarrow> (w, Inl err)
      | (w, Inr inp) \<Rightarrow>
          (case usp_CASecretRef (gs_Upstream (gw_Spec gw)) of
             None \<Rightarrow> resolveRateLimitSecrets K gw inp w
           | Some ref \<Rightarrow>
               (case read_ca K ''upstream CA'' (gw_Namespace gw) ref w of
                  (w, Inl err) \<Rightarrow> (w, Inl err)
                | (w, Inr pem) \<Rightarrow> resolveRateLimitSecrets K gw (inp\<lparr>in_UpstreamCAPEM := pem\<rparr>) w)))"

definition metricsToken ::
  "('w, 'sel, 'x, 'm) gateway_kube_scheme \<Rightarrow> ('sel, 'x) MailoutGateway \<Rightarrow> 'w \<Rightarrow> 'w \<times> string result" where
  "metricsToken K gw w =
     (let name = ConfigSecretName (gw_Name gw);
          generate = (\<lambda>w. case kb_Rand K w of
                             (w, random) \<Rightarrow>
                               (case GeneratePassword random of
                                  Inl err \<Rightarrow> (w, Inl (Wrap ''generate metrics token'' err))
                                | Inr token \<Rightarrow> (w, Inr token)))
      in
      case rd_Secret (kb_APIReader K) w (gw_Namespace gw) name of
        (w, Found secret) \<Rightarrow>
          (let token = secret_key secret MetricsTokenKey in
           if token \<noteq> [] then (w, Inr token) else generate w)
      | (w, NotFound _) \<Rightarrow> generate w
      | (w, Failed err) \<Rightarrow>
          (w, Inl (Wrap (''get configuration secret '' @ gw_Namespace gw @ ''/'' @ name) err)))"


section \<open>Bringing the objects up to date\<close>

text \<open>The mutations handed to \<^verbatim>\<open>CreateOrUpdate\<close>: what of the object found is kept. A Service keeps the
  address the API server gave it, a Deployment the selector it was created with.\<close>

definition own ::
  "('w, 'sel, 'x, 'm) gateway_kube_scheme \<Rightarrow> ('sel, 'x) MailoutGateway \<Rightarrow> ObjectMeta \<Rightarrow> ObjectMeta \<Rightarrow>
   (ObjectMeta \<Rightarrow> 'a) \<Rightarrow> 'a result" where
  "own K gw desired existing f =
     (case kb_SetOwner K (gw_Meta gw) (existing\<lparr>om_Labels := om_Labels desired\<rparr>) of
        Inl err \<Rightarrow> Inl err | Inr meta \<Rightarrow> Inr (f meta))"

definition mutate_Certificate ::
  "('w, 'sel, 'x, 'm) gateway_kube_scheme \<Rightarrow> ('sel, 'x) MailoutGateway \<Rightarrow> Certificate \<Rightarrow> Certificate \<Rightarrow>
   Certificate result" where
  "mutate_Certificate K gw desired cert =
     own K gw (cer_Meta desired) (cer_Meta cert) (\<lambda>meta. desired\<lparr>cer_Meta := meta\<rparr>)"

definition mutate_Secret ::
  "('w, 'sel, 'x, 'm) gateway_kube_scheme \<Rightarrow> ('sel, 'x) MailoutGateway \<Rightarrow> Secret \<Rightarrow> Secret \<Rightarrow> Secret result" where
  "mutate_Secret K gw desired secret =
     own K gw (sec_Meta desired) (sec_Meta secret) (\<lambda>meta. desired\<lparr>sec_Meta := meta\<rparr>)"

definition mutate_Service ::
  "('w, 'sel, 'x, 'm) gateway_kube_scheme \<Rightarrow> ('sel, 'x) MailoutGateway \<Rightarrow> Service \<Rightarrow> Service \<Rightarrow> Service result" where
  "mutate_Service K gw desired svc =
     own K gw (svc_Meta desired) ((svc_Meta svc)\<lparr>om_Annotations := om_Annotations (svc_Meta desired)\<rparr>)
       (\<lambda>meta. \<lparr>svc_Meta = meta, svc_Selector = svc_Selector desired, svc_Type = svc_Type desired,
               svc_Ports = svc_Ports desired, svc_ClusterIP = svc_ClusterIP svc\<rparr>)"

definition mutate_MetricsService ::
  "('w, 'sel, 'x, 'm) gateway_kube_scheme \<Rightarrow> ('sel, 'x) MailoutGateway \<Rightarrow> Service \<Rightarrow> Service \<Rightarrow> Service result" where
  "mutate_MetricsService K gw desired svc =
     own K gw (svc_Meta desired) (svc_Meta svc)
       (\<lambda>meta. \<lparr>svc_Meta = meta, svc_Selector = svc_Selector desired, svc_Type = svc_Type desired,
               svc_Ports = svc_Ports desired, svc_ClusterIP = svc_ClusterIP svc\<rparr>)"

definition mutate_Policy ::
  "('w, 'sel, 'x, 'm) gateway_kube_scheme \<Rightarrow> ('sel, 'x) MailoutGateway \<Rightarrow> 'sel NetworkPolicy \<Rightarrow>
   'sel NetworkPolicy \<Rightarrow> 'sel NetworkPolicy result" where
  "mutate_Policy K gw desired policy =
     own K gw (pol_Meta desired) (pol_Meta policy) (\<lambda>meta. desired\<lparr>pol_Meta := meta\<rparr>)"

definition mutate_Monitor ::
  "('w, 'sel, 'x, 'm) gateway_kube_scheme \<Rightarrow> ('sel, 'x) MailoutGateway \<Rightarrow> ServiceMonitor \<Rightarrow> ServiceMonitor \<Rightarrow>
   ServiceMonitor result" where
  "mutate_Monitor K gw desired monitor =
     own K gw (mon_Meta desired) (mon_Meta monitor) (\<lambda>meta. desired\<lparr>mon_Meta := meta\<rparr>)"

definition mutate_Deployment ::
  "('w, 'sel, 'x, 'm) gateway_kube_scheme \<Rightarrow> ('sel, 'x) MailoutGateway \<Rightarrow> 'x Deployment \<Rightarrow> 'x Deployment \<Rightarrow>
   'x Deployment result" where
  "mutate_Deployment K gw desired deployment =
     own K gw (dpl_Meta desired) (dpl_Meta deployment)
       (\<lambda>meta. deployment\<lparr>dpl_Meta := meta,
          dpl_Selector := (case dpl_Selector deployment of None \<Rightarrow> dpl_Selector desired | Some s \<Rightarrow> Some s),
          dpl_Replicas := dpl_Replicas desired,
          dpl_TemplateLabels := dpl_TemplateLabels desired,
          dpl_TemplateAnnotations := dpl_TemplateAnnotations desired,
          dpl_PodSpec := dpl_PodSpec desired\<rparr>)"

definition reconcileCertificate ::
  "('w, 'sel, 'x, 'm) gateway_kube_scheme \<Rightarrow> GatewayReconciler \<Rightarrow> ('sel, 'x) MailoutGateway \<Rightarrow>
   ('w, 'sel, 'x) rstate \<Rightarrow> ('w, 'sel, 'x) rstate \<times> go_error option" where
  "reconcileCertificate K R gw s =
     (case render_Certificate gw of
        None \<Rightarrow> (s, None)
      | Some desired \<Rightarrow>
          if \<not> rec_CertManagerAvailable R
          then (s, Some (Plain ''spec.tls.issuerRef needs cert-manager, whose CRDs are not installed''))
          else (case kb_Certificate K (fst s) (om_Namespace (cer_Meta desired)) (om_Name (cer_Meta desired))
                       (mutate_Certificate K gw desired) of
                  (w, err) \<Rightarrow> ((w, snd s @ [WroteCertificate desired]),
                               map_option (Wrap ''reconcile certificate'') err)))"

text \<open>\<^verbatim>\<open>FitAccounts\<close> changes the configuration in place, so it is returned.\<close>

definition reconcileConfigSecret ::
  "('w, 'sel, 'x, 'm) gateway_kube_scheme \<Rightarrow> ('sel, 'x) MailoutGateway \<Rightarrow> Config \<Rightarrow>
   ('w, 'sel, 'x) rstate \<Rightarrow> ('w, 'sel, 'x) rstate \<times> Config result" where
  "reconcileConfigSecret K gw cfg s =
     (let cfg = fst (FitAccounts (kb_Marshal K) (kb_MarshalAccount K) (kb_SortWeights K) cfg ConfigBudget) in
      case kb_Marshal K cfg of
        Inl err \<Rightarrow> (s, Inl (Wrap ''marshal configuration'' err))
      | Inr rendered \<Rightarrow>
          (let desired = ConfigSecret gw rendered (mc_Token (cfg_Metrics cfg)) in
           case kb_Secret K (fst s) (om_Namespace (sec_Meta desired)) (om_Name (sec_Meta desired))
                  (\<lambda>w secret. (w, mutate_Secret K gw desired secret)) of
             (w, err) \<Rightarrow>
               ((w, snd s @ [WroteConfig desired]),
                case err of None \<Rightarrow> Inr cfg | Some e \<Rightarrow> Inl (Wrap ''reconcile configuration secret'' e))))"

definition reconcileService ::
  "('w, 'sel, 'x, 'm) gateway_kube_scheme \<Rightarrow> ('sel, 'x) MailoutGateway \<Rightarrow> Config \<Rightarrow>
   ('w, 'sel, 'x) rstate \<Rightarrow> ('w, 'sel, 'x) rstate \<times> go_error option" where
  "reconcileService K gw cfg s =
     (let desired = render_Service gw cfg in
      case kb_Service K (fst s) (om_Namespace (svc_Meta desired)) (om_Name (svc_Meta desired))
             (mutate_Service K gw desired) of
        (w, err) \<Rightarrow> ((w, snd s @ [WroteService desired]), map_option (Wrap ''reconcile service'') err))"

definition reconcileMetricsNetworkPolicy ::
  "('w, 'sel, 'x, 'm) gateway_kube_scheme \<Rightarrow> ('sel, 'x) MailoutGateway \<Rightarrow> Config \<Rightarrow>
   ('w, 'sel, 'x) rstate \<Rightarrow> ('w, 'sel, 'x) rstate \<times> go_error option" where
  "reconcileMetricsNetworkPolicy K gw cfg s =
     (case MetricsNetworkPolicy gw cfg of
        None \<Rightarrow>
          (case kb_DeletePolicy K (fst s) (gw_Namespace gw) (MetricsNetworkPolicyName (gw_Name gw)) of
             (w, r) \<Rightarrow>
               ((w, snd s @ [RemovedPolicy (gw_Namespace gw) (MetricsNetworkPolicyName (gw_Name gw))]),
                case r of Failed err \<Rightarrow> Some (Wrap ''remove metrics network policy'' err) | _ \<Rightarrow> None))
      | Some desired \<Rightarrow>
          (case kb_Policy K (fst s) (om_Namespace (pol_Meta desired)) (om_Name (pol_Meta desired))
                  (mutate_Policy K gw desired) of
             (w, err) \<Rightarrow> ((w, snd s @ [WrotePolicy desired]),
                          map_option (Wrap ''reconcile metrics network policy'') err)))"

definition reconcile_monitor ::
  "('w, 'sel, 'x, 'm) gateway_kube_scheme \<Rightarrow> ('sel, 'x) MailoutGateway \<Rightarrow>
   ('w, 'sel, 'x) rstate \<Rightarrow> ('w, 'sel, 'x) rstate \<times> go_error option" where
  "reconcile_monitor K gw s =
     (let desired = render_ServiceMonitor gw in
      case kb_Monitor K (fst s) (om_Namespace (mon_Meta desired)) (om_Name (mon_Meta desired))
             (mutate_Monitor K gw desired) of
        (w, err) \<Rightarrow> ((w, snd s @ [WroteMonitor desired]), map_option (Wrap ''reconcile service monitor'') err))"

definition reconcileMetrics ::
  "('w, 'sel, 'x, 'm) gateway_kube_scheme \<Rightarrow> GatewayReconciler \<Rightarrow> ('sel, 'x) MailoutGateway \<Rightarrow> Config \<Rightarrow>
   ('w, 'sel, 'x) rstate \<Rightarrow> ('w, 'sel, 'x) rstate \<times> go_error option" where
  "reconcileMetrics K R gw cfg s =
     (let desired = MetricsService gw in
      case kb_Service K (fst s) (om_Namespace (svc_Meta desired)) (om_Name (svc_Meta desired))
             (mutate_MetricsService K gw desired) of
        (w, Some err) \<Rightarrow> ((w, snd s @ [WroteService desired]), Some (Wrap ''reconcile metrics service'' err))
      | (w, None) \<Rightarrow>
          (case reconcileMetricsNetworkPolicy K gw cfg (w, snd s @ [WroteService desired]) of
             (s, Some err) \<Rightarrow> (s, Some err)
           | (s, None) \<Rightarrow>
               if rec_PrometheusOperatorAvailable R then reconcile_monitor K gw s else (s, None)))"

definition gatewayImage :: "GatewayReconciler \<Rightarrow> ('sel, 'x) MailoutGateway \<Rightarrow> string" where
  "gatewayImage R gw =
     (if dep_Image (gs_Deployment (gw_Spec gw)) \<noteq> [] then dep_Image (gs_Deployment (gw_Spec gw))
      else rec_GatewayImage R)"

definition reconcileDeployment ::
  "('w, 'sel, 'x, 'm) gateway_kube_scheme \<Rightarrow> GatewayReconciler \<Rightarrow> ('sel, 'x) MailoutGateway \<Rightarrow> Config \<Rightarrow>
   ResolvedAccount list \<Rightarrow> ('w, 'sel, 'x) rstate \<Rightarrow> ('w, 'sel, 'x) rstate \<times> 'x Deployment result" where
  "reconcileDeployment K R gw cfg accounts s =
     (case render_Deployment (kb_sha256 K) gw cfg accounts (gatewayImage R gw) of
        None \<Rightarrow> (s, Inl (Plain ''runtime error: index out of range''))
      | Some desired \<Rightarrow>
          (case kb_Deployment K (fst s) (om_Namespace (dpl_Meta desired)) (om_Name (dpl_Meta desired))
                  (mutate_Deployment K gw desired) of
             (w, Inl err) \<Rightarrow>
               ((w, snd s @ [WroteDeployment desired]), Inl (Wrap ''reconcile deployment'' err))
           | (w, Inr deployment) \<Rightarrow> ((w, snd s @ [WroteDeployment desired]), Inr deployment)))"


section \<open>Status\<close>

definition patch_gateway ::
  "('w, 'sel, 'x, 'm) gateway_kube_scheme \<Rightarrow> ('sel, 'x) MailoutGateway \<Rightarrow>
   ('w, 'sel, 'x) rstate \<Rightarrow> ('w, 'sel, 'x) rstate \<times> go_error option" where
  "patch_gateway K gw s =
     (case kb_PatchGateway K (fst s) gw of (w, err) \<Rightarrow> ((w, snd s @ [PatchedGateway gw]), err))"

definition gateway_updated ::
  "('w, 'sel, 'x, 'm) gateway_kube_scheme \<Rightarrow> ('sel, 'x) MailoutGateway \<Rightarrow> Config \<Rightarrow> ResolvedAccount list \<Rightarrow>
   'x Deployment \<Rightarrow> ('sel, 'x) MailoutGateway" where
  "gateway_updated K gw cfg accounts deployment =
     (let gen = om_Generation (gw_Meta gw);
          conditions = setCondition K ConditionAccepted ''True'' ReasonAccepted
            ''Gateway configuration is valid'' gen (gst_Conditions (gw_Status gw));
          conditions =
            (if dpl_AvailableReplicas deployment > 0
             then setCondition K ConditionReady ''True'' ReasonReady
                    (show_int (dpl_AvailableReplicas deployment) @ '' replica(s) available'') gen conditions
             else setCondition K ConditionReady ''False'' ReasonDeploymentNotReady
                    ''Waiting for the gateway pods to become available'' gen conditions)
      in
      gw\<lparr>gw_Status :=
        \<lparr>gst_Conditions = conditions, gst_ObservedGeneration = gen,
         gst_AcceptedAccounts = int32 (int (length accounts)),
         gst_Listeners = ListenerStatuses cfg, gst_ServiceName = gw_Name gw\<rparr>\<rparr>)"

definition updateStatus ::
  "('w, 'sel, 'x, 'm) gateway_kube_scheme \<Rightarrow> ('sel, 'x) MailoutGateway \<Rightarrow> Config \<Rightarrow> ResolvedAccount list \<Rightarrow>
   'x Deployment \<Rightarrow> ('w, 'sel, 'x) rstate \<Rightarrow> ('w, 'sel, 'x) rstate \<times> go_error option" where
  "updateStatus K gw cfg accounts deployment s =
     patch_gateway K (gateway_updated K gw cfg accounts deployment) s"

definition gateway_failed ::
  "('w, 'sel, 'x, 'm) gateway_kube_scheme \<Rightarrow> ('sel, 'x) MailoutGateway \<Rightarrow> string \<Rightarrow> string \<Rightarrow> ('sel, 'x) MailoutGateway" where
  "gateway_failed K gw reason message =
     (let gen = om_Generation (gw_Meta gw); st = gw_Status gw in
      gw\<lparr>gw_Status := st\<lparr>gst_ObservedGeneration := gen, gst_Conditions :=
        setCondition K ConditionReady ''False'' reason message gen
          (setCondition K ConditionAccepted ''False'' reason message gen (gst_Conditions st))\<rparr>\<rparr>)"

text \<open>The text of an error, as it is printed into a condition. Of the error of \<^verbatim>\<open>Validate\<close> only the first line is
  kept below.\<close>

fun error_text :: "go_error \<Rightarrow> string" where
  "error_text (Plain s) = s"
| "error_text (Sentinel s) = s"
| "error_text (Wrap s e) = s @ '': '' @ error_text e"
| "error_text (SMTPErr e) = se_Message e"
| "error_text ErrDiscard = ''message discarded by filter''"
| "error_text ErrAuthFailed = ''authentication failed''"
| "error_text ErrAccountDisabled = ''account is disabled''"

definition gateway_markFailed ::
  "('w, 'sel, 'x, 'm) gateway_kube_scheme \<Rightarrow> ('sel, 'x) MailoutGateway \<Rightarrow> string \<Rightarrow> string \<Rightarrow>
   ('w, 'sel, 'x) rstate \<Rightarrow> ('w, 'sel, 'x) rstate \<times> int result" where
  "gateway_markFailed K gw reason message s =
     and_then (patch_gateway K (gateway_failed K gw reason message) s) (\<lambda>s. (s, Inr 0))"


section \<open>Reconciliation\<close>

definition publish ::
  "('w, 'sel, 'x, 'm) gateway_kube_scheme \<Rightarrow> GatewayReconciler \<Rightarrow> ('sel, 'x) MailoutGateway \<Rightarrow> Config \<Rightarrow>
   ResolvedAccount list \<Rightarrow> ('w, 'sel, 'x) rstate \<Rightarrow> ('w, 'sel, 'x) rstate \<times> int result" where
  "publish K R gw cfg accounts s =
     and_then (reconcileCertificate K R gw s) (\<lambda>s.
     case reconcileConfigSecret K gw cfg s of
       (s, Inl err) \<Rightarrow> (s, Inl err)
     | (s, Inr cfg) \<Rightarrow>
     and_then (reconcileService K gw cfg s) (\<lambda>s.
     and_then (reconcileMetrics K R gw cfg s) (\<lambda>s.
     case reconcileDeployment K R gw cfg accounts s of
       (s, Inl err) \<Rightarrow> (s, Inl err)
     | (s, Inr deployment) \<Rightarrow>
     and_then (updateStatus K gw cfg accounts deployment s) (\<lambda>s. (s, Inr resyncInterval)))))"

definition empty_input :: "('sel, 'x) MailoutGateway \<Rightarrow> ResolvedAccount list \<Rightarrow> ('sel, 'x) Input" where
  "empty_input gw accounts =
     \<lparr>in_Gateway = Some gw, in_Accounts = accounts, in_UpstreamUsername = [], in_UpstreamPassword = [],
      in_UpstreamCAPEM = [],
      in_RateLimitStore = \<lparr>rlc_Username = [], rlc_Password = [], rlc_SentinelUsername = [],
                           rlc_SentinelPassword = [], rlc_CAPEM = []\<rparr>,
      in_MetricsToken = []\<rparr>"

definition gateway_Reconcile ::
  "('w, 'sel, 'x, 'm) gateway_kube_scheme \<Rightarrow> GatewayReconciler \<Rightarrow> string \<Rightarrow> string \<Rightarrow> 'w \<Rightarrow>
   ('w, 'sel, 'x) rstate \<times> int result" where
  "gateway_Reconcile K R namespace name w =
     (case rd_Gateway (kb_Client K) w namespace name of
        (w, NotFound _) \<Rightarrow> ((w, []), Inr 0)
      | (w, Failed err) \<Rightarrow> ((w, []), Inl err)
      | (w, Found gw) \<Rightarrow>
     if gw_Namespace gw \<noteq> rec_OperatorNamespace R then
       gateway_markFailed K gw ReasonInvalidSpec
         (''gateways are only served in the operator namespace ('' @ rec_OperatorNamespace R @ '')'') (w, [])
     else
     (case collectAccounts K (rec_OperatorNamespace R) gw w of
        (w, Inl err) \<Rightarrow> ((w, []), Inl err)
      | (w, Inr accounts) \<Rightarrow>
     (case resolveSecrets K gw (empty_input gw accounts) w of
        (w, Inl err) \<Rightarrow> gateway_markFailed K gw ReasonSecretMissing (error_text err) (w, [])
      | (w, Inr inp) \<Rightarrow>
     (case metricsToken K gw w of
        (w, Inl err) \<Rightarrow> ((w, []), Inl err)
      | (w, Inr token) \<Rightarrow>
     (case GatewayConfig (kb_SortAccounts K) (inp\<lparr>in_MetricsToken := token\<rparr>) of
        Inl err \<Rightarrow> gateway_markFailed K gw ReasonInvalidSpec (error_text err) (w, [])
      | Inr cfg \<Rightarrow>
          if Validate cfg \<noteq> [] then
            gateway_markFailed K gw ReasonInvalidSpec ''invalid gateway configuration'' (w, [])
          else publish K R gw cfg accounts (w, []))))))"

definition gatewayForAccountSecret :: "GatewayReconciler \<Rightarrow> labels \<Rightarrow> (string \<times> string) list" where
  "gatewayForAccountSecret R ls =
     (let name = (case ls LabelGatewayName of None \<Rightarrow> [] | Some n \<Rightarrow> n);
          namespace = (case ls LabelGatewayNamespace of None \<Rightarrow> [] | Some n \<Rightarrow> n)
      in if name = [] then []
         else [(if namespace = [] then rec_OperatorNamespace R else namespace, name)])"

definition gatewayForAccount :: "GatewayReconciler \<Rightarrow> MailoutAccount \<Rightarrow> (string \<times> string) list" where
  "gatewayForAccount R account =
     [(GatewayNamespaceFor account (rec_OperatorNamespace R), gr_Name (as_GatewayRef (ma_Spec account)))]"


section \<open>What is collected was granted\<close>

lemma collect_account_law:
  assumes "collect_account K ons gw account w = (w', Inr (Some r))"
  shows "on_gateway ons gw account \<and>
         (\<exists>w1 w2. namespaceAllowed (kb_Selectors K) (kb_Client K) gw (ma_Namespace account) w1 = (w2, Inr True)) \<and>
         (\<exists>hash l. hash \<noteq> [] \<and>
            r = resolved_account (kb_unicode K) account hash (granted_to (kb_Selectors K) gw l) \<and>
            (no_selector (gs_AllowedSenders (gw_Spec gw)) \<or> labels_read (kb_Client K) (ma_Namespace account) l))"
proof -
  obtain w1 w2 secret w3 lo granted where
    a: "on_gateway ons gw account"
      "namespaceAllowed (kb_Selectors K) (kb_Client K) gw (ma_Namespace account) w = (w1, Inr True)"
      "rd_Secret (kb_Client K) w1 (ma_Namespace account) (ref_Name (as_SecretRef (ma_Spec account))) =
         (w2, Found secret)"
      "secret_key secret PasswordHashKey \<noteq> []"
      "grantedSenders (kb_Selectors K) (kb_Client K) gw (ma_Namespace account) None w2 = (w3, Inr (lo, granted))"
      "r = resolved_account (kb_unicode K) account (secret_key secret PasswordHashKey) granted"
    using assms by (auto simp: collect_account_def Let_def split: if_splits prod.splits sum.splits bool.splits got.splits)
  obtain l where "granted = granted_to (kb_Selectors K) gw l"
    "no_selector (gs_AllowedSenders (gw_Spec gw)) \<or> namespaceLabels (kb_Client K) (ma_Namespace account) w2 = (w3, Inr l)"
    using grantedSenders_law [OF a(5)] by blast
  then show ?thesis using a(1,2,4,6) unfolding labels_read_def by blast
qed

lemma collect_loop_law:
  assumes "collect_loop K ons gw accounts w = (w', Inr rs)" "r \<in> set rs"
  shows "\<exists>account \<in> set accounts. \<exists>w1 w2. collect_account K ons gw account w1 = (w2, Inr (Some r))"
  using assms
proof (induction accounts arbitrary: w rs w')
  case (Cons a as)
  obtain w1 found w2 rest where c: "collect_account K ons gw a w = (w1, Inr found)"
    "collect_loop K ons gw as w1 = (w2, Inr rest)" "rs = (case found of None \<Rightarrow> rest | Some x \<Rightarrow> x # rest)"
    using Cons.prems(1) by (auto split: prod.splits sum.splits)
  show ?case
  proof (cases "r \<in> set rest")
    case True
    then show ?thesis using Cons.IH [OF c(2)] by auto
  next
    case False
    then have "found = Some r" using c(3) Cons.prems(2) by (auto split: option.splits)
    then show ?thesis using c(1) by auto
  qed
qed simp

text \<open>What an account of the configuration stands for: a resource on this gateway whose namespace may
  attach, and the labels its grant was resolved with.\<close>

definition stands_for ::
  "('w, 'sel, 'x, 'm) gateway_kube_scheme \<Rightarrow> string \<Rightarrow> ('sel, 'x) MailoutGateway \<Rightarrow> MailoutAccount list \<Rightarrow>
   ResolvedAccount \<Rightarrow> MailoutAccount \<Rightarrow> labels \<Rightarrow> bool" where
  "stands_for K ons gw accounts r account l \<longleftrightarrow>
     account \<in> set accounts \<and> on_gateway ons gw account \<and> ra_Username r = UsernameFor account \<and>
     ra_SkipHeaderFromCheck r = (as_EnforceHeaderFrom (ma_Spec account) = Some False) \<and>
     (\<exists>w1 w2. namespaceAllowed (kb_Selectors K) (kb_Client K) gw (ma_Namespace account) w1 = (w2, Inr True)) \<and>
     (no_selector (gs_AllowedSenders (gw_Spec gw)) \<or> labels_read (kb_Client K) (ma_Namespace account) l) \<and>
     subsumed (newSenderPolicy (kb_unicode K) (ra_AllowedSenders r))
            (newSenderPolicy (kb_unicode K) (granted_to (kb_Selectors K) gw l))"

lemma collected_stands_for:
  assumes U: "unicode_laws (kb_unicode K)"
    and list: "rd_Accounts (kb_Client K) w = (w1, Inr accounts)"
    and run: "collectAccounts K ons gw w = (w', Inr rs)" and r: "r \<in> set rs"
  shows "\<exists>account l. stands_for K ons gw accounts r account l"
proof -
  have "collect_loop K ons gw accounts w1 = (w', Inr rs)" using run list by (simp add: collectAccounts_def)
  from collect_loop_law [OF this r] obtain account w2 w3 where
    a: "account \<in> set accounts" "collect_account K ons gw account w2 = (w3, Inr (Some r))" by blast
  obtain hash l where h: "r = resolved_account (kb_unicode K) account hash (granted_to (kb_Selectors K) gw l)"
    "no_selector (gs_AllowedSenders (gw_Spec gw)) \<or> labels_read (kb_Client K) (ma_Namespace account) l"
    using collect_account_law [OF a(2)] by blast
  have "subsumed (newSenderPolicy (kb_unicode K) (ra_AllowedSenders r))
          (newSenderPolicy (kb_unicode K) (granted_to (kb_Selectors K) gw l))"
    using subsumed_GrantedSubset [OF U] by (simp add: h(1) resolved_account_def)
  then show ?thesis
    using a(1) h collect_account_law [OF a(2)] unfolding stands_for_def
    by (auto simp: resolved_account_def)
qed

text \<open>C4: No account is rendered with more than its namespace was granted: every account collected for a
  gateway is a resource that refers to this gateway, from a namespace the gateway takes accounts
  from, and it may send from an address or have a domain signed only if the gateway's owner granted
  that to the namespace, through a grant that applies to the labels the namespace has.\<close>

theorem collected_accounts_granted:
  assumes U: "unicode_laws (kb_unicode K)"
    and list: "rd_Accounts (kb_Client K) w = (w1, Inr accounts)"
    and run: "collectAccounts K ons gw w = (w', Inr rs)" and r: "r \<in> set rs"
  shows "\<exists>account l.
           account \<in> set accounts \<and> on_gateway ons gw account \<and> ra_Username r = UsernameFor account \<and>
           (\<exists>w1 w2. namespaceAllowed (kb_Selectors K) (kb_Client K) gw (ma_Namespace account) w1 = (w2, Inr True)) \<and>
           (no_selector (gs_AllowedSenders (gw_Spec gw)) \<or> labels_read (kb_Client K) (ma_Namespace account) l) \<and>
           (\<forall>address. allows (kb_unicode K) (newSenderPolicy (kb_unicode K) (ra_AllowedSenders r)) address \<longrightarrow>
              allows (kb_unicode K) (newSenderPolicy (kb_unicode K) (granted_to (kb_Selectors K) gw l)) address) \<and>
           (\<forall>domain. canSign (kb_unicode K) (newSenderPolicy (kb_unicode K) (ra_AllowedSenders r)) domain \<longrightarrow>
              canSign (kb_unicode K) (newSenderPolicy (kb_unicode K) (granted_to (kb_Selectors K) gw l)) domain)"
  using collected_stands_for [OF assms] subsumed_allows subsumed_canSign unfolding stands_for_def by meson


section \<open>What is published\<close>

definition log_of :: "('w, 'sel, 'x) rstate \<times> 'a \<Rightarrow> ('sel, 'x) kube_write list" where
  "log_of r = snd (fst r)"

lemma Validate_accounts: "Validate (cfg\<lparr>cfg_Accounts := as\<rparr>) = Validate cfg"
  by (simp add: Validate_def)

lemma set_without: "set (without as gone) \<subseteq> set as"
  by (auto simp: without_def in_set_enumerate_eq)

lemma drop_loop_kept: "drop_loop m cfg b gone ns order = Some (kept, ns') \<Longrightarrow> set kept \<subseteq> set (cfg_Accounts cfg)"
  by (induction order arbitrary: gone ns)
     (auto simp: Let_def dest: set_without [THEN subsetD] split: sum.splits if_splits)

lemma FitAccounts_only_accounts:
  "\<exists>as. fst (FitAccounts m ma srt cfg b) = cfg\<lparr>cfg_Accounts := as\<rparr> \<and> set as \<subseteq> set (cfg_Accounts cfg)"
proof -
  have "\<exists>as. cfg = cfg\<lparr>cfg_Accounts := as\<rparr> \<and> set as \<subseteq> set (cfg_Accounts cfg)"
    by (rule exI [of _ "cfg_Accounts cfg"]) simp
  then show ?thesis
    by (auto simp: FitAccounts_def dest: drop_loop_kept split: sum.splits option.splits)
qed

text \<open>What each step records. After the configuration Secret, only other kinds of objects are written.\<close>

fun other_write :: "('sel, 'x) kube_write \<Rightarrow> bool" where
  "other_write (WroteConfig _) = False"
| "other_write (WroteCertificate _) = False"
| "other_write _ = True"

lemma log_Certificate:
  "\<exists>certs. snd (fst (reconcileCertificate K R gw s)) = snd s @ certs \<and> set certs \<subseteq> range WroteCertificate"
  by (auto simp: reconcileCertificate_def split: option.splits prod.splits)

definition grows :: "('sel, 'x) kube_write list \<Rightarrow> ('w, 'sel, 'x) rstate \<Rightarrow> bool" where
  "grows log s \<longleftrightarrow> (\<exists>ws. snd s = log @ ws \<and> list_all other_write ws)"

lemma grows_refl: "grows (snd s) s"
  by (simp add: grows_def)

lemma grows_snoc: "grows log s \<Longrightarrow> other_write x \<Longrightarrow> grows log (w, snd s @ [x])"
  by (auto simp: grows_def)

lemma grows_steps:
  assumes "grows log s"
  shows "grows log (fst (reconcileService K gw cfg s))"
    and "grows log (fst (reconcileMetricsNetworkPolicy K gw cfg s))"
    and "grows log (fst (reconcile_monitor K gw s))"
    and "grows log (fst (reconcileDeployment K R gw cfg accounts s))"
    and "grows log (fst (patch_gateway K gw s))"
  using assms
  by (auto simp: reconcileService_def reconcileMetricsNetworkPolicy_def reconcile_monitor_def
      reconcileDeployment_def patch_gateway_def Let_def intro!: grows_snoc
      split: option.splits prod.splits sum.splits)

lemma grows_metrics:
  assumes "grows log s"
  shows "grows log (fst (reconcileMetrics K R gw cfg s))"
proof -
  obtain w err where k: "kb_Service K (fst s) (om_Namespace (svc_Meta (MetricsService gw)))
      (om_Name (svc_Meta (MetricsService gw))) (mutate_MetricsService K gw (MetricsService gw)) = (w, err)"
    by fastforce
  have g: "grows log (w, snd s @ [WroteService (MetricsService gw)])" using assms by (simp add: grows_snoc)
  obtain s2 err2 where p: "reconcileMetricsNetworkPolicy K gw cfg (w, snd s @ [WroteService (MetricsService gw)]) = (s2, err2)"
    by fastforce
  have "grows log s2" using grows_steps(2) [OF g, of K gw cfg] p by simp
  then show ?thesis using k p g grows_steps(3) [of log s2 K gw]
    by (auto simp: reconcileMetrics_def Let_def split: option.splits)
qed

lemma grows_and_then:
  "grows log (fst r) \<Longrightarrow> (\<And>s. grows log s \<Longrightarrow> grows log (fst (f s))) \<Longrightarrow> grows log (fst (and_then r f))"
  by (cases r) (auto simp: and_then_def split: option.splits)

lemma grows_case:
  "grows log (fst r) \<Longrightarrow> (\<And>s x. grows log s \<Longrightarrow> grows log (fst (f s x))) \<Longrightarrow>
   grows log (fst (case r of (s, Inl err) \<Rightarrow> (s, Inl err) | (s, Inr x) \<Rightarrow> f s x))"
  by (cases r) (auto split: sum.splits)

definition fitted_config :: "('w, 'sel, 'x, 'm) gateway_kube_scheme \<Rightarrow> Config \<Rightarrow> Config" where
  "fitted_config K cfg =
     fst (FitAccounts (kb_Marshal K) (kb_MarshalAccount K) (kb_SortWeights K) cfg ConfigBudget)"

lemma publish_log:
  "\<exists>certs rest. snd (fst (publish K R gw cfg accounts (w, []))) = certs @ rest \<and>
     set certs \<subseteq> range WroteCertificate \<and>
     (rest = [] \<or> (\<exists>rendered others.
        kb_Marshal K (fitted_config K cfg) = Inr rendered \<and>
        rest = WroteConfig (ConfigSecret gw rendered (mc_Token (cfg_Metrics (fitted_config K cfg)))) # others \<and>
        list_all other_write others))"
proof -
  obtain s1 e1 certs where c: "reconcileCertificate K R gw (w, []) = (s1, e1)"
    and certs: "snd s1 = certs" "set certs \<subseteq> range WroteCertificate"
    using log_Certificate [of K R gw "(w, [])"] by (metis append_Nil fst_conv snd_conv surj_pair)
  let ?secret = "\<lambda>rendered. ConfigSecret gw rendered (mc_Token (cfg_Metrics (fitted_config K cfg)))"
  obtain s2 r2 where c2: "reconcileConfigSecret K gw cfg s1 = (s2, r2)" by fastforce
  have sec: "(s2 = s1 \<and> isl r2) \<or>
      (\<exists>rendered. kb_Marshal K (fitted_config K cfg) = Inr rendered \<and> snd s2 = certs @ [WroteConfig (?secret rendered)])"
    using c2 certs(1)
    by (auto simp: reconcileConfigSecret_def fitted_config_def Let_def split: sum.splits prod.splits)
  have grow: "grows (snd s2) (fst (and_then (reconcileService K gw cfg2 s2) (\<lambda>s.
     and_then (reconcileMetrics K R gw cfg2 s) (\<lambda>s.
     case reconcileDeployment K R gw cfg2 accounts s of
       (s, Inl err) \<Rightarrow> (s, Inl err)
     | (s, Inr deployment) \<Rightarrow>
     and_then (updateStatus K gw cfg2 accounts deployment s) (\<lambda>s. (s, Inr resyncInterval))))))" for cfg2
    by (intro grows_and_then grows_case grows_steps grows_metrics grows_refl)
       (auto simp: updateStatus_def intro: grows_and_then grows_steps)
  consider (failed) "e1 \<noteq> None" | (unwritten) "e1 = None" "isl r2" | (written) cfg2 where "e1 = None" "r2 = Inr cfg2"
    by (cases e1; cases r2) auto
  then show ?thesis
  proof cases
    case failed
    then have "fst (publish K R gw cfg accounts (w, [])) = s1" using c by (auto simp: publish_def and_then_def)
    then show ?thesis using certs by (intro exI [of _ certs] exI [of _ "[]"]) simp
  next
    case unwritten
    then have "fst (publish K R gw cfg accounts (w, [])) = s2"
      using c c2 by (auto simp: publish_def and_then_def isl_def)
    with sec certs consider "snd (fst (publish K R gw cfg accounts (w, []))) = certs"
      | rendered where "kb_Marshal K (fitted_config K cfg) = Inr rendered"
        "snd (fst (publish K R gw cfg accounts (w, []))) = certs @ [WroteConfig (?secret rendered)]" by auto
    then show ?thesis
    proof cases
      case 1
      then show ?thesis using certs(2) by (intro exI [of _ certs] exI [of _ "[]"]) simp
    next
      case (2 rendered)
      then show ?thesis using certs(2)
        by (intro exI [of _ certs] exI [of _ "[WroteConfig (?secret rendered)]"]) simp
    qed
  next
    case written
    have "fst (publish K R gw cfg accounts (w, [])) = fst (and_then (reconcileService K gw cfg2 s2) (\<lambda>s.
       and_then (reconcileMetrics K R gw cfg2 s) (\<lambda>s.
       case reconcileDeployment K R gw cfg2 accounts s of
         (s, Inl err) \<Rightarrow> (s, Inl err)
       | (s, Inr deployment) \<Rightarrow>
       and_then (updateStatus K gw cfg2 accounts deployment s) (\<lambda>s. (s, Inr resyncInterval)))))"
      unfolding publish_def c written(1) and_then_def [of "(s1, None)"] by (simp add: c2 written(2))
    then obtain others where "snd (fst (publish K R gw cfg accounts (w, []))) = snd s2 @ others"
      "list_all other_write others"
      using grow [of cfg2] unfolding grows_def by metis
    moreover obtain rendered where "kb_Marshal K (fitted_config K cfg) = Inr rendered"
      "snd s2 = certs @ [WroteConfig (?secret rendered)]"
      using sec written(2) by auto
    ultimately show ?thesis using certs(2)
      by (intro exI [of _ certs] exI [of _ "WroteConfig (?secret rendered) # others"]) simp
  qed
qed

lemma fitted_config_law:
  "Validate (fitted_config K cfg) = Validate cfg \<and> cfg_Metrics (fitted_config K cfg) = cfg_Metrics cfg \<and>
   set (cfg_Accounts (fitted_config K cfg)) \<subseteq> set (cfg_Accounts cfg)"
  using FitAccounts_only_accounts [of "kb_Marshal K" "kb_MarshalAccount K" "kb_SortWeights K" cfg ConfigBudget]
  by (auto simp: fitted_config_def Validate_accounts)

lemma markFailed_log: "snd (fst (gateway_markFailed K gw reason message (w, []))) = [PatchedGateway (gateway_failed K gw reason message)]"
  by (auto simp: gateway_markFailed_def patch_gateway_def and_then_def split: prod.splits option.splits)

text \<open>How a reconciliation ends: it publishes a valid configuration, or it writes nothing but a status.\<close>

lemma resolve_steps:
  "resolve_upstream_auth K gw inp w = (w', Inr inp') \<Longrightarrow> in_Accounts inp' = in_Accounts inp \<and> in_Gateway inp' = in_Gateway inp"
  "resolveRateLimitSecrets K gw inp w = (w', Inr inp') \<Longrightarrow> in_Accounts inp' = in_Accounts inp \<and> in_Gateway inp' = in_Gateway inp"
  by (auto simp: resolve_upstream_auth_def resolveRateLimitSecrets_def Let_def
      split: option.splits prod.splits sum.splits if_splits)

lemma resolveSecrets_frame:
  assumes "resolveSecrets K gw inp w = (w', Inr inp')"
  shows "in_Accounts inp' = in_Accounts inp" "in_Gateway inp' = in_Gateway inp"
  using assms resolve_steps
  by (fastforce simp: resolveSecrets_def split: option.splits prod.splits sum.splits)+

lemma gateway_Reconcile_cases:
  assumes run: "gateway_Reconcile K R ns n w = (s, r)"
    and more: "x \<in> set (snd s)" "\<forall>gw. x \<noteq> PatchedGateway gw"
  shows "\<exists>gw w1 w2 w3 accounts inp cfg.
            rd_Gateway (kb_Client K) w ns n = (w1, Found gw) \<and> gw_Namespace gw = rec_OperatorNamespace R \<and>
            collectAccounts K (rec_OperatorNamespace R) gw w1 = (w2, Inr accounts) \<and>
            in_Accounts inp = accounts \<and> in_Gateway inp = Some gw \<and>
            GatewayConfig (kb_SortAccounts K) inp = Inr cfg \<and> Validate cfg = [] \<and>
            (s, r) = publish K R gw cfg accounts (w3, [])"
proof -
  have fail: False if "gateway_markFailed K gw reason message (w, []) = (s, r)" for gw reason message w
    using that more markFailed_log [of K gw reason message w] by (metis empty_iff empty_set fst_conv set_ConsD)
  obtain w1 gw where g: "rd_Gateway (kb_Client K) w ns n = (w1, Found gw)"
    using run more(1) by (auto simp: gateway_Reconcile_def split: prod.splits got.splits)
  have ns: "gw_Namespace gw = rec_OperatorNamespace R"
    using run g by (auto simp: gateway_Reconcile_def split: if_splits dest: fail)
  obtain w2 accounts where a: "collectAccounts K (rec_OperatorNamespace R) gw w1 = (w2, Inr accounts)"
    using run g ns more(1) by (cases "collectAccounts K (rec_OperatorNamespace R) gw w1")
      (auto simp: gateway_Reconcile_def split: sum.splits)
  obtain w3 inp where i: "resolveSecrets K gw (empty_input gw accounts) w2 = (w3, Inr inp)"
    using run g ns a by (cases "resolveSecrets K gw (empty_input gw accounts) w2")
      (auto simp: gateway_Reconcile_def split: sum.splits dest: fail)
  obtain w4 token where t: "metricsToken K gw w3 = (w4, Inr token)"
    using run g ns a i more(1) by (cases "metricsToken K gw w3")
      (auto simp: gateway_Reconcile_def split: sum.splits)
  obtain cfg where c: "GatewayConfig (kb_SortAccounts K) (inp\<lparr>in_MetricsToken := token\<rparr>) = Inr cfg"
    using run g ns a i t by (cases "GatewayConfig (kb_SortAccounts K) (inp\<lparr>in_MetricsToken := token\<rparr>)")
      (auto simp: gateway_Reconcile_def dest: fail)
  have v: "Validate cfg = []" "(s, r) = publish K R gw cfg accounts (w4, [])"
    using run g ns a i t c by (auto simp: gateway_Reconcile_def split: if_splits dest: fail)
  show ?thesis
    using g ns a c v resolveSecrets_frame [OF i]
    by (intro exI [of _ gw] exI [of _ w1] exI [of _ w2] exI [of _ w4] exI [of _ accounts]
        exI [of _ "inp\<lparr>in_MetricsToken := token\<rparr>"] exI [of _ cfg]) (simp add: empty_input_def)
qed

lemma config_written_once:
  assumes "set certs \<subseteq> range WroteCertificate" "list_all other_write others"
    and "k < length (certs @ WroteConfig secret # others)" "k \<noteq> length certs"
  shows "(certs @ WroteConfig secret # others) ! k \<noteq> WroteConfig other"
proof (cases "k < length certs")
  case True
  then have "(certs @ WroteConfig secret # others) ! k \<in> range WroteCertificate"
    using assms(1) nth_mem [of k certs] by (auto simp: nth_append)
  then show ?thesis by auto
next
  case False
  then have "(certs @ WroteConfig secret # others) ! k \<in> set others"
    using assms(3,4) by (auto simp: nth_append nth_Cons')
  then show ?thesis using assms(2) by (auto simp: list_all_iff)
qed

lemma published_accounts:
  fixes K :: "('w, 'sel, 'x, 'm) gateway_kube_scheme"
  assumes run: "gateway_Reconcile K R ns n w = (s, r)" and wrote: "WroteConfig secret \<in> set (snd s)"
  shows "\<exists>gw w1 w2 accounts cfg rendered.
           rd_Gateway (kb_Client K) w ns n = (w1, Found gw) \<and> gw_Namespace gw = rec_OperatorNamespace R \<and>
           collectAccounts K (rec_OperatorNamespace R) gw w1 = (w2, Inr accounts) \<and>
           set (cfg_Accounts cfg) \<subseteq> rendered_account ` set (kb_SortAccounts K accounts) \<and>
           kb_Marshal K cfg = Inr rendered \<and> sec_Data secret ConfigFileName = Some rendered"
proof -
  obtain gw w1 w2 w3 accounts and inp :: "('sel, 'x) Input" and cfg :: Config where
    g: "rd_Gateway (kb_Client K) w ns n = (w1, Found gw)" "gw_Namespace gw = rec_OperatorNamespace R"
      "collectAccounts K (rec_OperatorNamespace R) gw w1 = (w2, Inr accounts)"
      "in_Accounts inp = accounts" "GatewayConfig (kb_SortAccounts K) inp = Inr cfg"
      "(s, r) = publish K R gw cfg accounts (w3, [])"
    using gateway_Reconcile_cases [OF run wrote] by blast
  let ?cfg = "fitted_config K cfg"
  have "snd (fst (publish K R gw cfg accounts (w3, []))) = snd s" unfolding g(6) [symmetric] by simp
  then obtain certs rest where rest: "snd s = certs @ rest" "set certs \<subseteq> range WroteCertificate"
    "rest = [] \<or> (\<exists>rendered others. kb_Marshal K ?cfg = Inr rendered \<and>
        rest = WroteConfig (ConfigSecret gw rendered (mc_Token (cfg_Metrics ?cfg))) # others \<and>
        list_all other_write others)"
    using publish_log [of K R gw cfg accounts w3] by auto
  obtain rendered where r: "kb_Marshal K ?cfg = Inr rendered"
    "secret = ConfigSecret gw rendered (mc_Token (cfg_Metrics ?cfg))"
    using rest wrote by (fastforce simp: list_all_iff)
  have "set (cfg_Accounts ?cfg) \<subseteq> rendered_account ` set (kb_SortAccounts K accounts)"
    using fitted_config_law [of K cfg] GatewayConfig_accounts [OF g(5)] g(4) by auto
  moreover have "sec_Data secret ConfigFileName = Some rendered"
    by (simp add: r(2) ConfigSecret_def ConfigFileName_def MetricsTokenKey_def)
  ultimately show ?thesis using g(1-3) r(1) by blast
qed




section \<open>Finding the way back\<close>

text \<open>A change to an account's Secret reaches the gateway whose configuration holds its hash: the labels
  the account controller puts on the Secret lead to the same request as the account itself. And the
  metrics token published with a configuration is the one the next reconciliation renders.\<close>

theorem account_secret_finds_gateway:
  assumes "on_gateway (rec_OperatorNamespace R) gw account" "gw_Name gw \<noteq> []" "gw_Namespace gw \<noteq> []"
  shows "gatewayForAccountSecret R (om_Labels (sec_Meta
           (AccountSecret account username password hash endpoint (gw_Namespace gw)))) =
         gatewayForAccount R account"
  using assms
  by (simp add: gatewayForAccountSecret_def gatewayForAccount_def AccountSecret_def accountSecretLabels_def
      new_meta_def on_gateway_def LabelGatewayName_def LabelGatewayNamespace_def)

lemma metricsToken_kept:
  assumes "rd_Secret (kb_APIReader K) w (gw_Namespace gw) (ConfigSecretName (gw_Name gw)) =
             (w', Found (ConfigSecret gw rendered token))" "token \<noteq> []"
  shows "metricsToken K gw w = (w', Inr token)"
  using assms by (simp add: metricsToken_def ConfigSecret_def secret_key_def MetricsTokenKey_def Let_def)


section \<open>Samples\<close>

definition sample_secret :: Secret where
  "sample_secret =
     \<lparr>sec_Meta = sample_meta ''a'' ''creds'', sec_Type = ''kubernetes.io/basic-auth'',
      sec_Data = [''password'' \<mapsto> ''p'', PasswordHashKey \<mapsto> ''h'']\<rparr>"

definition sample_cluster :: "MailoutAccount list \<Rightarrow> (unit, string \<times> string, unit) reader" where
  "sample_cluster accounts = (sample_reader accounts)\<lparr>rd_Secret := \<lambda>w ns n. (w, Found sample_secret)\<rparr>"

text \<open>A client to which every write succeeds.\<close>

definition sample_kube :: "MailoutAccount list \<Rightarrow> (unit, string \<times> string, unit) gateway_kube" where
  "sample_kube accounts =
     \<lparr>kb_Client = sample_cluster accounts, kb_APIReader = sample_cluster accounts,
      kb_Selectors = sample_selectors,
      kb_Secret = \<lambda>w ns n f. (w, None), kb_SetOwner = \<lambda>owner meta. Inr meta,
      kb_SetStatusCondition = \<lambda>c cs. cs @ [c], kb_PatchAccount = \<lambda>w a. (w, None),
      kb_Rand = \<lambda>w. (w, Inr (replicate 24 7)), kb_bcrypt_Generate = \<lambda>p c. Inr (show_int c),
      kb_bcrypt_Cost = \<lambda>h. if h = ''h'' then Some 12 else Some (int (read_nat h)),
      kb_Certificate = \<lambda>w ns n f. (w, None), kb_Service = \<lambda>w ns n f. (w, None),
      kb_Monitor = \<lambda>w ns n f. (w, None), kb_Policy = \<lambda>w ns n f. (w, None),
      kb_DeletePolicy = \<lambda>w ns n. (w, Found ()),
      kb_Deployment = \<lambda>w ns n f. (w, Inl (Plain ''conflict'')),
      kb_PatchGateway = \<lambda>w gw. (w, None),
      kb_Marshal = sample_marshal, kb_MarshalAccount = sample_marshal_account,
      kb_SortAccounts = sort_key ra_Username, kb_SortWeights = sort_key, kb_sha256 = \<lambda>b. b,
      kb_unicode = ascii_unicode\<rparr>"

definition sample_reconciler :: GatewayReconciler where
  "sample_reconciler =
     \<lparr>rec_OperatorNamespace = ''mail'', rec_GatewayImage = ''mailout:1'', rec_CertManagerAvailable = False,
      rec_PrometheusOperatorAvailable = False\<rparr>"

abbreviation sample_accounts :: "MailoutAccount list" where
  "sample_accounts \<equiv> [sample_mailbox ''a'' ''app'' [''x@a.example'', ''y@b.example'']]"

lemma sample_collected:
  "collectAccounts (sample_kube sample_accounts) ''mail'' sample_gateway () =
     ((), Inr [\<lparr>ra_Username = ''a.app'', ra_PasswordHash = ''h'', ra_Disabled = False,
               ra_AllowedSenders = [''x@a.example''], ra_SkipHeaderFromCheck = False\<rparr>])"
  by code_simp

theorem collected_accounts_granted_witness:
  "\<exists>account \<in> set sample_accounts. UsernameFor account = ''a.app''"
proof -
  have U: "unicode_laws (kb_unicode (sample_kube sample_accounts))"
    using ascii_unicode_laws by (simp add: sample_kube_def)
  have l: "rd_Accounts (kb_Client (sample_kube sample_accounts)) () = ((), Inr sample_accounts)"
    by (simp add: sample_kube_def sample_cluster_def sample_reader_def)
  show ?thesis using collected_accounts_granted [OF U l sample_collected, of "hd [_]"] by auto
qed

theorem account_secret_finds_gateway_witness:
  "gatewayForAccountSecret sample_reconciler (om_Labels (sec_Meta
     (AccountSecret (sample_mailbox ''a'' ''app'' []) ''u'' ''p'' ''h'' \<lparr>ep_Host = [], ep_Port = 0, ep_TLS = []\<rparr> ''mail''))) =
   [(''mail'', ''gw'')]"
  using account_secret_finds_gateway [of sample_reconciler sample_gateway "sample_mailbox ''a'' ''app'' []" "''u''" "''p''" "''h''"
      "\<lparr>ep_Host = [], ep_Port = 0, ep_TLS = []\<rparr>"]
  by (simp add: on_gateway_def GatewayNamespaceFor_def gatewayForAccount_def sample_reconciler_def sample_mailbox_def
      sample_gateway_def sample_meta_def)




section \<open>Where the controller does less than it says\<close>

text \<open>The account controller refuses the younger of two accounts with one username, but nothing in
  \<^verbatim>\<open>collectAccounts\<close> looks at that: once its Secret holds a hash, which the tenant can write, the refused
  account is rendered beside the accepted one. Which of them the dataplane serves is then decided by
  the order of the list.\<close>

lemma refused_account_still_rendered:
  "snd (usernameConflict (sample_kube rivals) ''mail'' (rivals ! 1) sample_gateway ''a.app'' ()) = Inr ''a/app'' \<and>
   (case snd (collectAccounts (sample_kube rivals) ''mail'' sample_gateway ()) of
      Inl _ \<Rightarrow> False | Inr rs \<Rightarrow> map ra_Username rs = [''a.app'', ''a.app''])"
  by (rule conjI; code_simp)

text \<open>The status counts the accounts that were collected, not those that are served: of the two above the
  dataplane serves one.\<close>

lemma accepted_accounts_overcounted:
  "(case snd (collectAccounts (sample_kube rivals) ''mail'' sample_gateway ()) of
      Inl _ \<Rightarrow> False
    | Inr rs \<Rightarrow>
        (case GatewayConfig (sort_key ra_Username) (empty_input sample_gateway rs) of
           Inl _ \<Rightarrow> False
         | Inr cfg \<Rightarrow>
             length rs = 2 \<and> length (fst (PartitionAccounts (kb_bcrypt_Cost (sample_kube rivals)) cfg)) = 1))"
  by code_simp

lemma accepted_accounts_collected:
  "gst_AcceptedAccounts (gw_Status (gateway_updated K gw cfg accounts d)) = int32 (int (length accounts))"
  by (simp add: gateway_updated_def Let_def)

end
