(* ===== verification/Source.thy ===== *)
theory Source
  imports Reachability Config Go_Format
begin

text \<open>
  \<^verbatim>\<open>internal/source/file.go\<close>: reading the configuration from a file, and reloading it when anything it
  depends on changes. Reading the file, parsing YAML and the file watcher are parameters. The loop of
  \<^verbatim>\<open>Watch\<close> is a step relation: which of its channels is ready next is the environment's choice.
\<close>


section \<open>The file\<close>

record 'w source_env =
  src_ReadFile :: "'w \<Rightarrow> string \<Rightarrow> 'w \<times> bytes result"
  src_Unmarshal :: "bytes \<Rightarrow> Config result"
  src_NewWatcher :: "'w \<Rightarrow> 'w \<times> go_error option"
  src_Add :: "'w \<Rightarrow> string \<Rightarrow> 'w \<times> go_error option"

record File =
  file_path :: string
  file_debounce :: Duration

definition NewFile :: "string \<Rightarrow> File" where
  "NewFile path = \<lparr>file_path = path, file_debounce = 200 * 1000000\<rparr>"

definition Load :: "('w, 'm) source_env_scheme \<Rightarrow> File \<Rightarrow> 'w \<Rightarrow> 'w \<times> Config result" where
  "Load E f w =
     (case src_ReadFile E w (file_path f) of
        (w, Inl err) \<Rightarrow> (w, Inl (Wrap (''read '' @ file_path f) err))
      | (w, Inr raw) \<Rightarrow>
          (case src_Unmarshal E raw of
             Inl err \<Rightarrow> (w, Inl (Wrap (''parse '' @ file_path f) err))
           | Inr cfg \<Rightarrow> (w, Inr cfg)))"

definition config_paths :: "Config \<Rightarrow> string list" where
  "config_paths cfg =
     filter (\<lambda>p. p \<noteq> [])
       (concat (map (\<lambda>cert. [crt_CertFile cert, crt_KeyFile cert]) (tls_Certificates (cfg_TLS cfg))) @
        map dk_PrivateKeyFile (cfg_DKIM cfg))"

text \<open>The order a Go map is walked in is not specified; \<^verbatim>\<open>sort.Strings\<close> makes it irrelevant.\<close>

definition referencedDirs :: "File \<Rightarrow> Config option \<Rightarrow> string list" where
  "referencedDirs f cfg =
     sort (remdups (path_Dir (file_path f) #
       (case cfg of None \<Rightarrow> [] | Some c \<Rightarrow> map path_Dir (config_paths c))))"


section \<open>Watching\<close>

text \<open>The loop's variables: the directories watched, whether the debounce timer is running. The last two
  fields record what happened: the configurations handed to \<^verbatim>\<open>onChange\<close>, and the file events seen.\<close>

record watch_state =
  ws_watched :: "string set"
  ws_armed :: bool
  ws_delivered :: "Config list"
  ws_events :: nat

definition watch_dir ::
  "('w, 'm) source_env_scheme \<Rightarrow> string \<Rightarrow> string set \<times> 'w \<Rightarrow> string set \<times> 'w" where
  "watch_dir E dir s =
     (case s of
        (watched, w) \<Rightarrow>
          if dir \<in> watched then (watched, w)
          else (case src_Add E w dir of
                  (w, Some err) \<Rightarrow> (watched, w)
                | (w, None) \<Rightarrow> (insert dir watched, w)))"

definition syncWatches ::
  "('w, 'm) source_env_scheme \<Rightarrow> File \<Rightarrow> Config option \<Rightarrow> string set \<times> 'w \<Rightarrow> string set \<times> 'w" where
  "syncWatches E f cfg s = fold (watch_dir E) (referencedDirs f cfg) s"

definition watch_start ::
  "('w, 'm) source_env_scheme \<Rightarrow> File \<Rightarrow> 'w \<Rightarrow> (watch_state \<times> 'w) result" where
  "watch_start E f w =
     (case src_NewWatcher E w of
        (w, Some err) \<Rightarrow> Inl (Wrap ''create watcher'' err)
      | (w, None) \<Rightarrow>
          (case Load E f w of
             (w, current) \<Rightarrow>
               (case syncWatches E f (case current of Inl _ \<Rightarrow> None | Inr cfg \<Rightarrow> Some cfg) ({}, w) of
                  (watched, w) \<Rightarrow>
                    Inr (\<lparr>ws_watched = watched, ws_armed = False, ws_delivered = [], ws_events = 0\<rparr>, w))))"

text \<open>What the \<^verbatim>\<open>select\<close> can find ready. The first two end the loop; a timer that does not run never fires.\<close>

datatype watch_event = Cancelled | WatcherClosed | WatcherError | FileChanged | TimerFired

definition ready :: "watch_event \<Rightarrow> watch_state \<Rightarrow> bool" where
  "ready event st \<longleftrightarrow> (event = TimerFired \<longrightarrow> ws_armed st)"

definition watch_step ::
  "('w, 'm) source_env_scheme \<Rightarrow> File \<Rightarrow> watch_event \<Rightarrow> watch_state \<Rightarrow> 'w \<Rightarrow> (watch_state \<times> 'w) option" where
  "watch_step E f event st w =
     (case event of
        Cancelled \<Rightarrow> None
      | WatcherClosed \<Rightarrow> None
      | WatcherError \<Rightarrow> Some (st, w)
      | FileChanged \<Rightarrow> Some (st\<lparr>ws_armed := True, ws_events := Suc (ws_events st)\<rparr>, w)
      | TimerFired \<Rightarrow>
          let st = st\<lparr>ws_armed := False\<rparr> in
          (case Load E f w of
             (w, Inl err) \<Rightarrow> Some (st, w)
           | (w, Inr cfg) \<Rightarrow>
               (case syncWatches E f (Some cfg) (ws_watched st, w) of
                  (watched, w) \<Rightarrow>
                    Some (st\<lparr>ws_watched := watched, ws_delivered := ws_delivered st @ [cfg]\<rparr>, w))))"

text \<open>Between two steps of the loop the world moves on by itself: files are replaced, directories come and
  go. \<open>drift\<close> says how.\<close>

inductive watch_moves ::
  "('w, 'm) source_env_scheme \<Rightarrow> File \<Rightarrow> ('w \<Rightarrow> 'w \<Rightarrow> bool) \<Rightarrow> watch_state \<times> 'w \<Rightarrow> watch_state \<times> 'w \<Rightarrow> bool"
  for E :: "('w, 'm) source_env_scheme" and f :: File and drift :: "'w \<Rightarrow> 'w \<Rightarrow> bool" where
  handled: "ready event st \<Longrightarrow> watch_step E f event st w = Some (st', w') \<Longrightarrow>
    watch_moves E f drift (st, w) (st', w')"
| drifted: "drift w w' \<Longrightarrow> watch_moves E f drift (st, w) (st, w')"

inductive_cases watch_movesE: "watch_moves E f drift s s'"

definition watch_started :: "('w, 'm) source_env_scheme \<Rightarrow> File \<Rightarrow> watch_state \<times> 'w \<Rightarrow> bool" where
  "watch_started E f s \<longleftrightarrow> (\<exists>w. watch_start E f w = Inr s)"


section \<open>What is watched and what is delivered\<close>

lemma Load_read:
  assumes "Load E f w = (w', Inr cfg)"
  shows "\<exists>raw. src_ReadFile E w (file_path f) = (w', Inr raw) \<and> src_Unmarshal E raw = Inr cfg"
proof -
  obtain w1 r where r: "src_ReadFile E w (file_path f) = (w1, r)" by fastforce
  then show ?thesis using assms by (cases r) (auto simp: Load_def split: sum.splits)
qed

lemma set_referencedDirs:
  "set (referencedDirs f cfg) =
   insert (path_Dir (file_path f)) (case cfg of None \<Rightarrow> {} | Some c \<Rightarrow> path_Dir ` set (config_paths c))"
  by (auto simp: referencedDirs_def split: option.splits)

lemma referencedDirs_mono: "set (referencedDirs f None) \<subseteq> set (referencedDirs f cfg)"
  by (auto simp: set_referencedDirs)

text \<open>A watcher that can watch every directory.\<close>

definition watchable :: "('w, 'm) source_env_scheme \<Rightarrow> bool" where
  "watchable E \<longleftrightarrow> (\<forall>w dir. snd (src_Add E w dir) = None)"

lemma fold_watch_dir:
  assumes "watchable E"
  shows "fst (fold (watch_dir E) dirs s) = fst s \<union> set dirs"
proof (induction dirs arbitrary: s)
  case (Cons d ds)
  have "fst (watch_dir E d s) = insert d (fst s)"
    using assms by (auto simp: watch_dir_def watchable_def split: prod.splits option.splits) (metis option.distinct(1) snd_conv)+
  then show ?case using Cons by simp
qed simp

lemma fold_watch_dir_mono: "fst s \<subseteq> fst (fold (watch_dir E) dirs s)"
proof (induction dirs arbitrary: s)
  case (Cons d ds)
  have "fst s \<subseteq> fst (watch_dir E d s)" by (auto simp: watch_dir_def split: prod.splits option.splits)
  then show ?case using Cons [of "watch_dir E d s"] by auto
qed simp

definition loadable_config :: "('w, 'm) source_env_scheme \<Rightarrow> File \<Rightarrow> Config \<Rightarrow> bool" where
  "loadable_config E f cfg \<longleftrightarrow> (\<exists>w w'. Load E f w = (w', Inr cfg))"

definition watch_inv :: "('w, 'm) source_env_scheme \<Rightarrow> File \<Rightarrow> watch_state \<times> 'w \<Rightarrow> bool" where
  "watch_inv E f s \<longleftrightarrow>
     list_all (loadable_config E f) (ws_delivered (fst s)) \<and>
     length (ws_delivered (fst s)) + (if ws_armed (fst s) then 1 else 0) \<le> ws_events (fst s) \<and>
     (watchable E \<longrightarrow>
        set (referencedDirs f (if ws_delivered (fst s) = [] then None else Some (last (ws_delivered (fst s)))))
          \<subseteq> ws_watched (fst s))"

lemma watch_inv_world: "watch_inv E f (st, w) = watch_inv E f (st, w')"
  unfolding watch_inv_def fst_conv ..

lemma watch_start_inv:
  assumes "watch_started E f s"
  shows "watch_inv E f s"
proof -
  obtain w where run: "watch_start E f w = Inr s" using assms by (auto simp: watch_started_def)
  obtain w1 e w2 current where l: "src_NewWatcher E w = (w1, e)" "Load E f w1 = (w2, current)" by fastforce
  define cur where "cur = (case current of Inl _ \<Rightarrow> None | Inr cfg \<Rightarrow> Some cfg)"
  obtain watched w3 where sy: "syncWatches E f cur ({}, w2) = (watched, w3)" by fastforce
  have s: "s = (\<lparr>ws_watched = watched, ws_armed = False, ws_delivered = [], ws_events = 0\<rparr>, w3)"
    using run l sy by (simp add: watch_start_def cur_def split: option.splits)
  have "watchable E \<Longrightarrow> watched = set (referencedDirs f cur)"
    using fold_watch_dir [of E "referencedDirs f cur" "({}, w2)"] sy by (simp add: syncWatches_def)
  then show ?thesis using s referencedDirs_mono by (auto simp: watch_inv_def)
qed

lemma watch_step_inv:
  assumes inv: "watch_inv E f (st, w)" and on: "ready event st"
    and run: "watch_step E f event st w = Some (st', w')"
  shows "watch_inv E f (st', w')"
proof (cases event)
  case TimerFired
  obtain w1 r where l: "Load E f w = (w1, r)" by fastforce
  have armed: "ws_armed st" using on TimerFired by (simp add: ready_def)
  show ?thesis
  proof (cases r)
    case (Inl err)
    then show ?thesis using TimerFired armed l run inv by (auto simp: watch_step_def watch_inv_def)
  next
    case (Inr cfg)
    obtain watched w2 where sy: "syncWatches E f (Some cfg) (ws_watched st, w1) = (watched, w2)" by fastforce
    have st': "st' = st\<lparr>ws_armed := False, ws_watched := watched, ws_delivered := ws_delivered st @ [cfg]\<rparr>"
      using TimerFired l Inr sy run by (simp add: watch_step_def)
    have "watchable E \<Longrightarrow> set (referencedDirs f (Some cfg)) \<subseteq> watched"
      using fold_watch_dir [of E "referencedDirs f (Some cfg)" "(ws_watched st, w1)"] sy
      by (auto simp: syncWatches_def)
    moreover have "loadable_config E f cfg" using l Inr unfolding loadable_config_def by blast
    ultimately show ?thesis using inv armed by (simp add: st' watch_inv_def)
  qed
qed (use run inv in \<open>auto simp: watch_step_def watch_inv_def split: if_splits\<close>)

interpretation watch: invariant "watch_started E f" "watch_moves E f drift" "watch_inv E f" for E f drift
proof unfold_locales
  fix s s' assume inv: "watch_inv E f s" and move: "watch_moves E f drift s s'"
  from move show "watch_inv E f s'"
  proof cases
    case (handled event st w st' w')
    show ?thesis using handled inv watch_step_inv [of E f st w event st' w'] by simp
  next
    case (drifted w w' st)
    then show ?thesis using inv watch_inv_world [of E f st w w'] by simp
  qed
qed (rule watch_start_inv)


text \<open>A file that is there, in a directory that can be watched, and names one certificate.\<close>

definition sample_source :: "unit source_env" where
  "sample_source =
     \<lparr>src_ReadFile = \<lambda>w p. (w, Inr ''accounts:''),
      src_Unmarshal = \<lambda>raw. Inr sample_config,
      src_NewWatcher = \<lambda>w. (w, None),
      src_Add = \<lambda>w d. (w, None)\<rparr>"

definition sample_watch :: "watch_state" where
  "sample_watch =
     \<lparr>ws_watched = {''/etc/mailout'', ''/c''}, ws_armed = False,
      ws_delivered = [sample_config], ws_events = 2\<rparr>"

lemma sample_watch_reached:
  "reachable (watch_started sample_source (NewFile ''/etc/mailout/config.yaml''))
     (watch_moves sample_source (NewFile ''/etc/mailout/config.yaml'') (\<lambda>_ _. False)) (sample_watch, ())"
proof -
  let ?f = "NewFile ''/etc/mailout/config.yaml''" and ?w = "{''/etc/mailout'', ''/c''}"
  let ?st = "\<lambda>armed n. \<lparr>ws_watched = ?w, ws_armed = armed, ws_delivered = [], ws_events = n\<rparr>"
  let ?R = "reachable (watch_started sample_source ?f) (watch_moves sample_source ?f (\<lambda>_ _. False))"
  have dirs: "referencedDirs ?f (Some sample_config) = [''/c'', ''/etc/mailout'']"
    by code_simp
  have sync: "syncWatches sample_source ?f (Some sample_config) (ws, ()) = (ws \<union> ?w, ())" for ws
    unfolding syncWatches_def dirs by (auto simp: watch_dir_def sample_source_def)
  have load: "Load sample_source ?f () = ((), Inr sample_config)"
    by (simp add: Load_def sample_source_def)
  have "watch_started sample_source ?f (?st False 0, ())"
    unfolding watch_started_def watch_start_def
    by (rule exI [of _ "()"]) (simp add: load sync, simp add: sample_source_def)
  then have "?R (?st False 0, ())" by (rule reachable.start)
  then have "?R (?st True 1, ())"
    by (rule reachable.next_step) (rule watch_moves.handled [of FileChanged], simp_all add: watch_step_def ready_def)
  then have "?R (?st True 2, ())"
    by (rule reachable.next_step) (rule watch_moves.handled [of FileChanged], simp_all add: watch_step_def ready_def)
  then show ?thesis
    by (rule reachable.next_step)
      (rule watch_moves.handled [of TimerFired], simp_all add: watch_step_def ready_def load sync sample_watch_def insert_commute)
qed


text \<open>A change is picked up: once a file event has been seen, the timer that fires next reads the file,
  and a file that can be read and parsed then is handed on at once.\<close>

lemma watch_reloads:
  assumes "watch_step E f FileChanged st w = Some (st1, w1)" "Load E f w2 = (w3, Inr cfg)"
  shows "\<exists>st2 w4. watch_step E f TimerFired st1 w2 = Some (st2, w4) \<and>
           ws_delivered st2 = ws_delivered st @ [cfg] \<and> \<not> ws_armed st2"
  using assms by (auto simp: watch_step_def Let_def split: prod.splits)

end
