(* ===== verification/Process.thy ===== *)
theory Process
  imports Reachability Source Server
begin

text \<open>
  \<^verbatim>\<open>runGateway\<close> of \<^verbatim>\<open>cmd/mailout/gateway.go\<close>: the process of the dataplane, which loads the configuration,
  builds the server and then reloads it whenever the source hands on another configuration. The SMTP
  sessions, the metrics endpoint and everything outside the process run beside it and are the drift of
  the world.
\<close>


section \<open>Starting\<close>

record 'w process_env = "'w source_env" +
  pe_ReadDir :: "'w \<Rightarrow> string \<Rightarrow> (string \<times> bool) list option"
  pe_Removable :: "'w \<Rightarrow> string \<Rightarrow> bool"
  pe_RemoveFiles :: "'w \<Rightarrow> string \<Rightarrow> string list \<Rightarrow> 'w"

datatype watcher = NotStarted | Watching watch_state | Stopped

record gateway_process =
  pr_server :: Server
  pr_watcher :: watcher

definition sweep :: "('w, 'm) server_env_scheme \<Rightarrow> ('w, 'n) process_env_scheme \<Rightarrow> Config \<Rightarrow> 'w \<Rightarrow> 'w" where
  "sweep E P cfg w =
     (case SweepSpool (os_TempDir E) (pe_ReadDir P w) (pe_Removable P w) (lim_SpoolDir (cfg_Limits cfg)) of
        (dir, names) \<Rightarrow> pe_RemoveFiles P w dir names)"

text \<open>Everything before the goroutines start. \<^const>\<open>None\<close> is a panic.\<close>

definition runGateway ::
  "('w, 'm) server_env_scheme \<Rightarrow> ('w, 'n) process_env_scheme \<Rightarrow> unicode \<Rightarrow> int \<Rightarrow> string \<Rightarrow> 'w \<Rightarrow>
     gateway_process result option \<times> 'w" where
  "runGateway E P U procs configPath w =
     (let src = NewFile configPath in
      case Load P src w of
        (w, Inl err) \<Rightarrow> (Some (Inl err), w)
      | (w, Inr cfg) \<Rightarrow>
          (case NewServer E U procs cfg (sweep E P cfg w) of
             (None, w) \<Rightarrow> (None, w)
           | (Some (Inl err, _), w) \<Rightarrow> (Some (Inl err), w)
           | (Some (Inr srv, _), w) \<Rightarrow> (Some (Inr \<lparr>pr_server = srv, pr_watcher = NotStarted\<rparr>), w)))"


section \<open>Running\<close>

text \<open>The goroutine of the watcher begins. An error is only logged.\<close>

definition begin_watching ::
  "('w, 'n) process_env_scheme \<Rightarrow> File \<Rightarrow> gateway_process \<Rightarrow> 'w \<Rightarrow> gateway_process \<times> 'w" where
  "begin_watching P src p w =
     (case watch_start P src w of
        Inl err \<Rightarrow> (p\<lparr>pr_watcher := Stopped\<rparr>, w)
      | Inr (st, w) \<Rightarrow> (p\<lparr>pr_watcher := Watching st\<rparr>, w))"

text \<open>One turn of the watcher's loop with the callback of \<^verbatim>\<open>runGateway\<close>: what is handed on is reloaded, and a
  reload that fails is only logged. Handing on is the last thing a turn does.\<close>

definition watcher_turn ::
  "('w, 'm) server_env_scheme \<Rightarrow> ('w, 'n) process_env_scheme \<Rightarrow> unicode \<Rightarrow> File \<Rightarrow> watch_event \<Rightarrow>
     gateway_process \<Rightarrow> watch_state \<Rightarrow> 'w \<Rightarrow> gateway_process option \<times> 'w" where
  "watcher_turn E P U src event p st w =
     (case watch_step P src event st w of
        None \<Rightarrow> (Some (p\<lparr>pr_watcher := Stopped\<rparr>), w)
      | Some (st', w) \<Rightarrow>
          (case drop (length (ws_delivered st)) (ws_delivered st') of
             [] \<Rightarrow> (Some (p\<lparr>pr_watcher := Watching st'\<rparr>), w)
           | cfg # _ \<Rightarrow>
               (case Reload E U cfg (pr_server p) w of
                  (None, w) \<Rightarrow> (None, w)
                | (Some (_, _, srv), w) \<Rightarrow> (Some \<lparr>pr_server = srv, pr_watcher = Watching st'\<rparr>, w))))"

inductive process_moves ::
  "('w, 'm) server_env_scheme \<Rightarrow> ('w, 'n) process_env_scheme \<Rightarrow> unicode \<Rightarrow> File \<Rightarrow> ('w \<Rightarrow> 'w \<Rightarrow> bool) \<Rightarrow>
     gateway_process \<times> 'w \<Rightarrow> gateway_process \<times> 'w \<Rightarrow> bool"
  for E :: "('w, 'm) server_env_scheme" and P :: "('w, 'n) process_env_scheme" and U :: unicode
    and src :: File and drift :: "'w \<Rightarrow> 'w \<Rightarrow> bool" where
  begins: "pr_watcher p = NotStarted \<Longrightarrow> begin_watching P src p w = s \<Longrightarrow> process_moves E P U src drift (p, w) s"
| turns: "pr_watcher p = Watching st \<Longrightarrow> ready event st \<Longrightarrow>
    watcher_turn E P U src event p st w = (Some p', w') \<Longrightarrow> process_moves E P U src drift (p, w) (p', w')"
| drifts: "drift w w' \<Longrightarrow> process_moves E P U src drift (p, w) (p, w')"

inductive_cases process_movesE: "process_moves E P U src drift s s'"

definition process_started ::
  "('w, 'm) server_env_scheme \<Rightarrow> ('w, 'n) process_env_scheme \<Rightarrow> unicode \<Rightarrow> int \<Rightarrow> string \<Rightarrow>
     gateway_process \<times> 'w \<Rightarrow> bool" where
  "process_started E P U procs configPath s \<longleftrightarrow>
     (\<exists>w. runGateway E P U procs configPath w = (Some (Inr (fst s)), snd s))"


section \<open>What is in service\<close>

text \<open>The server serves a configuration the file held, which it found valid, and it lets as many passwords
  be checked at once as when it started.\<close>

definition in_service ::
  "('w, 'm) server_env_scheme \<Rightarrow> ('w, 'n) source_env_scheme \<Rightarrow> unicode \<Rightarrow> File \<Rightarrow> Server \<Rightarrow> bool" where
  "in_service E P U src s \<longleftrightarrow>
     (\<exists>snap cfg. sv_current s = Some snap \<and> snap_ok E U snap \<and> loadable_config P src cfg \<and>
        sn_config snap = applyDefaults cfg \<and> Validate (sn_config snap) = [])"

definition process_inv ::
  "('w, 'm) server_env_scheme \<Rightarrow> ('w, 'n) source_env_scheme \<Rightarrow> unicode \<Rightarrow> int \<Rightarrow> File \<Rightarrow>
     gateway_process \<times> 'w \<Rightarrow> bool" where
  "process_inv E P U procs src s \<longleftrightarrow>
     in_service E P U src (pr_server (fst s)) \<and> sv_verifying (pr_server (fst s)) = max 1 (procs - 1)"

lemma Reload_cases:
  assumes "Reload E U cfg s w = (Some (err, ms, s'), w')"
  shows "err \<noteq> None \<and> s' = s \<or>
         err = None \<and> (\<exists>snap w1. newSnapshot E U cfg (sv_current s) w = (Some (Inr snap), w1) \<and>
           s' = s\<lparr>sv_current := Some snap\<rparr>)"
  using assms by (auto simp: Reload_def Let_def split: prod.splits option.splits sum.splits)

lemma Reload_in_service:
  assumes run: "Reload E U cfg s w = (Some (err, ms, s'), w')" and cfg: "loadable_config P src cfg"
    and old: "err = None \<or> in_service E P U src s"
  shows "in_service E P U src s' \<and> sv_verifying s' = sv_verifying s"
  using Reload_cases [OF run]
proof (elim disjE exE conjE)
  assume "err \<noteq> None" "s' = s"
  then show ?thesis using old by auto
next
  fix snap w1 assume n: "newSnapshot E U cfg (sv_current s) w = (Some (Inr snap), w1)"
    and s': "s' = s\<lparr>sv_current := Some snap\<rparr>"
  show ?thesis using newSnapshot_ok [OF n] cfg by (auto simp: in_service_def s')
qed

lemma runGateway_inv:
  assumes "process_started E P U procs configPath s"
  shows "process_inv E P U procs (NewFile configPath) s"
proof -
  let ?src = "NewFile configPath" and ?s0 = "\<lparr>sv_current = None, sv_verifying = max 1 (procs - 1), sv_servers = []\<rparr>"
  obtain w where run: "runGateway E P U procs configPath w = (Some (Inr (fst s)), snd s)"
    using assms by (auto simp: process_started_def)
  obtain w1 cfg where l: "Load P ?src w = (w1, Inr cfg)"
    using run by (auto simp: runGateway_def Let_def split: prod.splits sum.splits)
  obtain srv ms w2 where n: "NewServer E U procs cfg (sweep E P cfg w1) = (Some (Inr srv, ms), w2)"
    and s: "fst s = \<lparr>pr_server = srv, pr_watcher = NotStarted\<rparr>"
    using run l by (auto simp: runGateway_def Let_def split: prod.splits sum.splits option.splits)
  have r: "Reload E U cfg ?s0 (sweep E P cfg w1) = (Some (None, ms, srv), w2)"
    using n by (auto simp: NewServer_def Let_def split: prod.splits option.splits)
  have "loadable_config P ?src cfg" using l unfolding loadable_config_def by blast
  from Reload_in_service [OF r this] show ?thesis by (simp add: process_inv_def s)
qed

lemma watch_step_delivers:
  assumes "watch_step P src event st w = Some (st', w')"
  shows "ws_delivered st' = ws_delivered st \<or>
         (\<exists>cfg. ws_delivered st' = ws_delivered st @ [cfg] \<and> loadable_config P src cfg)"
  using assms unfolding loadable_config_def
  by (cases event) (auto simp: watch_step_def Let_def split: prod.splits sum.splits)

lemma watcher_turn_inv:
  assumes inv: "process_inv E P U procs src (p, w)"
    and run: "watcher_turn E P U src event p st w = (Some p', w')"
  shows "process_inv E P U procs src (p', w')"
proof (cases "watch_step P src event st w")
  case None
  then show ?thesis using run inv by (auto simp: watcher_turn_def process_inv_def)
next
  case (Some a)
  obtain st' w1 where a: "a = (st', w1)" by fastforce
  from watch_step_delivers [OF Some [unfolded a]] show ?thesis
  proof (elim disjE exE conjE)
    assume "ws_delivered st' = ws_delivered st"
    then show ?thesis using run inv Some a by (auto simp: watcher_turn_def process_inv_def)
  next
    fix cfg assume d: "ws_delivered st' = ws_delivered st @ [cfg]" and l: "loadable_config P src cfg"
    obtain err ms srv where r: "Reload E U cfg (pr_server p) w1 = (Some (err, ms, srv), w')"
      and p': "p' = \<lparr>pr_server = srv, pr_watcher = Watching st'\<rparr>"
      using run Some a d by (auto simp: watcher_turn_def split: prod.splits option.splits)
    show ?thesis using Reload_in_service [OF r l] inv by (simp add: process_inv_def p')
  qed
qed

interpretation process: invariant "process_started E P U procs configPath"
  "process_moves E P U (NewFile configPath) drift" "process_inv E P U procs (NewFile configPath)"
  for E P U procs configPath drift
proof unfold_locales
  fix s s' assume inv: "process_inv E P U procs (NewFile configPath) s"
    and move: "process_moves E P U (NewFile configPath) drift s s'"
  from move show "process_inv E P U procs (NewFile configPath) s'"
  proof cases
    case (begins p w)
    have "pr_server (fst s') = pr_server p"
      using begins(3) by (auto simp: begin_watching_def split: sum.splits)
    then show ?thesis using inv begins(1) by (simp add: process_inv_def)
  next
    case (turns p st event w p' w')
    then show ?thesis using inv watcher_turn_inv [of E P U procs _ p w event st p' w'] by simp
  next
    case (drifts w w' p)
    then show ?thesis using inv by (simp add: process_inv_def)
  qed
qed (rule runGateway_inv)

text \<open>C3: Once the dataplane runs it always has a valid configuration in service: however the file
  changes, whatever of it cannot be read, parsed or loaded, and whatever else happens meanwhile, the
  snapshot in service was built from something the file held, its configuration is valid, its accounts
  and policies are those of that configuration; and no reload changes how many passwords are checked
  at once.\<close>

theorem process_always_serves:
  assumes "reachable (process_started E P U procs configPath)
             (process_moves E P U (NewFile configPath) drift) (p, w)"
  shows "\<exists>snap cfg w1 w2. sv_current (pr_server p) = Some snap \<and> snap_ok E U snap \<and>
           Load P (NewFile configPath) w1 = (w2, Inr cfg) \<and> sn_config snap = applyDefaults cfg \<and>
           Validate (sn_config snap) = [] \<and> sv_verifying (pr_server p) = max 1 (procs - 1)"
  using process.always [OF assms]
  by (auto simp: process_inv_def in_service_def loadable_config_def)

definition sample_process :: "demo_world process_env" where
  "sample_process =
     \<lparr>src_ReadFile = \<lambda>w p. (w, Inr ''accounts:''), src_Unmarshal = \<lambda>raw. Inr sample_config,
      src_NewWatcher = \<lambda>w. (w, None), src_Add = \<lambda>w d. (w, None),
      pe_ReadDir = \<lambda>w d. Some [(''mailout-body-1'', False), (''lost+found'', True)],
      pe_Removable = \<lambda>w n. True, pe_RemoveFiles = \<lambda>w d ns. w\<rparr>"

lemma process_always_serves_witness:
  "\<exists>p w snap. runGateway demo_server sample_process ascii_unicode 4 ''/etc/mailout/gateway.yaml''
       \<lparr>dw_fds = 0, dw_pools = []\<rparr> = (Some (Inr p), w) \<and>
     sv_current (pr_server p) = Some snap \<and> Validate (sn_config snap) = [] \<and> sv_verifying (pr_server p) = 3"
proof -
  let ?path = "''/etc/mailout/gateway.yaml''"
  let ?run = "runGateway demo_server sample_process ascii_unicode 4 ?path \<lparr>dw_fds = 0, dw_pools = []\<rparr>"
  have "case fst ?run of Some (Inr p) \<Rightarrow> True | _ \<Rightarrow> False" by code_simp
  then obtain p w where run: "?run = (Some (Inr p), w)"
    by (cases ?run) (auto split: option.splits sum.splits)
  then have "process_started demo_server sample_process ascii_unicode 4 ?path (p, w)"
    unfolding process_started_def by auto
  then have "reachable (process_started demo_server sample_process ascii_unicode 4 ?path)
      (process_moves demo_server sample_process ascii_unicode (NewFile ?path) (\<lambda>_ _. True)) (p, w)"
    by (rule reachable.start)
  from process_always_serves [OF this] run show ?thesis by auto
qed

text \<open>What \<^verbatim>\<open>Watch\<close> reads when it starts only tells it what to watch. A file that changed after \<^verbatim>\<open>runGateway\<close>
  loaded it and before the directories are watched is read here, not handed on, and no timer runs: the
  older configuration stays in service until the next event.\<close>

lemma change_before_watching_is_missed:
  assumes "pr_watcher p = NotStarted" "begin_watching P src p w = (p', w')"
  shows "pr_server p' = pr_server p \<and>
         (\<forall>st. pr_watcher p' = Watching st \<longrightarrow> ws_delivered st = [] \<and> \<not> ready TimerFired st)"
  using assms
  by (auto simp: begin_watching_def watch_start_def ready_def split: sum.splits prod.splits option.splits)

end
