(* ===== verification/Operator.thy ===== *)
theory Operator
  imports Gateway_Controller Dkim
begin

text \<open>
  \<^verbatim>\<open>cmd/mailout\<close> beside the gateway command, and \<^verbatim>\<open>internal/controller/discovery.go\<close>: how the operator
  is put together, what of a Secret it keeps in its cache, and the two commands that make a password
  hash and a signing key. The controller manager, the API discovery client, the terminal and the file
  system are parameters.
\<close>


section \<open>Optional APIs\<close>

text \<open>\<open>dc_Kinds\<close> is \<^verbatim>\<open>ServerResourcesForGroupVersion\<close>, giving the kinds of the resources.\<close>

record 'w discovery =
  dc_New :: "'w \<Rightarrow> 'w \<times> go_error option"
  dc_Kinds :: "'w \<Rightarrow> string \<Rightarrow> 'w \<times> string list result"
  dc_GroupFailed :: "go_error \<Rightarrow> bool"
  dc_NotFound :: "go_error \<Rightarrow> bool"

definition kindInstalled :: "('w, 'm) discovery_scheme \<Rightarrow> string \<Rightarrow> string \<Rightarrow> 'w \<Rightarrow> 'w \<times> bool result" where
  "kindInstalled D gv kind w =
     (case dc_New D w of
        (w, Some err) \<Rightarrow> (w, Inl (Wrap ''discovery client'' err))
      | (w, None) \<Rightarrow>
          (case dc_Kinds D w gv of
             (w, Inl err) \<Rightarrow> (w, if dc_GroupFailed D err \<or> dc_NotFound D err then Inr False else Inl err)
           | (w, Inr kinds) \<Rightarrow> (w, Inr (list_ex (\<lambda>k. k = kind) kinds))))"

definition CertManagerInstalled :: "('w, 'm) discovery_scheme \<Rightarrow> 'w \<Rightarrow> 'w \<times> bool result" where
  "CertManagerInstalled D w = kindInstalled D ''cert-manager.io/v1'' ''Certificate'' w"

definition PrometheusOperatorInstalled :: "('w, 'm) discovery_scheme \<Rightarrow> 'w \<Rightarrow> 'w \<times> bool result" where
  "PrometheusOperatorInstalled D w = kindInstalled D ''monitoring.coreos.com/v1'' ''ServiceMonitor'' w"


section \<open>The cache\<close>

definition cachedSecretKeys :: "string list" where
  "cachedSecretKeys = [''password'', PasswordHashKey]"

definition keepOnlyCredentialKeys :: "Secret \<Rightarrow> Secret" where
  "keepOnlyCredentialKeys secret =
     secret\<lparr>sec_Data :=
       fold (\<lambda>key trimmed. case sec_Data secret key of
                             None \<Rightarrow> trimmed
                           | Some value \<Rightarrow> trimmed(key \<mapsto> value)) cachedSecretKeys Map.empty\<rparr>"

text \<open>A client that reads Secrets from the cache.\<close>

definition through_cache :: "('w, 'sel, 'x) reader \<Rightarrow> ('w, 'sel, 'x) reader" where
  "through_cache rd =
     rd\<lparr>rd_Secret := \<lambda>w ns n.
       (case rd_Secret rd w ns n of
          (w, Found secret) \<Rightarrow> (w, Found (keepOnlyCredentialKeys secret))
        | (w, NotFound err) \<Rightarrow> (w, NotFound err)
        | (w, Failed err) \<Rightarrow> (w, Failed err))\<rparr>"


section \<open>Putting the operator together\<close>

record operatorOptions =
  oo_metricsAddr :: string
  oo_maxCachedSecrets :: int
  oo_probeAddr :: string
  oo_leaderElect :: bool
  oo_namespace :: string
  oo_gatewayImage :: string
  oo_enableWebhooks :: bool
  oo_webhookPort :: int
  oo_webhookCertDir :: string

record manager_options =
  mo_metricsAddr :: string
  mo_secureServing :: bool
  mo_probeAddr :: string
  mo_leaderElect :: bool
  mo_leaderElectionID :: string
  mo_cacheLabels :: "(string \<times> string) list"
  mo_webhook :: "(int \<times> string) option"

definition operator_manager :: "operatorOptions \<Rightarrow> manager_options" where
  "operator_manager opts =
     \<lparr>mo_metricsAddr = oo_metricsAddr opts,
      mo_secureServing = (oo_metricsAddr opts \<noteq> ''0'' \<and> oo_metricsAddr opts \<noteq> []),
      mo_probeAddr = oo_probeAddr opts, mo_leaderElect = oo_leaderElect opts,
      mo_leaderElectionID = ''mailout-operator.mailout.daly.nc'',
      mo_cacheLabels = [(''app.kubernetes.io/managed-by'', ''mailout-operator'')],
      mo_webhook = (if oo_enableWebhooks opts then Some (oo_webhookPort opts, oo_webhookCertDir opts) else None)\<rparr>"

text \<open>What is asked of the manager, in order.\<close>

datatype manager_call =
    NewManager manager_options
  | SetupGatewayController GatewayReconciler
  | SetupAccountController string
  | SetupGatewayWebhook string bool
  | SetupAccountWebhook string
  | AddHealthz
  | AddReadyz
  | AddSecretCount int
  | StartManager

definition watchCachedSecretCount :: "int \<Rightarrow> manager_call list" where
  "watchCachedSecretCount threshold = (if threshold \<le> 0 then [] else [AddSecretCount threshold])"

definition call_failure :: "manager_call \<Rightarrow> string" where
  "call_failure c =
     (case c of
        NewManager _ \<Rightarrow> ''create manager''
      | SetupGatewayController _ \<Rightarrow> ''set up gateway controller''
      | SetupAccountController _ \<Rightarrow> ''set up account controller''
      | SetupGatewayWebhook _ _ \<Rightarrow> ''set up gateway webhook''
      | SetupAccountWebhook _ \<Rightarrow> ''set up account webhook''
      | AddHealthz \<Rightarrow> ''add health check''
      | AddReadyz \<Rightarrow> ''add ready check''
      | AddSecretCount _ \<Rightarrow> ''add secret cache watch''
      | StartManager \<Rightarrow> ''run manager'')"

definition operator_calls :: "operatorOptions \<Rightarrow> bool \<Rightarrow> bool \<Rightarrow> manager_call list" where
  "operator_calls opts certManager prometheus =
     [NewManager (operator_manager opts),
      SetupGatewayController
        \<lparr>rec_OperatorNamespace = oo_namespace opts, rec_GatewayImage = oo_gatewayImage opts,
         rec_CertManagerAvailable = certManager, rec_PrometheusOperatorAvailable = prometheus\<rparr>,
      SetupAccountController (oo_namespace opts)] @
     (if oo_enableWebhooks opts
      then [SetupGatewayWebhook (oo_namespace opts) certManager, SetupAccountWebhook (oo_namespace opts)] else []) @
     [AddHealthz, AddReadyz] @
     watchCachedSecretCount (oo_maxCachedSecrets opts) @
     [StartManager]"

fun make_calls ::
  "(manager_call \<Rightarrow> 'w \<Rightarrow> 'w \<times> go_error option) \<Rightarrow> manager_call list \<Rightarrow> 'w \<Rightarrow>
     'w \<times> manager_call list \<times> go_error option" where
  "make_calls M [] w = (w, [], None)"
| "make_calls M (c # cs) w =
     (case M c w of
        (w, Some err) \<Rightarrow> (w, [], Some (Wrap (call_failure c) err))
      | (w, None) \<Rightarrow> (case make_calls M cs w of (w, made, err) \<Rightarrow> (w, c # made, err)))"

text \<open>The result lists the calls that succeeded.\<close>

definition runOperator ::
  "('w, 'm) discovery_scheme \<Rightarrow> (manager_call \<Rightarrow> 'w \<Rightarrow> 'w \<times> go_error option) \<Rightarrow> operatorOptions \<Rightarrow> 'w \<Rightarrow>
     'w \<times> manager_call list \<times> go_error option" where
  "runOperator D M opts w =
     (if oo_namespace opts = [] then (w, [], Some (Plain ''--namespace is required (or set POD_NAMESPACE)''))
      else if oo_gatewayImage opts = []
        then (w, [], Some (Plain ''--gateway-image is required (or set MAILOUT_GATEWAY_IMAGE)''))
      else case CertManagerInstalled D w of
             (w, Inl err) \<Rightarrow> (w, [], Some (Wrap ''detect cert-manager'' err))
           | (w, Inr certManager) \<Rightarrow>
               (case PrometheusOperatorInstalled D w of
                  (w, Inl err) \<Rightarrow> (w, [], Some (Wrap ''detect prometheus-operator'' err))
                | (w, Inr prometheus) \<Rightarrow> make_calls M (operator_calls opts certManager prometheus) w))"


section \<open>Commands\<close>

text \<open>What a command printed, on the two streams, and its error.\<close>

type_synonym printed = "string \<times> string \<times> go_error option"

definition argument_warning :: string where
  "argument_warning =
     ''warning: a password on the command line is visible in /proc and in your shell '' @
     ''history. Pipe it on stdin instead: echo -n 'secret' | mailout hash-password'' @ [LF]"

text \<open>\<open>line\<close> is what \<^verbatim>\<open>ReadString\<close> gave: what was read up to and with the first line feed, and an error.\<close>

definition hash_password ::
  "(string \<Rightarrow> int \<Rightarrow> string result) \<Rightarrow> nat list result \<Rightarrow> string \<times> go_error option \<Rightarrow> bool \<Rightarrow> string list \<Rightarrow> printed" where
  "hash_password bcrypt random line generate args =
     (let finish = (\<lambda>out errs password.
            case HashPassword bcrypt password of
              Inl err \<Rightarrow> (out, errs, Some err)
            | Inr hash \<Rightarrow> (out @ ''passwordHash: '' @ hash @ [LF], errs, None))
      in
      if generate then
        (case GeneratePassword random of
           Inl err \<Rightarrow> ([], [], Some err)
         | Inr password \<Rightarrow> finish (''password: '' @ password @ [LF]) [] password)
      else case args of
             [password] \<Rightarrow> finish [] argument_warning password
           | _ \<Rightarrow>
               (case line of
                  (text, Some err) \<Rightarrow>
                    if text = [] then ([], [], Some (Wrap ''read password from stdin'' err))
                    else finish [] [] (trim_right text CRLF)
                | (text, None) \<Rightarrow> finish [] [] (trim_right text CRLF)))"

text \<open>The calls on the key file that succeeded, in order. The file is created with mode 0600 if it is new;
  one that was there keeps its mode until it is changed.\<close>

datatype file_call = OpenTruncated nat | Chmod nat | WriteString string | CloseFile

record 'w file_env =
  fe_Open :: "'w \<Rightarrow> string \<Rightarrow> nat \<Rightarrow> 'w \<times> go_error option"
  fe_Chmod :: "'w \<Rightarrow> nat \<Rightarrow> 'w \<times> go_error option"
  fe_WriteString :: "'w \<Rightarrow> string \<Rightarrow> 'w \<times> go_error option"
  fe_Close :: "'w \<Rightarrow> 'w \<times> go_error option"

definition key_mode :: nat where "key_mode = 6 * 64"

text \<open>On an early return the deferred \<^verbatim>\<open>Close\<close> is the last call; its error is dropped.\<close>

definition close_and_return ::
  "('w, 'm) file_env_scheme \<Rightarrow> file_call list \<Rightarrow> go_error option \<Rightarrow> 'w \<Rightarrow> 'w \<times> file_call list \<times> go_error option" where
  "close_and_return F made err w = (case fe_Close F w of (w, _) \<Rightarrow> (w, made @ [CloseFile], err))"

definition writePrivateKey ::
  "('w, 'm) file_env_scheme \<Rightarrow> string \<Rightarrow> string \<Rightarrow> 'w \<Rightarrow> 'w \<times> file_call list \<times> go_error option" where
  "writePrivateKey F path pemData w =
     (case fe_Open F w path key_mode of
        (w, Some err) \<Rightarrow> (w, [], Some (Wrap (''write '' @ path) err))
      | (w, None) \<Rightarrow>
          (case fe_Chmod F w key_mode of
             (w, Some err) \<Rightarrow>
               close_and_return F [OpenTruncated key_mode] (Some (Wrap (''restrict '' @ path) err)) w
           | (w, None) \<Rightarrow>
               (case fe_WriteString F w pemData of
                  (w, Some err) \<Rightarrow>
                    close_and_return F [OpenTruncated key_mode, Chmod key_mode] (Some (Wrap (''write '' @ path) err)) w
                | (w, None) \<Rightarrow>
                    (case fe_Close F w of
                       (w, err) \<Rightarrow>
                         close_and_return F
                           [OpenTruncated key_mode, Chmod key_mode, WriteString pemData, CloseFile] err w))))"

definition stdout_warning :: string where
  "stdout_warning =
     ''warning: writing the private key to stdout. Use -o to write it to a file '' @
     ''with restrictive permissions instead.'' @ [LF]"

definition dkim_key ::
  "keygen \<Rightarrow> ('w, 'm) file_env_scheme \<Rightarrow> string \<Rightarrow> string \<Rightarrow> string \<Rightarrow> string \<Rightarrow> 'w \<Rightarrow> 'w \<times> file_call list \<times> printed" where
  "dkim_key G F algorithm domain selector outFile w =
     (case GenerateDKIMKey G algorithm domain selector of
        Inl err \<Rightarrow> (w, [], [], [], Some err)
      | Inr key \<Rightarrow>
          (let record = [LF] @ ''Publish this TXT record:'' @ [LF] @ gk_DNSRecordName key @ [LF] @
                         ''  '' @ gk_DNSRecordValue key @ [LF] in
           if outFile \<noteq> [] then
             (case writePrivateKey F outFile (gk_PrivateKeyPEM key) w of
                (w, made, Some err) \<Rightarrow> (w, made, [], [], Some err)
              | (w, made, None) \<Rightarrow>
                  (w, made, ''private key written to '' @ outFile @ '' (mode 0600)'' @ [LF] @ record, [], None))
           else (w, [], gk_PrivateKeyPEM key @ record, stdout_warning, None)))"


section \<open>The cache loses nothing that is read from it\<close>

lemma secret_key_kept:
  "secret_key (keepOnlyCredentialKeys s) ''password'' = secret_key s ''password''"
  "secret_key (keepOnlyCredentialKeys s) PasswordHashKey = secret_key s PasswordHashKey"
  by (auto simp: secret_key_def keepOnlyCredentialKeys_def cachedSecretKeys_def PasswordHashKey_def split: option.splits)

lemma kept_keys: "dom (sec_Data (keepOnlyCredentialKeys s)) \<subseteq> set cachedSecretKeys"
  by (auto simp: keepOnlyCredentialKeys_def cachedSecretKeys_def split: option.splits if_splits)

lemma kept_Meta [simp]: "sec_Meta (keepOnlyCredentialKeys s) = sec_Meta s"
  by (simp add: keepOnlyCredentialKeys_def)

lemma through_cache_sel [simp]:
  "rd_Namespace (through_cache rd) = rd_Namespace rd" "rd_Gateway (through_cache rd) = rd_Gateway rd"
  "rd_Account (through_cache rd) = rd_Account rd" "rd_Accounts (through_cache rd) = rd_Accounts rd"
  by (simp_all add: through_cache_def)

lemma labels_through_cache: "namespaceLabels (through_cache rd) namespace w = namespaceLabels rd namespace w"
  unfolding namespaceLabels_def through_cache_sel ..

lemma allowed_through_cache: "namespaceAllowed S (through_cache rd) gw namespace w = namespaceAllowed S rd gw namespace w"
  unfolding namespaceAllowed_def through_cache_sel ..

lemma granted_loop_through_cache:
  "granted_loop S (through_cache rd) namespace i grants ls granted w = granted_loop S rd namespace i grants ls granted w"
  by (induction S rd namespace i grants ls granted w rule: granted_loop.induct)
     (auto simp: labels_through_cache split: option.splits sum.splits prod.splits)

lemma granted_through_cache:
  "grantedSenders S (through_cache rd) gw namespace ls w = grantedSenders S rd gw namespace ls w"
  by (simp add: grantedSenders_def granted_loop_through_cache)

text \<open>A reconciler whose client is the cached one.\<close>

definition cached_kube ::
  "('w, 'sel, 'x, 'm) gateway_kube_scheme \<Rightarrow> ('w, 'sel, 'x, 'm) gateway_kube_scheme" where
  "cached_kube K = K\<lparr>kb_Client := through_cache (kb_Client K)\<rparr>"

lemma collect_account_cached: "collect_account (cached_kube K) ons gw account w = collect_account K ons gw account w"
proof -
  have s: "rd_Secret (through_cache rd) w ns n =
      (case rd_Secret rd w ns n of
         (w, Found secret) \<Rightarrow> (w, Found (keepOnlyCredentialKeys secret))
       | (w, NotFound err) \<Rightarrow> (w, NotFound err)
       | (w, Failed err) \<Rightarrow> (w, Failed err))" for rd :: "('a, 'b, 'c) reader" and w ns n
    by (simp add: through_cache_def)
  show ?thesis
    by (auto simp: collect_account_def cached_kube_def allowed_through_cache granted_through_cache s secret_key_kept
        Let_def split: prod.splits sum.splits bool.splits got.splits)
qed

lemma collect_loop_cached: "collect_loop (cached_kube K) ons gw accounts w = collect_loop K ons gw accounts w"
  by (induction accounts arbitrary: w) (auto simp: collect_account_cached split: prod.splits sum.splits)

lemma credentials_cached: "credentials K rotated (keepOnlyCredentialKeys s) w = credentials K rotated s w"
  by (simp add: credentials_def secret_key_kept)


text \<open>The metrics token is not one of the two, which is why it is read past the cache: through the cache
  every reconciliation would draw a new one.\<close>

lemma token_not_cached: "secret_key (keepOnlyCredentialKeys s) MetricsTokenKey = []"
proof -
  have "MetricsTokenKey \<notin> dom (sec_Data (keepOnlyCredentialKeys s))"
    using kept_keys [of s] by (auto simp: cachedSecretKeys_def MetricsTokenKey_def PasswordHashKey_def)
  then show ?thesis by (auto simp: secret_key_def dom_def)
qed


section \<open>What runs\<close>

lemma make_calls_law:
  "make_calls M cs w = (w', made, err) \<Longrightarrow>
   (err = None \<longrightarrow> made = cs) \<and> (\<exists>rest. cs = made @ rest \<and> (err \<noteq> None \<longrightarrow> rest \<noteq> []))"
proof (induction cs arbitrary: w made)
  case (Cons c cs)
  obtain w1 e where m: "M c w = (w1, e)" by fastforce
  show ?case
  proof (cases e)
    case None
    obtain w2 made' err' where r: "make_calls M cs w1 = (w2, made', err')" by (metis surj_pair)
    then show ?thesis using Cons.IH [of w1 made'] Cons.prems m None by auto
  qed (use Cons.prems m in auto)
qed simp

text \<open>The manager is started only when the operator knows its namespace and its image, after both controllers
  have been registered for that namespace and, unless they are switched off, both webhooks.\<close>

lemma started_complete:
  assumes "runOperator D M opts w = (w', made, err)" "StartManager \<in> set made"
  shows "err = None \<and> oo_namespace opts \<noteq> [] \<and> oo_gatewayImage opts \<noteq> [] \<and>
         (\<exists>certManager prometheus. made = operator_calls opts certManager prometheus)"
proof -
  obtain certManager prometheus w1 where r:
    "make_calls M (operator_calls opts certManager prometheus) w1 = (w', made, err)"
    "oo_namespace opts \<noteq> []" "oo_gatewayImage opts \<noteq> []"
    using assms by (auto simp: runOperator_def split: if_splits prod.splits sum.splits)
  define before where "before = butlast (operator_calls opts certManager prometheus)"
  have calls: "operator_calls opts certManager prometheus = before @ [StartManager]" "StartManager \<notin> set before"
    by (auto simp: before_def operator_calls_def watchCachedSecretCount_def butlast_append)
  obtain rest where rest: "before @ [StartManager] = made @ rest" "err \<noteq> None \<longrightarrow> rest \<noteq> []"
    using make_calls_law [OF r(1)] calls(1) by auto
  have "rest = []"
  proof (rule ccontr)
    assume "rest \<noteq> []"
    then have "before = made @ butlast rest" using rest(1) by (metis butlast_append butlast_snoc)
    then show False using calls(2) assms(2) by simp
  qed
  then have "made = operator_calls opts certManager prometheus" "err = None" using rest calls(1) by auto
  then show ?thesis using r(2,3) by blast
qed

text \<open>No byte of a private key is written before the file is private, whatever fails and whoever created it.\<close>

lemma key_written_after_restriction:
  assumes "writePrivateKey F path pemData w = (w', made, err)" "WriteString text \<in> set made"
  shows "text = pemData \<and> (\<exists>rest. made = [OpenTruncated key_mode, Chmod key_mode, WriteString pemData] @ rest)"
  using assms by (auto simp: writePrivateKey_def close_and_return_def split: prod.splits option.splits)

text \<open>The hash printed is that of the password that was given, without its line end.\<close>

lemma hash_password_stdin:
  assumes "hash_password bcrypt random (password @ newline, err) False args = (out, errs, None)"
    and "args = []" "newline \<in> {[], [LF], CRLF}" "password = [] \<or> last password \<notin> set CRLF"
  shows "\<exists>hash. bcrypt password BcryptCost = Inr hash \<and> out = ''passwordHash: '' @ hash @ [LF]"
proof -
  have "trim_right (password @ newline) CRLF = password"
    using assms(3,4) trim_right_append [of newline CRLF password] trim_right_id [of password CRLF] by auto
  then show ?thesis using assms(1,2)
    by (auto simp: hash_password_def HashPassword_def Let_def split: option.splits if_splits sum.splits)
qed

end
