(* ===== verification/Observability.thy ===== *)
theory Observability
  imports Delivery
begin

text \<open>
  The rest of \<^verbatim>\<open>internal/gateway/metrics.go\<close>: the collectors \<^verbatim>\<open>NewMetrics\<close> registers, the series each
  call counts into, and the endpoint they are scraped from. What the counting methods do to the counters is
  in \<open>Metrics\<close>; which calls the dataplane makes is in \<open>Session\<close> and \<open>Server\<close>. Here the two meet: every label
  value comes from a set the configuration fixes. The exposition format and the HTTP server around the
  handler are not modelled.
\<close>


section \<open>Collectors\<close>

text \<open>The bounds of a histogram's buckets are durations, in nanoseconds.\<close>

datatype collector_kind = CounterVec "string list" | Histogram "int list" | Gauge

record collector =
  cl_Name :: string
  cl_Help :: string
  cl_Kind :: collector_kind

fun label_names :: "collector_kind \<Rightarrow> string list" where
  "label_names (CounterVec names) = names"
| "label_names (Histogram _) = []"
| "label_names Gauge = []"

text \<open>The collectors of the gateway's own, in the order they are registered. The standard Go and process
  collectors registered after them are the library's.\<close>

definition registry :: "collector list" where
  "registry =
     [\<lparr>cl_Name = ''mailout_messages_total'',
       cl_Help = ''Messages handled, by account and outcome.'',
       cl_Kind = CounterVec [''account'', ''result'']\<rparr>,
      \<lparr>cl_Name = ''mailout_messages_spooled_total'',
       cl_Help = ''Messages whose body was too large to keep in memory and was written to the spool '' @
         ''directory for the length of the transaction. A steady rate here is what tells you the '' @
         ''spool volume is load-bearing rather than dormant.'',
       cl_Kind = CounterVec [''account'']\<rparr>,
      \<lparr>cl_Name = ''mailout_message_bytes_total'',
       cl_Help = ''Bytes relayed upstream, by account, as submitted after filtering and signing.'',
       cl_Kind = CounterVec [''account'']\<rparr>,
      \<lparr>cl_Name = ''mailout_auth_failures_total'',
       cl_Help = ''Refused authentications. Attempts on a username no account has are reported as '' @
         unknownAccount @ '', to keep the label bounded by configuration rather than by traffic.'',
       cl_Kind = CounterVec [''account'']\<rparr>,
      \<lparr>cl_Name = ''mailout_milter_decisions_total'',
       cl_Help = ''Verdicts returned by each milter. unavailable counts the filter failing to answer, '' @
         ''whether the message was then let through or refused.'',
       cl_Kind = CounterVec [''milter'', ''decision'']\<rparr>,
      \<lparr>cl_Name = ''mailout_dkim_signatures_total'',
       cl_Help = ''DKIM signing outcomes per domain. refused is a message whose account is not allowed '' @
         ''to send from that domain; a message with no key for its domain is not counted at all.'',
       cl_Kind = CounterVec [''domain'', ''result'']\<rparr>,
      \<lparr>cl_Name = ''mailout_ratelimit_decisions_total'',
       cl_Help = ''Quota decisions per account. error means the store was unreachable and the message '' @
         ''was refused for it, which is a failure of the relay's own infrastructure, not of the sender.'',
       cl_Kind = CounterVec [''account'', ''decision'']\<rparr>,
      \<lparr>cl_Name = ''mailout_upstream_delivery_seconds'',
       cl_Help = ''Time spent handing a message to the upstream, successes and failures alike.'',
       cl_Kind = Histogram (map ((*) 10000000) [5, 10, 25, 50, 100, 250, 500, 1000, 3000, 6000])\<rparr>,
      \<lparr>cl_Name = ''mailout_config_reloads_total'',
       cl_Help = ''Configuration reloads. A failed reload leaves the previous configuration in service, '' @
         ''so this is the only sign the relay is running on something stale.'',
       cl_Kind = CounterVec [''result'']\<rparr>,
      \<lparr>cl_Name = ''mailout_accounts'', cl_Help = ''Accounts currently served.'', cl_Kind = Gauge\<rparr>,
      \<lparr>cl_Name = ''mailout_accounts_rejected'',
       cl_Help = ''Accounts left out of the running configuration because their own settings are unusable.'',
       cl_Kind = Gauge\<rparr>]"

text \<open>The series a method addresses: the collector's name and the label values it is given. A reload that
  failed leaves the gauges alone.\<close>

fun series :: "metric \<Rightarrow> (string \<times> string list) list" where
  "series (messageHandled account result) = [(''mailout_messages_total'', [account, result])]"
| "series (messageSpooled account) = [(''mailout_messages_spooled_total'', [account])]"
| "series (messageRelayed account bytes) =
     [(''mailout_messages_total'', [account, ResultRelayed]), (''mailout_message_bytes_total'', [account])]"
| "series (authFailed account) = [(''mailout_auth_failures_total'', [account])]"
| "series (milterDecided milter decision) = [(''mailout_milter_decisions_total'', [milter, decision])]"
| "series (dkimResult domain result) = [(''mailout_dkim_signatures_total'', [domain, result])]"
| "series (rateLimitDecided account decision) = [(''mailout_ratelimit_decisions_total'', [account, decision])]"
| "series (upstreamDelivered d) = [(''mailout_upstream_delivery_seconds'', [])]"
| "series (configReloaded result served rejected) =
     (''mailout_config_reloads_total'', [result]) #
     (if result \<noteq> ''success'' then [] else [(''mailout_accounts'', []), (''mailout_accounts_rejected'', [])])"

text \<open>\<^verbatim>\<open>MustRegister\<close> panics on a second collector of the same name and on a name that is none.\<close>

definition name_char :: "char \<Rightarrow> bool" where
  "name_char c \<longleftrightarrow> c = CHR ''_'' \<or> c \<in> set ''abcdefghijklmnopqrstuvwxyz''"

lemma registry_registers:
  "distinct (map cl_Name registry) \<and>
   list_all (\<lambda>c. cl_Name c \<noteq> [] \<and> list_all name_char (cl_Name c) \<and>
                distinct (label_names (cl_Kind c)) \<and> list_all (list_all name_char) (label_names (cl_Kind c)) \<and>
                (case cl_Kind c of Histogram bounds \<Rightarrow> sorted_wrt (<) bounds | _ \<Rightarrow> True)) registry"
  by code_simp


section \<open>The endpoint\<close>

datatype endpoint_log = EndpointUnauthenticated | ServingMetrics

text \<open>How the wait ends: the context is cancelled, or the server stops with an error.\<close>

datatype served_until = Cancelled | Ended go_error

text \<open>\<open>listen\<close> is \<^verbatim>\<open>net.Listen\<close>'s error, \<open>closed\<close> tells \<^verbatim>\<open>http.ErrServerClosed\<close> from other errors; \<open>token\<close> is what
  the callback returns at the start, \<open>None\<close> when there is none.\<close>

definition ServeMetrics ::
  "(string \<Rightarrow> go_error option) \<Rightarrow> (go_error \<Rightarrow> bool) \<Rightarrow> served_until \<Rightarrow> string \<Rightarrow> string option \<Rightarrow>
     go_error option \<times> endpoint_log list" where
  "ServeMetrics listen closed ending addr token =
     (if addr = [] then (None, [])
      else (let warning = (if token = None \<or> token = Some [] then [EndpointUnauthenticated] else []) in
            case listen addr of
              Some err \<Rightarrow> (Some err, warning)
            | None \<Rightarrow>
                (case ending of
                   Cancelled \<Rightarrow> None
                 | Ended err \<Rightarrow> if closed err then None else Some err,
                 warning @ [ServingMetrics])))"

text \<open>One request. The mux answers by itself for every other path; the token is the one of the snapshot in
  service at the time.\<close>

definition metrics_request :: "unicode \<Rightarrow> Server \<Rightarrow> string \<Rightarrow> string \<Rightarrow> http_answer option" where
  "metrics_request U srv path authorization =
     (if path = ''/metrics'' then Some (requireBearer U (Some (MetricsToken srv)) authorization) else None)"

text \<open>Rotating the token takes effect with the reload: afterwards the new token is what opens the endpoint,
  and the old one no longer does.\<close>

lemma token_rotates:
  assumes "Reload E U cfg srv w = (Some (None, ms, srv'), w')"
    and "mc_Token (cfg_Metrics (applyDefaults cfg)) = new" "new \<noteq> []"
  shows "metrics_request V srv' ''/metrics'' (''Bearer '' @ got) = Some Served \<longleftrightarrow> got = new"
proof -
  obtain snap w1 where ns: "newSnapshot E U cfg (sv_current srv) w = (Some (Inr snap), w1)"
    and srv': "sv_current srv' = Some snap"
    using assms(1) by (auto simp: Reload_def Let_def split: prod.splits option.splits sum.splits)
  have "MetricsToken srv' = new" using newSnapshot_ok [OF ns] srv' assms(2) by (simp add: MetricsToken_def)
  moreover have "cut SP (''Bearer '' @ got) = (''Bearer'', got, True)"
    by (simp add: cut_def)
  ultimately show ?thesis using assms(3) by (simp add: metrics_request_def requireBearer_def equal_fold_def)
qed


section \<open>Labels\<close>

definition usernames :: "Config \<Rightarrow> string set" where
  "usernames cfg = acc_Username ` set (cfg_Accounts cfg)"

definition filter_names :: "Config \<Rightarrow> string set" where
  "filter_names cfg = (\<lambda>(i, mc). filter_name i mc) ` set (enumerate 0 (cfg_Milters cfg))"

definition key_domains :: "unicode \<Rightarrow> Config \<Rightarrow> string set" where
  "key_domains U cfg = (\<lambda>k. to_lower U (dk_Domain k)) ` set (cfg_DKIM cfg)"

text \<open>What a label of a collector may hold under a configuration: one of its accounts, filters or key domains,
  or one of the constants of \<^verbatim>\<open>metrics.go\<close>.\<close>

definition label_domain :: "unicode \<Rightarrow> Config \<Rightarrow> string \<Rightarrow> string \<Rightarrow> string set" where
  "label_domain U cfg name lname =
     (if lname = ''account''
      then (if name = ''mailout_auth_failures_total'' then insert unknownAccount (usernames cfg) else usernames cfg)
      else if lname = ''milter'' then filter_names cfg
      else if lname = ''domain'' then key_domains U cfg
      else if name = ''mailout_messages_total''
      then {ResultRelayed, ResultRejected, ResultDiscarded, ResultDeferred}
      else if name = ''mailout_milter_decisions_total''
      then {decisionAccept, decisionReject, decisionDiscard, decisionUnavailable}
      else if name = ''mailout_ratelimit_decisions_total''
      then {rateLimitAllowed, rateLimitDenied, rateLimitError}
      else if name = ''mailout_dkim_signatures_total'' then {dkimSigned, dkimRefused, dkimFailed}
      else {''success'', ''failure''})"

text \<open>A series is well typed when its collector is registered, is given one value per label name, and each
  value is in its label's domain. \<^verbatim>\<open>WithLabelValues\<close> panics on a wrong number of values.\<close>

definition typed_series :: "unicode \<Rightarrow> Config \<Rightarrow> string \<times> string list \<Rightarrow> bool" where
  "typed_series U cfg sr \<longleftrightarrow>
     (\<exists>c \<in> set registry. cl_Name c = fst sr \<and>
        list_all2 (\<lambda>l v. v \<in> label_domain U cfg (fst sr) l) (label_names (cl_Kind c)) (snd sr))"

definition typed_call :: "unicode \<Rightarrow> Config \<Rightarrow> metric \<Rightarrow> bool" where
  "typed_call U cfg m \<longleftrightarrow> list_all (typed_series U cfg) (series m)"

lemma label_domain_finite: "finite (label_domain U cfg name lname)"
  by (simp add: label_domain_def usernames_def filter_names_def key_domains_def)

text \<open>What each call has to be given.\<close>

lemma typed_call_simps [simp]:
  "typed_call U cfg (messageHandled a r) \<longleftrightarrow>
     a \<in> usernames cfg \<and> r \<in> {ResultRelayed, ResultRejected, ResultDiscarded, ResultDeferred}"
  "typed_call U cfg (messageSpooled a) \<longleftrightarrow> a \<in> usernames cfg"
  "typed_call U cfg (messageRelayed a n) \<longleftrightarrow> a \<in> usernames cfg"
  "typed_call U cfg (authFailed a) \<longleftrightarrow> a = unknownAccount \<or> a \<in> usernames cfg"
  "typed_call U cfg (milterDecided f d) \<longleftrightarrow>
     f \<in> filter_names cfg \<and> d \<in> {decisionAccept, decisionReject, decisionDiscard, decisionUnavailable}"
  "typed_call U cfg (dkimResult d r) \<longleftrightarrow> d \<in> key_domains U cfg \<and> r \<in> {dkimSigned, dkimRefused, dkimFailed}"
  "typed_call U cfg (rateLimitDecided a d) \<longleftrightarrow>
     a \<in> usernames cfg \<and> d \<in> {rateLimitAllowed, rateLimitDenied, rateLimitError}"
  "typed_call U cfg (upstreamDelivered t)"
  "typed_call U cfg (configReloaded r n k) \<longleftrightarrow> r = ''success'' \<or> r = ''failure''"
  by (auto simp: typed_call_def typed_series_def registry_def label_domain_def)


section \<open>The calls a snapshot makes\<close>

text \<open>What the proofs need of a snapshot: its accounts, filters and keys are the configuration's.\<close>

definition configured :: "('w, 'm) server_env_scheme \<Rightarrow> unicode \<Rightarrow> snapshot \<Rightarrow> bool" where
  "configured E U snap \<longleftrightarrow> snap_ok E U snap \<and> mil_Name ` set (sn_milters snap) \<subseteq> filter_names (sn_config snap)"

lemma resolve_filters_names:
  "resolve_filters i ms = Inr fs \<Longrightarrow> map mil_Name fs = map (\<lambda>(i, mc). filter_name i mc) (enumerate i ms)"
  by (induction i ms arbitrary: fs rule: resolve_filters.induct) (auto split: sum.splits)

lemma newSnapshot_configured:
  assumes "newSnapshot E U cfg prev w = (Some (Inr snap), w')"
  shows "configured E U snap"
proof -
  have "newMilterChain (sn_config snap) = Inr (sn_milters snap)"
    using assms by (auto simp: newSnapshot_def static_parts_def Let_def
        split: sum.splits prod.splits option.splits if_splits)
  then have "mil_Name ` set (sn_milters snap) = filter_names (sn_config snap)"
    using resolve_filters_names [of 0 "cfg_Milters (sn_config snap)" "sn_milters snap"]
    unfolding newMilterChain_def filter_names_def by (metis image_set)
  then show ?thesis using newSnapshot_ok [OF assms] by (simp add: configured_def)
qed

lemma served_username:
  assumes "snap_ok E U snap" "lookup_account (sn_accounts snap) u = Some a"
  shows "u \<in> usernames (sn_config snap)"
proof -
  have "a \<in> set (fst (PartitionAccounts (bcrypt_Cost E) (sn_config snap)))" "acc_Username a = u"
    using assms by (simp_all add: snap_ok_def)
  then have "u \<in> acc_Username ` set (filter (fit_account (bcrypt_Cost E)) (cfg_Accounts (sn_config snap)))"
    using first_of_each_distinct [of "{}" "filter (fit_account (bcrypt_Cost E)) (cfg_Accounts (sn_config snap))"]
    by (auto simp: PartitionAccounts_def partition_served)
  then show ?thesis by (auto simp: usernames_def)
qed

lemma quota_calls:
  "check_quota E lim u n w = (err, ms, w') \<Longrightarrow> u \<in> usernames cfg \<Longrightarrow> list_all (typed_call U cfg) ms"
  by (auto simp: check_quota_def check_dimension_def Let_def split: option.splits prod.splits if_splits sum.splits)

lemma chain_calls:
  "chain_outcome fs err ms \<Longrightarrow> mil_Name ` set fs \<subseteq> filter_names cfg \<Longrightarrow> list_all (typed_call U cfg) ms"
  by (induction rule: chain_outcome.induct) (auto simp: lets_pass_def refuses_def)

lemma sign_calls:
  assumes "newDKIMSigner R U (cfg_DKIM cfg) = Inr s" "sound E msg" "dkim_laws E"
    and "sign E U s msg policy w = (err, ms, msg', w')"
  shows "list_all (typed_call U cfg) ms"
proof -
  have os: "os_laws E" using assms(2) by (simp add: sound_def)
  obtain k m1 w1 where kf: "keyFor E U s msg w = (k, m1, w1)" by (metis surj_pair)
  note law = keyFor_law [OF os kf]
  show ?thesis
  proof (cases k)
    case None
    then show ?thesis using assms(4) kf by (simp add: sign_def)
  next
    case (Some key)
    then obtain d where "map_of s d = Some key" using law by blast
    from signer_lookup [OF assms(1) this] have dom: "lk_domain key \<in> key_domains U cfg"
      by (auto simp: key_domains_def)
    have so: "sound E m1" using law assms(2) same_body_inv by (auto simp: sound_def)
    show ?thesis
    proof (cases "canSign U policy (lk_domain key)")
      case True
      then have "sign_with E key m1 w1 = (err, ms, msg', w')" using assms(4) kf Some by (simp add: sign_def)
      from conjunct2 [OF sign_with_law [OF so assms(3) this]] show ?thesis using dom by simp
    next
      case False
      then show ?thesis using assms(4) kf Some dom by (auto simp: sign_def)
    qed
  qed
qed


lemma relay_calls:
  assumes "relay_stage E s msg w = (err, ms, made, msg', w')" "msg_Account msg \<in> usernames cfg"
  shows "list_all (typed_call U cfg) ms"
proof -
  obtain t0 w0 where t: "time_Now E w = (t0, w0)" by fastforce
  obtain e md m1 w1 where sd: "send E (sn_relay (ss_snap s)) msg w0 = (e, md, m1, w1)" by (metis surj_pair)
  have "msg_Account m1 = msg_Account msg" using sd by (auto simp: send_def split: prod.splits option.splits)
  then show ?thesis using assms t sd
    by (auto simp: relay_stage_def relayResult_def resultFor_def split: prod.splits option.splits)
qed

lemma milter_calls:
  assumes "sound E msg" "milter_stage E U s policy msg w = (r, ms, msg', w')"
    and "msg_Account msg \<in> usernames cfg" "mil_Name ` set (ap_milters policy) \<subseteq> filter_names cfg"
  shows "list_all (typed_call U cfg) ms"
proof -
  obtain e ms1 m1 w1 where rc: "run_chain E U (ap_milters policy) msg (session_info s) w = (e, ms1, m1, w1)"
    by (metis surj_pair)
  have ms1: "list_all (typed_call U cfg) ms1" by (rule chain_calls [OF run_chain_outcome [OF rc] assms(4)])
  have "msg_Account m1 \<in> usernames cfg" using run_chain_sound [OF assms(1) rc] assms(3) by simp
  then show ?thesis using assms(2) rc ms1
    by (auto simp: milter_stage_def filterResult_def resultFor_def split: option.splits if_splits)
qed

lemma sign_stage_calls:
  assumes "sound E msg" "dkim_laws E" "newDKIMSigner R U (cfg_DKIM cfg) = Inr (sn_dkim (ss_snap s))"
    and "sign_stage E U s policy msg w = (r, ms, msg', w')" "msg_Account msg \<in> usernames cfg"
  shows "list_all (typed_call U cfg) ms"
proof -
  obtain e ms1 m1 w1 where sg: "sign E U (sn_dkim (ss_snap s)) msg (ap_senders policy) w = (e, ms1, m1, w1)"
    by (metis surj_pair)
  have "list_all (typed_call U cfg) ms1" by (rule sign_calls [OF assms(3,1,2) sg])
  moreover have "msg_Account m1 \<in> usernames cfg" using sign_law [OF assms(3,1,2) sg] assms(5) by simp
  ultimately show ?thesis using assms(4) sg
    by (auto simp: sign_stage_def split: option.splits if_splits)
qed

lemma process_calls:
  assumes "sound E msg" "dkim_laws E" "newDKIMSigner R U (cfg_DKIM cfg) = Inr (sn_dkim (ss_snap s))"
    and "msg_Account msg \<in> usernames cfg" "mil_Name ` set (ap_milters policy) \<subseteq> filter_names cfg"
    and "process_message E U s policy msg w = (err, ms, made, msg', w')"
  shows "list_all (typed_call U cfg) ms"
proof -
  obtain r1 ms1 m1 w1 where f: "from_stage E U policy msg w = (r1, ms1, m1, w1)" by (metis surj_pair)
  obtain r2 ms2 m2 w2 where m: "milter_stage E U s policy m1 w1 = (r2, ms2, m2, w2)" by (metis surj_pair)
  obtain r3 ms3 m3 w3 where g: "sign_stage E U s policy m2 w2 = (r3, ms3, m3, w3)" by (metis surj_pair)
  obtain r4 ms4 md m4 w4 where y: "relay_stage E s m3 w3 = (r4, ms4, md, m4, w4)" by (metis surj_pair)
  from from_stage_law [OF assms(1) f] obtain body where
    m1: "m1 = msg\<lparr>msg_Body := body\<rparr>" and sb: "same_body (msg_Body msg) body" by blast
  have s1: "sound E m1" and a1: "msg_Account m1 \<in> usernames cfg"
    using assms(1,4) same_body_inv [OF sb] m1 by (simp_all add: sound_def)
  note law2 = milter_stage_law [OF s1 m]
  then have s2: "sound E m2" and a2: "msg_Account m2 \<in> usernames cfg" using a1 by simp_all
  have a3: "msg_Account m3 \<in> usernames cfg" using sign_stage_law [OF s2 assms(2,3) g] a2 by simp
  have "list_all (typed_call U cfg) ms1" using f assms(4)
    by (auto simp: from_stage_def split: if_splits prod.splits option.splits)
  moreover note milter_calls [OF s1 m a1 assms(5)] sign_stage_calls [OF s2 assms(2,3) g a2] relay_calls [OF y a3]
  ultimately show ?thesis using assms(6) f m g y by (auto simp: process_message_def split: option.splits)
qed

lemma accept_calls:
  assumes "env_laws E" "configured E U (ss_snap s)" "username \<in> usernames (sn_config (ss_snap s))"
    and "lookup_account (sn_accounts (ss_snap s)) username = Some a"
    and "accept_message E U s username r w = (err, ms, made, w')"
  shows "list_all (typed_call U (sn_config (ss_snap s))) ms"
proof -
  have ok: "snap_ok E U (ss_snap s)" using assms(2) by (simp add: configured_def)
  have laws: "os_laws E" "dkim_laws E" using assms(1) by (simp_all add: env_laws_def)
  have ns: "sn_newSpool (ss_snap s) = newSpoolFactory (cfg_Limits (sn_config (ss_snap s)))"
    and dk: "newDKIMSigner (env_keys E) U (cfg_DKIM (sn_config (ss_snap s))) = Inr (sn_dkim (ss_snap s))"
    using ok by (simp_all add: snap_ok_def)
  obtain e body w1 where bf: "buffer_message E s username r w = (e, body, w1)" by (metis surj_pair)
  let ?policy = "policyFor U (ss_snap s) username"
  let ?msg = "\<lparr>msg_From = ss_from s, msg_To = ss_to s, msg_Body = body, msg_Account = username\<rparr>"
  obtain e2 ms2 md m2 w2 where pm: "process_message E U s ?policy ?msg w1 = (e2, ms2, md, m2, w2)"
    by (metis surj_pair)
  show ?thesis
  proof (cases e)
    case (Some x)
    then show ?thesis using assms(5) bf by (simp add: accept_message_def)
  next
    case None
    then have "sound E ?msg" using buffer_message_law [OF laws(1) ns bf] laws(1) by (auto simp: sound_def spool_ok_def)
    moreover have "mil_Name ` set (ap_milters ?policy) \<subseteq> filter_names (sn_config (ss_snap s))"
      using policyFor_account [OF ok assms(4)] assms(2) by (simp add: account_policy_def configured_def)
    ultimately have "list_all (typed_call U (sn_config (ss_snap s))) ms2"
      using process_calls [OF _ laws(2) dk _ _ pm] assms(3) by simp
    then show ?thesis using assms(3,5) bf None pm by (auto simp: accept_message_def Let_def)
  qed
qed

lemma data_calls:
  assumes "env_laws E" "configured E U current" "session_Data E U current r s w = (err, ms, made, s', w')"
  shows "list_all (typed_call U (sn_config current)) ms"
proof (cases "\<exists>old s1. ss_account s = Some old \<and> ss_to s \<noteq> [] \<and> stillAuthorized current old s = (None, s1)")
  case False
  then show ?thesis using assms(3) by (auto simp: session_Data_def split: option.splits if_splits prod.splits)
next
  case True
  then obtain old s1 where s1: "ss_account s = Some old" "ss_to s \<noteq> []" "stillAuthorized current old s = (None, s1)"
    by blast
  obtain acct where acct: "lookup_account (sn_accounts current) (acc_Username old) = Some acct"
    "s1 = s\<lparr>ss_snap := current, ss_account := Some acct\<rparr>"
    using s1(3) by (auto elim: stillAuthorized_None)
  have ok: "snap_ok E U current" using assms(2) by (simp add: configured_def)
  let ?u = "account_name s1"
  have u: "?u = acc_Username old" using acct(2) lookup_username [OF ok acct(1)] by (simp add: account_name_def)
  have known: "?u \<in> usernames (sn_config current)" using served_username [OF ok acct(1)] u by simp
  have snap: "ss_snap s1 = current" using acct(2) by simp
  obtain q ms1 w1 where cq: "check_quota (env_quota E) (sn_limiter (ss_snap s1)) ?u (length (ss_to s1)) w = (q, ms1, w1)"
    by (metis surj_pair)
  obtain e2 ms2 md w2 where am: "accept_message E U s1 ?u r w1 = (e2, ms2, md, w2)" by (metis surj_pair)
  have "list_all (typed_call U (sn_config current)) ms1" by (rule quota_calls [OF cq known])
  moreover have "list_all (typed_call U (sn_config current)) ms2"
    using accept_calls [of E U s1 ?u acct] assms(1,2) am acct(1) known u snap by simp
  ultimately show ?thesis using assms(3) s1 cq am known
    by (auto simp: session_Data_def Let_def split: option.splits)
qed

text \<open>The calls a command of a session makes under the snapshot in service, and those of a reload.\<close>

inductive makes_calls :: "('w, 'm) server_env_scheme \<Rightarrow> unicode \<Rightarrow> snapshot \<Rightarrow> metric list \<Rightarrow> bool"
  for E :: "('w, 'm) server_env_scheme" and U :: unicode and snap :: snapshot where
  by_login: "ss_snap s = snap \<Longrightarrow> authenticate E username password s w = (err, ms, hashes, s', w') \<Longrightarrow>
    makes_calls E U snap ms"
| by_mail: "session_Mail U snap sender s = (err, ms, s') \<Longrightarrow> makes_calls E U snap ms"
| by_data: "session_Data E U snap r s w = (err, ms, made, s', w') \<Longrightarrow> makes_calls E U snap ms"
| by_reload: "sv_current srv = Some snap \<Longrightarrow> Reload E U cfg srv w = (Some (err, ms, srv'), w') \<Longrightarrow>
    makes_calls E U snap ms"

lemma mail_calls:
  assumes "snap_ok E U current" "session_Mail U current sender s = (err, ms, s')"
  shows "list_all (typed_call U (sn_config current)) ms"
proof (cases "\<exists>old s1. ss_account s = Some old \<and> stillAuthorized current old s = (None, s1)")
  case False
  then show ?thesis using assms(2) by (auto simp: session_Mail_def split: option.splits prod.splits)
next
  case True
  then obtain old s1 where s1: "ss_account s = Some old" "stillAuthorized current old s = (None, s1)" by blast
  obtain acct where acct: "lookup_account (sn_accounts current) (acc_Username old) = Some acct"
    "s1 = s\<lparr>ss_snap := current, ss_account := Some acct\<rparr>"
    using s1(2) by (auto elim: stillAuthorized_None)
  have "account_name s1 \<in> usernames (sn_config current)"
    using served_username [OF assms(1) acct(1)] acct(2) lookup_username [OF assms(1) acct(1)]
    by (simp add: account_name_def)
  then show ?thesis using assms(2) s1 by (auto simp: session_Mail_def split: if_splits)
qed

lemma login_calls:
  assumes "snap_ok E U (ss_snap s)" "authenticate E username password s w = (err, ms, hashes, s', w')"
  shows "list_all (typed_call U (sn_config (ss_snap s))) ms"
proof -
  have "typed_call U (sn_config (ss_snap s)) (authFailed (label (sn_accounts (ss_snap s)) username))"
    using served_username [OF assms(1)] by (auto simp: label_def)
  then show ?thesis using assms(2)
    by (auto simp: authenticate_def simp del: typed_call_simps split: if_splits prod.splits option.splits sum.splits)
qed

text \<open>C24: Every label is bounded by configuration, never by traffic. Whatever clients do under a snapshot,
  each counting call addresses a registered collector with exactly its number of label values, so
  \<^verbatim>\<open>WithLabelValues\<close> never panics, and each value is one of a finite set the snapshot's configuration fixes:
  the account is one of its own (or the constant for an unknown one, on failed logins), the filter one of its
  filters, the domain one of its keys', and the outcome one of the constants.\<close>

theorem labels_bounded:
  assumes "env_laws E" "newSnapshot E U cfg prev w = (Some (Inr snap), w')"
    and "makes_calls E U snap ms" "m \<in> set ms" "(name, values) \<in> set (series m)"
  shows "\<exists>c \<in> set registry. cl_Name c = name \<and>
    list_all2 (\<lambda>l v. v \<in> label_domain U (sn_config snap) name l) (label_names (cl_Kind c)) values \<and>
    (\<forall>l. finite (label_domain U (sn_config snap) name l))"
proof -
  have cf: "configured E U snap" by (rule newSnapshot_configured [OF assms(2)])
  then have ok: "snap_ok E U snap" by (simp add: configured_def)
  from assms(3) have "list_all (typed_call U (sn_config snap)) ms"
  proof cases
    case (by_login s)
    then show ?thesis using login_calls [of E U s] ok by simp
  next
    case by_mail
    then show ?thesis using mail_calls [OF ok] by blast
  next
    case by_data
    then show ?thesis using data_calls [OF assms(1) cf] by blast
  next
    case by_reload
    then show ?thesis by (auto simp: Reload_def Let_def split: prod.splits option.splits sum.splits)
  qed
  then show ?thesis using assms(4,5) label_domain_finite
    by (fastforce simp: list_all_iff typed_call_def typed_series_def)
qed


theorem labels_bounded_witness:
  "\<exists>snap ms made s' w' n c. demo_load sample_config = Some snap \<and>
     session_Data demo_server ascii_unicode snap ([sample_body], None) (demo_session ''app@example.test'' snap)
       \<lparr>dw_fds = 0, dw_pools = []\<rparr> = (None, ms, made, s', w') \<and> messageRelayed ''app'' n \<in> set ms \<and>
     c \<in> set registry \<and> cl_Name c = ''mailout_messages_total'' \<and>
     list_all2 (\<lambda>l v. v \<in> label_domain ascii_unicode (sn_config snap) ''mailout_messages_total'' l)
       (label_names (cl_Kind c)) [''app'', ''relayed'']"
proof -
  have "case demo_data sample_body sample_config of
          Some (None, ms, made) \<Rightarrow> list_ex (\<lambda>m. case m of messageRelayed a n \<Rightarrow> a = ''app'' | _ \<Rightarrow> False) ms
        | _ \<Rightarrow> False" by code_simp
  then obtain ms made where dd: "demo_data sample_body sample_config = Some (None, ms, made)"
    and ex: "list_ex (\<lambda>m. case m of messageRelayed a n \<Rightarrow> a = ''app'' | _ \<Rightarrow> False) ms"
    by (auto split: option.splits)
  from ex obtain m where "m \<in> set ms" "case m of messageRelayed a n \<Rightarrow> a = ''app'' | _ \<Rightarrow> False"
    by (auto simp: list_ex_iff)
  then obtain n where n: "messageRelayed ''app'' n \<in> set ms" by - (cases m, auto)
  from dd obtain snap s' w' where snap: "demo_load sample_config = Some snap"
    and run: "session_Data demo_server ascii_unicode snap ([sample_body], None) (demo_session ''app@example.test'' snap)
       \<lparr>dw_fds = 0, dw_pools = []\<rparr> = (None, ms, made, s', w')" by (auto elim: demo_dataE)
  obtain w1 where ns: "newSnapshot demo_server ascii_unicode sample_config None \<lparr>dw_fds = 0, dw_pools = []\<rparr> =
      (Some (Inr snap), w1)"
    using snap unfolding demo_load_def
    by (cases "newSnapshot demo_server ascii_unicode sample_config None \<lparr>dw_fds = 0, dw_pools = []\<rparr>")
       (auto split: option.splits sum.splits)
  have "(''mailout_messages_total'', [''app'', ''relayed'']) \<in> set (series (messageRelayed ''app'' n))"
    by (simp add: ResultRelayed_def)
  from labels_bounded [OF demo_env_laws ns makes_calls.by_data [OF run] n this]
  obtain c where c: "c \<in> set registry" "cl_Name c = ''mailout_messages_total''"
    "list_all2 (\<lambda>l v. v \<in> label_domain ascii_unicode (sn_config snap) ''mailout_messages_total'' l)
       (label_names (cl_Kind c)) [''app'', ''relayed'']" by blast
  show ?thesis by (intro exI conjI) (rule snap run n c)+
qed

end
