(* ===== verification/Go_Duration.thy ===== *)
theory Go_Duration
  imports Config Go_Format Complex_Main
begin

text \<open>
  How a duration is written in a configuration: the \<^verbatim>\<open>Duration\<close> type of \<^verbatim>\<open>internal/gateway/config.go\<close> with
  its \<^verbatim>\<open>MarshalJSON\<close> and \<^verbatim>\<open>UnmarshalJSON\<close>, over Go's \<^verbatim>\<open>time.Duration.String\<close> and \<^verbatim>\<open>time.ParseDuration\<close>.
  Unsigned 64-bit arithmetic wraps where the library's checks let it; the one floating point step of
  \<^verbatim>\<open>ParseDuration\<close>, a fraction times a unit, rounds as IEEE double precision does.
\<close>


section \<open>Double precision\<close>

text \<open>Rounding of a positive rational in the normal range to 53 significant bits, ties to even.\<close>

definition pow2 :: "int \<Rightarrow> rat" where
  "pow2 k = (if 0 \<le> k then 2 ^ nat k else 1 / 2 ^ nat (- k))"

definition binade :: "rat \<Rightarrow> int" where
  "binade x =
     (let (n, d) = quotient_of x;
          a = int (bit_len (nat n)) - int (bit_len (nat d))
      in if pow2 a \<le> x then a else a - 1)"

definition round_even :: "rat \<Rightarrow> int" where
  "round_even x =
     (let q = \<lfloor>x\<rfloor>; r = x - of_int q in
      if r < 1 / 2 then q else if 1 / 2 < r then q + 1 else if even q then q else q + 1)"

definition float64 :: "rat \<Rightarrow> rat" where
  "float64 x =
     (if x \<le> 0 then 0
      else (let ulp = pow2 (binade x - 52) in of_int (round_even (x / ulp)) * ulp))"


section \<open>Printing\<close>

definition digit_char :: "nat \<Rightarrow> char" where
  "digit_char d = char_of (48 + d)"

text \<open>The buffer is filled from its end.\<close>

fun frac_loop :: "nat \<Rightarrow> nat \<Rightarrow> bool \<Rightarrow> string \<Rightarrow> bool \<times> string \<times> nat" where
  "frac_loop 0 v printing buf = (printing, buf, v)"
| "frac_loop (Suc i) v printing buf =
     (let digit = v mod 10;
          printing = (printing \<or> digit \<noteq> 0)
      in frac_loop i (v div 10) printing (if printing then digit_char digit # buf else buf))"

definition fmtFrac :: "string \<Rightarrow> nat \<Rightarrow> nat \<Rightarrow> string \<times> nat" where
  "fmtFrac buf v prec =
     (case frac_loop prec v False buf of
        (printing, buf, v) \<Rightarrow> (if printing then CHR ''.'' # buf else buf, v))"

definition fmtInt :: "string \<Rightarrow> nat \<Rightarrow> string" where
  "fmtInt buf v = show_nat v @ buf"

text \<open>The micro sign is two bytes.\<close>

definition micro :: string where
  "micro = [char_of (0xC2 :: nat), char_of (0xB5 :: nat)]"

definition format_magnitude :: "nat \<Rightarrow> string" where
  "format_magnitude u =
     (if u < 1000000000 then
        (if u = 0 then ''0s''
         else (let (unit, prec) =
                     (if u < 1000 then (''ns'', 0)
                      else if u < 1000000 then (micro @ ''s'', 3)
                      else (''ms'', 6));
                   (buf, u) = fmtFrac unit u prec
               in fmtInt buf u))
      else
        (let (buf, u) = fmtFrac ''s'' u 9;
             buf = fmtInt buf (u mod 60);
             u = u div 60
         in if u = 0 then buf
            else (let buf = fmtInt (CHR ''m'' # buf) (u mod 60);
                      u = u div 60
                  in if u = 0 then buf else fmtInt (CHR ''h'' # buf) u)))"

definition duration_String :: "Duration \<Rightarrow> string" where
  "duration_String d = (if d < 0 then CHR ''-'' # format_magnitude (nat \<bar>d\<bar>) else format_magnitude (nat \<bar>d\<bar>))"


section \<open>Parsing\<close>

datatype duration_error = InvalidDuration string | MissingUnit string | UnknownUnit string string

definition unitMap :: "string \<Rightarrow> nat option" where
  "unitMap u =
     map_of [(''ns'', 1), (''us'', 1000), (micro @ ''s'', 1000),
             ([char_of (0xCE :: nat), char_of (0xBC :: nat)] @ ''s'', 1000),
             (''ms'', 1000000), (''s'', 1000000000), (''m'', 60 * 1000000000), (''h'', 3600 * 1000000000)] u"

fun leadingInt :: "nat \<Rightarrow> string \<Rightarrow> (nat \<times> string) option" where
  "leadingInt x [] = Some (x, [])"
| "leadingInt x (c # s) =
     (if \<not> is_digit c then Some (x, c # s)
      else if x > 2 ^ 63 div 10 then None
      else (let x = x * 10 + digit_val c in if x > 2 ^ 63 then None else leadingInt x s))"

fun leadingFraction :: "nat \<Rightarrow> rat \<Rightarrow> bool \<Rightarrow> string \<Rightarrow> nat \<times> rat \<times> string" where
  "leadingFraction x scale overflow [] = (x, scale, [])"
| "leadingFraction x scale overflow (c # s) =
     (if \<not> is_digit c then (x, scale, c # s)
      else if overflow \<or> x > (2 ^ 63 - 1) div 10 then leadingFraction x scale True s
      else (let y = x * 10 + digit_val c in
            if y > 2 ^ 63 then leadingFraction x scale True s
            else leadingFraction y (float64 (scale * 10)) False s))"

definition unit_char :: "char \<Rightarrow> bool" where
  "unit_char c \<longleftrightarrow> c \<noteq> CHR ''.'' \<and> \<not> is_digit c"

text \<open>One turn of the loop: the value it adds, and what is left.\<close>

definition next_unit :: "string \<Rightarrow> string \<Rightarrow> duration_error + (nat \<times> string)" where
  "next_unit orig s =
     (if unit_char (hd s) then Inl (InvalidDuration orig)
      else case leadingInt 0 s of
             None \<Rightarrow> Inl (InvalidDuration orig)
           | Some (v, s1) \<Rightarrow>
     (let pre = (length s1 \<noteq> length s);
          (f, scale, s2, post) =
            (case s1 of
               c # t \<Rightarrow>
                 if c = CHR ''.'' then
                   (case leadingFraction 0 1 False t of (f, scale, s2) \<Rightarrow> (f, scale, s2, length s2 \<noteq> length t))
                 else (0, 1, s1, False)
             | [] \<Rightarrow> (0, 1, s1, False))
      in if \<not> pre \<and> \<not> post then Inl (InvalidDuration orig)
         else let u = takeWhile unit_char s2 in
           if u = [] then Inl (MissingUnit orig)
           else case unitMap u of
                  None \<Rightarrow> Inl (UnknownUnit u orig)
                | Some unit \<Rightarrow>
           if v > 2 ^ 63 div unit then Inl (InvalidDuration orig)
           else (let v = v * unit;
                     v = (if f > 0
                          then v + nat \<lfloor>float64 (float64 (of_nat f) * float64 (of_nat unit / scale))\<rfloor> else v)
                 in if f > 0 \<and> v > 2 ^ 63 then Inl (InvalidDuration orig)
                    else Inr (v, dropWhile unit_char s2))))"

text \<open>The loop, with a bound on its turns: \<^const>\<open>None\<close> when they are used up. The sum wraps before it is
  compared.\<close>

fun parse_units :: "nat \<Rightarrow> string \<Rightarrow> string \<Rightarrow> nat \<Rightarrow> (duration_error + nat) option" where
  "parse_units turns orig [] d = Some (Inr d)"
| "parse_units 0 orig (c # s) d = None"
| "parse_units (Suc turns) orig (c # s) d =
     (case next_unit orig (c # s) of
        Inl err \<Rightarrow> Some (Inl err)
      | Inr (v, rest) \<Rightarrow>
          (let d = (d + v) mod 2 ^ 64 in
           if d > 2 ^ 63 then Some (Inl (InvalidDuration orig)) else parse_units turns orig rest d))"

definition ParseDuration :: "nat \<Rightarrow> string \<Rightarrow> (duration_error + Duration) option" where
  "ParseDuration turns orig =
     (let (neg, s) =
        (case orig of
           c # t \<Rightarrow> if c = CHR ''-'' \<or> c = CHR ''+'' then (c = CHR ''-'', t) else (False, orig)
         | [] \<Rightarrow> (False, orig))
      in if s = ''0'' then Some (Inr 0)
         else if s = [] then Some (Inl (InvalidDuration orig))
         else case parse_units turns orig s 0 of
                None \<Rightarrow> None
              | Some (Inl err) \<Rightarrow> Some (Inl err)
              | Some (Inr d) \<Rightarrow>
                  if neg then Some (Inr (- int d))
                  else if d > 2 ^ 63 - 1 then Some (Inl (InvalidDuration orig))
                  else Some (Inr (int d)))"


section \<open>In a configuration\<close>

text \<open>What \<^verbatim>\<open>json.Unmarshal\<close> is given: a value of the document. A number is its literal.\<close>

datatype json_value = JString string | JNumber string | JNull | JOther

datatype unmarshal_error = BadDuration string duration_error | NotADuration

definition MarshalJSON :: "Duration \<Rightarrow> json_value" where
  "MarshalJSON d = JString (duration_String d)"

text \<open>\<^verbatim>\<open>null\<close> leaves the string it is read into empty, without an error.\<close>

definition UnmarshalJSON :: "nat \<Rightarrow> json_value \<Rightarrow> (unmarshal_error + Duration) option" where
  "UnmarshalJSON turns v =
     (case (case v of JString s \<Rightarrow> Some s | JNull \<Rightarrow> Some [] | _ \<Rightarrow> None) of
        Some s \<Rightarrow>
          (case ParseDuration turns s of
             None \<Rightarrow> None
           | Some (Inl err) \<Rightarrow> Some (Inl (BadDuration s err))
           | Some (Inr d) \<Rightarrow> Some (Inr d))
      | None \<Rightarrow>
          (case v of
             JNumber lit \<Rightarrow>
               (case Atoi lit of None \<Rightarrow> Some (Inl NotADuration) | Some n \<Rightarrow> Some (Inr n))
           | _ \<Rightarrow> Some (Inl NotADuration)))"



section \<open>Integers are exact\<close>

lemma binade_nat: "0 < n \<Longrightarrow> n < 2 ^ 53 \<Longrightarrow> binade (of_nat n) \<le> 52"
proof -
  assume n: "0 < n" "n < 2 ^ 53"
  have "quotient_of (of_nat n) = (int n, 1)" using quotient_of_int [of "int n"] by simp
  moreover have "bit_len (Suc 0) = 1" by (simp add: bit_len.simps)
  moreover have "bit_len n \<le> 53" using bit_len_le [of n 53] n(2) by simp
  ultimately show ?thesis by (simp add: binade_def Let_def)
qed

lemma round_even_int [simp]: "round_even (of_int i) = i"
  by (simp add: round_even_def)

lemma float64_nat:
  assumes "n < 2 ^ 53"
  shows "float64 (of_nat n) = of_nat n"
proof (cases "n = 0")
  case False
  then have "binade (of_nat n) \<le> 52" using binade_nat assms by simp
  then have "pow2 (binade (of_nat n) - 52) = 1 / 2 ^ nat (52 - binade (of_nat n))"
    by (cases "binade (of_nat n) = 52") (simp_all add: pow2_def)
  then obtain m where m: "pow2 (binade (of_nat n) - 52) = 1 / 2 ^ m" ..
  have "of_nat n / (1 / 2 ^ m) = (of_int (int n * 2 ^ m) :: rat)" by simp
  then have "round_even (of_nat n / (1 / 2 ^ m)) = int n * 2 ^ m" by (metis round_even_int)
  then show ?thesis using False m by (simp add: float64_def)
qed (simp add: float64_def)

lemma float64_small: "n \<le> 1000000000 \<Longrightarrow> float64 (of_nat n) = of_nat n"
  by (rule float64_nat) simp

lemma float64_exact: "x = of_nat n \<Longrightarrow> n < 2 ^ 53 \<Longrightarrow> float64 x = x"
  using float64_nat by simp

text \<open>The double nearest to a tenth.\<close>

lemma float64_tenth: "float64 (1 / 10) = 3602879701896397 / 36028797018963968"
  by code_simp


section \<open>What is printed is read back\<close>

lemma digit_char_digit [simp]:
  "d < 10 \<Longrightarrow> is_digit (digit_char d)" "d < 10 \<Longrightarrow> digit_val (digit_char d) = d"
  by (simp_all add: digit_char_def is_digit_digit digit_val_digit)

text \<open>The last \<open>k\<close> decimal digits of a number, with leading zeros.\<close>

fun pad :: "nat \<Rightarrow> nat \<Rightarrow> string" where
  "pad 0 v = []"
| "pad (Suc k) v = pad k (v div 10) @ [digit_char (v mod 10)]"

lemma frac_loop_True: "frac_loop i v True buf = (True, pad i v @ buf, v div 10 ^ i)"
  by (induction i arbitrary: v buf) (simp_all add: div_mult2_eq)

lemma frac_loop_False:
  "\<exists>k \<le> i. 10 ^ (i - k) dvd v \<and> frac_loop i v False buf = (k \<noteq> 0, pad k (v div 10 ^ (i - k)) @ buf, v div 10 ^ i)"
proof (induction i arbitrary: v)
  case (Suc i)
  show ?case
  proof (cases "v mod 10 = 0")
    case True
    obtain k where k: "k \<le> i" "10 ^ (i - k) dvd v div 10"
      "frac_loop i (v div 10) False buf = (k \<noteq> 0, pad k (v div 10 div 10 ^ (i - k)) @ buf, v div 10 div 10 ^ i)"
      using Suc.IH [of "v div 10"] by blast
    have "10 ^ (Suc i - k) dvd v"
    proof -
      have "v = 10 * (v div 10)" using True by auto
      moreover have "10 ^ (Suc i - k) = 10 * (10 ^ (i - k) :: nat)" using k(1) by (simp add: Suc_diff_le)
      ultimately show ?thesis using mult_dvd_mono [OF dvd_refl [of "10 :: nat"] k(2)] by metis
    qed
    then show ?thesis using k True by (intro exI [of _ k]) (simp add: Suc_diff_le div_mult2_eq)
  next
    case False
    then show ?thesis by (intro exI [of _ "Suc i"]) (simp add: frac_loop_True div_mult2_eq)
  qed
qed simp

lemma leadingInt_show: "v \<le> 2 ^ 63 \<Longrightarrow> leadingInt 0 (show_nat v @ t) = leadingInt v t"
proof (induction v arbitrary: t rule: show_nat.induct)
  case (1 v)
  show ?case
  proof (cases "v < 10")
    case True
    then show ?thesis using 1(2) by (subst show_nat.simps) (simp add: digit_char_def [symmetric])
  next
    case False
    have "leadingInt 0 (show_nat v @ t) = leadingInt (v div 10) (digit_char (v mod 10) # t)"
      using 1(1) [OF False] 1(2) False by (subst show_nat.simps) (simp add: digit_char_def)
    also have "\<dots> = leadingInt v t" using 1(2) div_le_mono [OF 1(2), of 10] by simp
    finally show ?thesis .
  qed
qed

lemma leadingInt_stops: "t = [] \<or> \<not> is_digit (hd t) \<Longrightarrow> leadingInt v t = Some (v, t)"
  by (cases t) simp_all

lemma leadingFraction_stops: "t = [] \<or> \<not> is_digit (hd t) \<Longrightarrow> leadingFraction x sc ov t = (x, sc, t)"
  by (cases t) simp_all

lemma leadingFraction_pad:
  "k \<le> 9 \<Longrightarrow> leadingFraction 0 1 False (pad k n @ t) = leadingFraction (n mod 10 ^ k) (10 ^ k) False t"
proof (induction k arbitrary: n t)
  case (Suc k)
  let ?x = "n div 10 mod 10 ^ k"
  have le: "(10::nat) ^ k \<le> 10 ^ 8" using Suc.prems by (intro power_increasing) simp_all
  have x: "?x < 10 ^ 8" by (rule less_le_trans [OF _ le]) simp
  have k: "(10::nat) ^ Suc k < 2 ^ 53" using le by simp
  have y: "?x * 10 + n mod 10 = n mod 10 ^ Suc k" by (simp add: mod_mult2_eq)
  have "float64 (10 ^ k * 10) = 10 ^ Suc k" by (rule trans [OF float64_exact [of _ "10 ^ Suc k"]]) (use k in simp_all)
  moreover have "n mod 10 ^ Suc k < 2 ^ 53" by (rule less_trans [OF _ k]) simp
  ultimately show ?case using Suc x y by (simp add: Let_def)
qed (simp add: leadingFraction_stops)


text \<open>A unit's name stops the digits before it, and is stopped by the digits after it.\<close>

definition unit_name :: "string \<Rightarrow> nat \<Rightarrow> bool" where
  "unit_name u n \<longleftrightarrow> u \<noteq> [] \<and> list_all unit_char u \<and> unitMap u = Some n"

definition at_unit_end :: "string \<Rightarrow> bool" where
  "at_unit_end t \<longleftrightarrow> t = [] \<or> \<not> unit_char (hd t)"

lemma unit_names:
  "unit_name ''ns'' 1" "unit_name (micro @ ''s'') 1000" "unit_name ''ms'' 1000000" "unit_name ''s'' 1000000000"
  "unit_name ''m'' 60000000000" "unit_name ''h'' 3600000000000"
  by code_simp+

lemma unit_name_hd: "unit_name u n \<Longrightarrow> u \<noteq> [] \<and> \<not> is_digit (hd u) \<and> hd u \<noteq> CHR ''.''"
  by (cases u) (auto simp: unit_name_def unit_char_def)

lemma unit_split:
  assumes "unit_name u n" "at_unit_end t"
  shows "takeWhile unit_char (u @ t) = u \<and> dropWhile unit_char (u @ t) = t"
  using assms by (cases t) (auto simp: unit_name_def at_unit_end_def list_all_iff)

lemma show_nat_hd: "\<not> unit_char (hd (show_nat v @ t))"
  using hd_show_nat_digit [of v] by (simp add: unit_char_def)

lemma le_div_mult: "(v * u :: nat) \<le> m \<Longrightarrow> 0 < u \<Longrightarrow> v \<le> m div u"
  by (simp add: less_eq_div_iff_mult_less_eq)

lemma mult_bound: "(v * u :: nat) \<le> m \<Longrightarrow> 0 < u \<Longrightarrow> v \<le> m"
  by (metis le_trans mult_le_mono2 nat_mult_1_right Suc_leI One_nat_def)

lemma next_unit_plain:
  assumes "unit_name u n" "0 < n" "at_unit_end t" "v * n \<le> 2 ^ 63"
  shows "next_unit orig (show_nat v @ u @ t) = Inr (v * n, t)"
proof -
  have h: "u \<noteq> []" "\<not> is_digit (hd u)" "hd u \<noteq> CHR ''.''" using unit_name_hd [OF assms(1)] by simp_all
  have "leadingInt 0 (show_nat v @ u @ t) = Some (v, u @ t)"
    using leadingInt_show [OF mult_bound [OF assms(4,2)], of "u @ t"] leadingInt_stops [of "u @ t" v] h by simp
  moreover have "unitMap u = Some n" "\<not> v > 2 ^ 63 div n"
    using assms(1) le_div_mult [OF assms(4,2)] by (simp_all add: unit_name_def)
  moreover obtain c r where "u = c # r" "c \<noteq> CHR ''.''" using h by (cases u) auto
  ultimately show ?thesis using unit_split [OF assms(1,3)] show_nat_hd [of v "u @ t"]
    by (simp add: next_unit_def)
qed

lemma next_unit_fraction:
  assumes "unit_name u (10 ^ p)" "p \<le> 9" "at_unit_end t" "0 < k" "k \<le> p"
    and "v * 10 ^ p + (n mod 10 ^ k) * 10 ^ (p - k) \<le> 2 ^ 63"
  shows "next_unit orig (show_nat v @ CHR ''.'' # pad k n @ u @ t) =
         Inr (v * 10 ^ p + (n mod 10 ^ k) * 10 ^ (p - k), t)"
proof -
  let ?f = "n mod 10 ^ k"
  let ?rest = "u @ t"
  have h: "u \<noteq> []" "\<not> is_digit (hd u)" using unit_name_hd [OF assms(1)] by simp_all
  have v: "v * 10 ^ p \<le> 2 ^ 63" using assms(6) by simp
  have "leadingInt 0 (show_nat v @ CHR ''.'' # pad k n @ ?rest) = Some (v, CHR ''.'' # pad k n @ ?rest)"
    using leadingInt_show [OF mult_bound [OF v]] by (simp add: is_digit_def)
  moreover have "leadingFraction 0 1 False (pad k n @ ?rest) = (?f, 10 ^ k, ?rest)"
    using leadingFraction_pad [of k n ?rest] leadingFraction_stops [of ?rest] h assms(2,5) by simp
  moreover have "length (pad k n @ ?rest) \<noteq> length ?rest" using assms(4) by (cases k) simp_all
  moreover have "unitMap u = Some (10 ^ p)" "\<not> v > 2 ^ 63 div 10 ^ p"
    using assms(1) le_div_mult [OF v] by (simp_all add: unit_name_def)
  moreover have "nat \<lfloor>float64 (float64 (of_nat ?f) * float64 (of_nat (10 ^ p) / 10 ^ k))\<rfloor> = ?f * 10 ^ (p - k)"
  proof -
    have p: "(10::nat) ^ p \<le> 1000000000" using power_increasing [OF assms(2), of "10 :: nat"] by simp
    have f: "?f * 10 ^ (p - k) < 10 ^ p"
    proof -
      have "?f * 10 ^ (p - k) < 10 ^ k * 10 ^ (p - k)" by simp
      then show ?thesis using assms(5) by (simp add: power_add [symmetric])
    qed
    have q: "of_nat (10 ^ p) / 10 ^ k = (of_nat (10 ^ (p - k)) :: rat)"
      using assms(5) by (simp only: of_nat_power of_nat_numeral) (simp add: power_diff)
    have "(10::nat) ^ (p - k) \<le> 10 ^ p" by (intro power_increasing) simp_all
    then have "float64 (of_nat (10 ^ (p - k))) = of_nat (10 ^ (p - k))" using p by (intro float64_small) linarith
    moreover have "?f \<le> ?f * 10 ^ (p - k)" by simp
    then have "float64 (of_nat ?f) = of_nat ?f" using f p by (intro float64_small) linarith
    moreover have "float64 (of_nat (?f * 10 ^ (p - k))) = of_nat (?f * 10 ^ (p - k))"
      using f p by (intro float64_small) linarith
    ultimately show ?thesis unfolding q by (metis floor_of_nat nat_int of_nat_mult)
  qed
  ultimately show ?thesis
    using unit_split [OF assms(1,3)] show_nat_hd [of v "CHR ''.'' # pad k n @ ?rest"] assms(6) h
    by (simp add: next_unit_def Let_def)
qed

lemma next_unit_fmtFrac:
  assumes "fmtFrac u x p = (buf, q)" "unit_name u (10 ^ p)" "p \<le> 9" "v * 10 ^ p + x mod 10 ^ p \<le> 2 ^ 63"
  shows "q = x div 10 ^ p \<and> next_unit orig (show_nat v @ buf) = Inr (v * 10 ^ p + x mod 10 ^ p, [])"
proof -
  obtain k where k: "k \<le> p" "10 ^ (p - k) dvd x"
    "frac_loop p x False u = (k \<noteq> 0, pad k (x div 10 ^ (p - k)) @ u, x div 10 ^ p)"
    using frac_loop_False by blast
  have split: "x mod 10 ^ p = (x div 10 ^ (p - k) mod 10 ^ k) * 10 ^ (p - k)"
  proof -
    obtain y where y: "x = 10 ^ (p - k) * y" using k(2) by (rule dvdE)
    have "10 ^ p = 10 ^ (p - k) * (10 ^ k :: nat)" using k(1) by (simp add: power_add [symmetric])
    then show ?thesis using y by (simp add: mult_mod_right [symmetric] mult.commute)
  qed
  have "at_unit_end []" by (simp add: at_unit_end_def)
  show ?thesis
  proof (cases "k = 0")
    case True
    then have "x mod 10 ^ p = 0" "buf = u" "q = x div 10 ^ p" using k assms(1) by (simp_all add: fmtFrac_def)
    then show ?thesis using next_unit_plain [OF assms(2) _ \<open>at_unit_end []\<close>, of v] assms(4) by simp
  next
    case False
    then have "buf = CHR ''.'' # pad k (x div 10 ^ (p - k)) @ u" "q = x div 10 ^ p"
      using k assms(1) by (simp_all add: fmtFrac_def)
    then show ?thesis
      using next_unit_fraction [OF assms(2,3) \<open>at_unit_end []\<close> _ k(1), of v "x div 10 ^ (p - k)"] False assms(4) split
      by simp
  qed
qed


lemma parse_step:
  assumes "s \<noteq> []" "next_unit orig s = Inr (v, rest)" "d + v \<le> 2 ^ 63"
  shows "parse_units (Suc n) orig s d = parse_units n orig rest (d + v)"
  using assms by (cases s) simp_all

lemma at_show_nat [simp]: "at_unit_end (show_nat v @ t)"
  using show_nat_hd by (simp add: at_unit_end_def)

lemma parse_small:
  assumes "0 < u" "u < 1000000000"
  shows "parse_units (Suc n) orig (format_magnitude u) 0 = Some (Inr u)"
proof -
  obtain un and p :: nat where un: "(un, p) = (if u < 1000 then (''ns'', 0) else if u < 1000000 then (micro @ ''s'', 3) else (''ms'', 6))"
    by (metis surj_pair)
  have nm: "unit_name un (10 ^ p)" "p \<le> 9" using un unit_names by (auto split: if_splits)
  obtain buf q where fr: "fmtFrac un u p = (buf, q)" by fastforce
  have q: "q = u div 10 ^ p" using next_unit_fmtFrac [OF fr nm, of 0] mod_less_eq_dividend [of u "10 ^ p"] assms(2) by simp
  have s: "format_magnitude u = show_nat q @ buf"
    using assms un fr by (auto simp: format_magnitude_def fmtInt_def split: if_splits prod.splits)
  have u: "q * 10 ^ p + u mod 10 ^ p = u" unfolding q by (rule div_mult_mod_eq)
  have le: "q * 10 ^ p + u mod 10 ^ p \<le> 2 ^ 63" unfolding u using assms(2) by simp
  have "next_unit orig (show_nat q @ buf) = Inr (u, [])"
    using conjunct2 [OF next_unit_fmtFrac [OF fr nm le]] unfolding u .
  then show ?thesis using parse_step [of "show_nat q @ buf" orig u "[]" 0 n] s assms(2) by simp
qed

lemma parse_large:
  assumes "1000000000 \<le> u" "u \<le> 2 ^ 63"
  shows "parse_units 3 orig (format_magnitude u) 0 = Some (Inr u)"
proof -
  obtain buf q where fr: "fmtFrac ''s'' u 9 = (buf, q)" by fastforce
  have nm: "unit_name ''s'' (10 ^ 9)" using unit_names by simp
  define sec where "sec = q mod 60 * 1000000000 + u mod 1000000000"
  have "u mod 10 ^ 9 < 10 ^ 9" "q mod 60 < 60" by simp_all
  then have small: "sec \<le> 60000000000" unfolding sec_def by simp
  have q: "q = u div 1000000000" using next_unit_fmtFrac [OF fr nm, of 0] by simp
  have "next_unit orig (show_nat (q mod 60) @ buf) = Inr (sec, [])"
    using conjunct2 [OF next_unit_fmtFrac [OF fr nm order_refl, of "q mod 60"]] small unfolding sec_def by simp
  then have S: "parse_units (Suc n) orig (show_nat (q mod 60) @ buf) d = Some (Inr (d + sec))"
    if "d + sec \<le> 2 ^ 63" for n d using parse_step [of "show_nat (q mod 60) @ buf"] that by simp
  have M: "parse_units (Suc (Suc n)) orig (show_nat m @ ''m'' @ show_nat (q mod 60) @ buf) d =
      Some (Inr (d + m * 60000000000 + sec))" if "d + m * 60000000000 + sec \<le> 2 ^ 63" for n m d
    using next_unit_plain [OF unit_names(5), of "show_nat (q mod 60) @ buf" m orig] that
      parse_step [of "show_nat m @ ''m'' @ show_nat (q mod 60) @ buf" orig "m * 60000000000" _ d "Suc n"]
      S [of "d + m * 60000000000" n] by simp
  have H: "parse_units 3 orig (show_nat h @ ''h'' @ show_nat m @ ''m'' @ show_nat (q mod 60) @ buf) 0 =
      Some (Inr (h * 3600000000000 + m * 60000000000 + sec))"
    if "h * 3600000000000 + m * 60000000000 + sec \<le> 2 ^ 63" for h m
    using next_unit_plain [OF unit_names(6), of "show_nat m @ ''m'' @ show_nat (q mod 60) @ buf" h orig] that
      parse_step [of "show_nat h @ ''h'' @ show_nat m @ ''m'' @ show_nat (q mod 60) @ buf" orig "h * 3600000000000" _ 0 "Suc (Suc 0)"]
      M [of "h * 3600000000000" m 0] by (simp add: numeral_3_eq_3)
  have sum: "q div 60 div 60 * 3600000000000 + q div 60 mod 60 * 60000000000 + sec = u"
    using div_mult_mod_eq [of "q div 60" 60] div_mult_mod_eq [of q 60]
      div_mult_mod_eq [of u 1000000000, folded q] unfolding sec_def by linarith
  have s: "format_magnitude u =
      (if q div 60 = 0 then show_nat (q mod 60) @ buf
       else if q div 60 div 60 = 0 then show_nat (q div 60 mod 60) @ ''m'' @ show_nat (q mod 60) @ buf
       else show_nat (q div 60 div 60) @ ''h'' @ show_nat (q div 60 mod 60) @ ''m'' @ show_nat (q mod 60) @ buf)"
    using assms(1) fr by (simp add: format_magnitude_def fmtInt_def Let_def)
  show ?thesis
    using S [of 0 2] M [of 0 "q div 60 mod 60" 1] H [of "q div 60 div 60" "q div 60 mod 60"] sum assms(2) s
    by (auto simp: numeral_3_eq_3 numeral_2_eq_2)
qed


lemma parse_magnitude:
  assumes "u \<le> 2 ^ 63"
  shows "parse_units 3 orig (format_magnitude u) 0 = Some (Inr u)"
proof -
  consider "u = 0" | "0 < u" "u < 1000000000" | "1000000000 \<le> u" by linarith
  then show ?thesis
  proof cases
    case 1
    have zero: "show_nat 0 @ ''s'' = ''0s''" by code_simp
    have "next_unit orig ''0s'' = Inr (0, [])"
      using next_unit_plain [OF unit_names(4), of "[]" 0 orig] by (simp add: at_unit_end_def zero [symmetric])
    then show ?thesis using 1 parse_step [of "''0s''" orig 0 "[]" 0 2]
      by (simp add: format_magnitude_def numeral_3_eq_3 numeral_2_eq_2)
  next
    case 2
    then show ?thesis using parse_small [of u 2] by (simp add: numeral_3_eq_3)
  next
    case 3
    then show ?thesis using parse_large assms by blast
  qed
qed

text \<open>So what is printed is not taken for a sign, for the bare zero or for nothing.\<close>

lemma magnitude_shape:
  assumes "u \<le> 2 ^ 63"
  obtains c t where "format_magnitude u = c # t" "c \<noteq> CHR ''-''" "c \<noteq> CHR ''+''" "c # t \<noteq> ''0''"
proof (cases "format_magnitude u")
  case Nil
  then have "u = 0" using parse_magnitude [OF assms, of "[]"] by (simp add: numeral_3_eq_3)
  then show ?thesis using Nil by (simp add: format_magnitude_def)
next
  case (Cons c t)
  note pm = parse_magnitude [OF assms, of "[]", unfolded Cons]
  have "\<not> unit_char c" using pm by (auto simp: numeral_3_eq_3 next_unit_def)
  moreover have "unit_char (CHR ''-'')" "unit_char (CHR ''+'')" by code_simp+
  moreover have "parse_units 3 [] ''0'' 0 = Some (Inl (MissingUnit []))" by code_simp
  then have "c # t \<noteq> ''0''" using pm by auto
  ultimately show ?thesis using that Cons by metis
qed


section \<open>The loop ends\<close>

lemma leadingInt_length: "leadingInt x s = Some (v, t) \<Longrightarrow> length t \<le> length s"
  by (induction x s rule: leadingInt.induct) (auto simp: Let_def split: if_splits)

lemma leadingFraction_length: "leadingFraction x sc ov s = (f, sc', t) \<Longrightarrow> length t \<le> length s"
  by (induction x sc ov s rule: leadingFraction.induct) (auto simp: Let_def split: if_splits)

text \<open>Every turn consumes at least a unit's name.\<close>

lemma next_unit_shorter:
  assumes "next_unit orig s = Inr (v, rest)"
  shows "length rest < length s"
proof -
  obtain x s1 where li: "leadingInt 0 s = Some (x, s1)" using assms by (auto simp: next_unit_def split: if_splits option.splits)
  define m where "m = (case s1 of
               c # t \<Rightarrow>
                 if c = CHR ''.'' then
                   (case leadingFraction 0 1 False t of (f, scale, s2) \<Rightarrow> (f, scale, s2, length s2 \<noteq> length t))
                 else (0, 1, s1, False)
             | [] \<Rightarrow> (0, 1, s1, False))"
  obtain f scale s2 post where m: "m = (f, scale, s2, post)" by (metis surj_pair)
  have "length s2 \<le> length s1"
    using m leadingFraction_length [of 0 1 False]
    by (fastforce simp: m_def split: list.splits if_splits prod.splits)
  moreover have "takeWhile unit_char s2 \<noteq> []" "rest = dropWhile unit_char s2"
    using assms li m by (auto simp: next_unit_def m_def [symmetric] Let_def split: if_splits option.splits)
  then have "length rest < length s2"
    by (metis append_self_conv2 length_append less_add_same_cancel2 length_greater_0_conv takeWhile_dropWhile_id)
  ultimately show ?thesis using leadingInt_length [OF li] by linarith
qed

lemma parse_units_ends:
  "length s \<le> turns \<Longrightarrow> \<exists>r. parse_units turns orig s d = Some r"
proof (induction turns orig s d rule: parse_units.induct)
  case (3 turns orig c s d)
  then show ?case using next_unit_shorter [of orig "c # s"] by (fastforce simp: Let_def split: sum.split prod.split)
qed simp_all

lemma parse_units_more:
  "parse_units turns orig s d = Some r \<Longrightarrow> parse_units (turns + extra) orig s d = Some r"
proof (induction turns orig s d rule: parse_units.induct)
  case (1 turns orig d)
  then show ?case by (cases "turns + extra") simp_all
qed (auto simp: Let_def split: sum.splits prod.splits if_splits)


section \<open>Properties\<close>

text \<open>The turns a value can take: one for each character of a string at most.\<close>

definition turns_for :: "json_value \<Rightarrow> nat" where
  "turns_for v = (case v of JString s \<Rightarrow> length s | _ \<Rightarrow> 0)"

lemma ParseDuration_ends: "\<exists>r. \<forall>extra. ParseDuration (length s + extra) s = Some r"
proof -
  have ends: "\<exists>r. \<forall>extra. parse_units (length s + extra) s t 0 = Some r" if le: "length t \<le> length s" for t
  proof -
    obtain r where "parse_units (length s) s t 0 = Some r" using parse_units_ends [OF le] by blast
    then show ?thesis using parse_units_more by blast
  qed
  obtain neg t where t: "(case s of
           c # t \<Rightarrow> if c = CHR ''-'' \<or> c = CHR ''+'' then (c = CHR ''-'', t) else (False, s)
         | [] \<Rightarrow> (False, s)) = (neg, t)" by fastforce
  then have "length t \<le> length s" by (auto split: list.splits if_splits)
  from ends [OF this] obtain r where "\<And>extra. parse_units (length s + extra) s t 0 = Some r" by blast
  then show ?thesis using t by (cases r) (auto simp: ParseDuration_def)
qed


text \<open>C33: A duration survives the trip through the configuration file. Every 64-bit number of nanoseconds,
  the smallest included, is written as a text that is read back as the same number.\<close>

theorem duration_roundtrip:
  assumes "- (2 ^ 63) \<le> d" "d < 2 ^ 63"
  shows "UnmarshalJSON (turns_for (MarshalJSON d)) (MarshalJSON d) = Some (Inr d)"
proof -
  let ?u = "nat \<bar>d\<bar>"
  let ?s = "duration_String d"
  have u: "?u \<le> 2 ^ 63" using assms by simp
  from magnitude_shape [OF u] obtain c t where
    m: "format_magnitude ?u = c # t" "c \<noteq> CHR ''-''" "c \<noteq> CHR ''+''" "c # t \<noteq> ''0''" by blast
  have len: "length (c # t) \<le> length ?s" unfolding duration_String_def m(1) by simp
  obtain r where "parse_units (length ?s) ?s (c # t) 0 = Some r" using parse_units_ends [OF len] by blast
  moreover have "parse_units (length ?s + 3) ?s (c # t) 0 = Some (Inr ?u)"
    using parse_units_more [OF parse_magnitude [OF u, of ?s], of "length ?s"] m(1) by (simp add: add.commute)
  ultimately have p: "parse_units (length ?s) ?s (c # t) 0 = Some (Inr ?u)"
    using parse_units_more [of "length ?s" ?s "c # t" 0 r 3] by simp
  have "ParseDuration (length ?s) ?s = Some (Inr d)"
  proof (cases "d < 0")
    case True
    then have s: "?s = CHR ''-'' # c # t" unfolding duration_String_def m(1) by simp
    show ?thesis using True m(4) p unfolding s by (simp add: ParseDuration_def)
  next
    case False
    then have s: "?s = c # t" unfolding duration_String_def m(1) by simp
    have "\<not> 2 ^ 63 - 1 < ?u" using False assms(2) by (simp add: nat_less_iff not_less)
    then show ?thesis using False m(2-4) p unfolding s by (auto simp: ParseDuration_def)
  qed
  then show ?thesis by (simp add: MarshalJSON_def UnmarshalJSON_def turns_for_def)
qed

theorem duration_roundtrip_witness:
  "MarshalJSON (- 90500000000) = JString ''-1m30.5s'' \<and>
   UnmarshalJSON 8 (JString ''-1m30.5s'') = Some (Inr (- 90500000000))"
proof -
  have t: "MarshalJSON (- 90500000000) = JString ''-1m30.5s''" by code_simp
  then have "turns_for (MarshalJSON (- 90500000000)) = 8" by (simp add: turns_for_def)
  then show ?thesis using duration_roundtrip [of "- 90500000000"] t by simp
qed

text \<open>Two quirks of the library's loop reach the configuration: a sum that comes out at exactly $2^{64}$ wraps to
  zero before it is compared, and \<^verbatim>\<open>null\<close> is refused as an empty string rather than left at the default.\<close>

lemma duration_wraps:
  "UnmarshalJSON 50 (JString ''9223372036854775808ns9223372036854775808ns'') = Some (Inr 0)"
  by code_simp

lemma duration_null: "UnmarshalJSON turns JNull = Some (Inl (BadDuration [] (InvalidDuration [])))"
  by (simp add: UnmarshalJSON_def ParseDuration_def)

end
