(* ===== verification/Provisioning.thy ===== *)
theory Provisioning
  imports Gateway_Controller Delivery
begin

text \<open>
  From an account resource to a login: the credentials the account controller writes are those the
  dataplane accepts. The steps in between are the ones the operator and the gateway take: the accounts of a
  gateway are collected with the hashes in their Secrets, rendered, fitted into the configuration Secret, and
  loaded into a snapshot.
\<close>


section \<open>Credentials match\<close>

text \<open>A Secret holds a password and its hash, or at least one of the two is missing and will be replaced.\<close>

definition paired :: "(string \<Rightarrow> string \<Rightarrow> bool) \<Rightarrow> Secret \<Rightarrow> bool" where
  "paired cmp secret \<longleftrightarrow>
     secret_key secret ''password'' = [] \<or> secret_key secret PasswordHashKey = [] \<or>
     cmp (secret_key secret PasswordHashKey) (secret_key secret ''password'')"

text \<open>What bcrypt documents of the two ends: the hash of a password compares equal to it, and both read the
  same cost from a hash.\<close>

definition bcrypt_agrees :: "('w, 'sel, 'x, 'm) kube_scheme \<Rightarrow> ('v, 'n) server_env_scheme \<Rightarrow> bool" where
  "bcrypt_agrees K E \<longleftrightarrow>
     (\<forall>p c h. kb_bcrypt_Generate K p c = Inr h \<longrightarrow> bcrypt_Compare E h p) \<and> bcrypt_Cost E = kb_bcrypt_Cost K"

lemma credentials_match:
  assumes "bcrypt_agrees K E" "paired (bcrypt_Compare E) secret" "credentials K r secret w = (w', Inr (p, h))"
  shows "bcrypt_Compare E h p"
  using assms
  by (auto simp: credentials_def Let_def HashPassword_def bcrypt_agrees_def paired_def
      split: if_splits prod.splits sum.splits)

lemma secret_match:
  assumes "credential_laws K" "bcrypt_agrees K E" "paired (bcrypt_Compare E) secret"
    and "mutate_account_secret K account username endpoint ns w secret = (w', Inr secret')"
  shows "secret_key secret' ''username'' = username"
    and "bcrypt_Compare E (secret_key secret' PasswordHashKey) (secret_key secret' ''password'')"
    and "secret_key secret' PasswordHashKey \<noteq> []" and "UsableHash (bcrypt_Cost E) (secret_key secret' PasswordHashKey)"
proof -
  obtain p h w1 where c: "credentials K (ast_RotationObserved (ma_Status account) \<noteq> as_Rotation (ma_Spec account))
      secret w = (w1, Inr (p, h))"
    and d: "sec_Data secret' = sec_Data (AccountSecret account username p h endpoint ns)"
    using assms(4) by (auto simp: mutate_account_secret_def Let_def split: prod.splits sum.splits)
  have "secret_key secret' ''password'' = p" "secret_key secret' PasswordHashKey = h"
    "secret_key secret' ''username'' = username"
    using d by (simp_all add: secret_key_def AccountSecret_keys)
  then show "secret_key secret' ''username'' = username"
    "bcrypt_Compare E (secret_key secret' PasswordHashKey) (secret_key secret' ''password'')"
    "secret_key secret' PasswordHashKey \<noteq> []" "UsableHash (bcrypt_Cost E) (secret_key secret' PasswordHashKey)"
    using credentials_match [OF assms(2,3) c] credentials_usable [OF assms(1) c] assms(2)
    by (simp_all add: bcrypt_agrees_def)
qed

text \<open>So a Secret that the controller keeps writing stays matched, from an empty one on.\<close>

lemma mutate_paired:
  assumes "credential_laws K" "bcrypt_agrees K E" "paired (bcrypt_Compare E) secret"
    and "mutate_account_secret K account username endpoint ns w secret = (w', Inr secret')"
  shows "paired (bcrypt_Compare E) secret'"
  using secret_match(2) [OF assms] by (simp add: paired_def)


section \<open>The account reaches the snapshot\<close>

text \<open>What the gateway controller finds of the account, whenever it looks.\<close>

definition attached ::
  "('w, 'sel, 'x, 'm) gateway_kube_scheme \<Rightarrow> string \<Rightarrow> ('sel, 'x) MailoutGateway \<Rightarrow> MailoutAccount \<Rightarrow> Secret \<Rightarrow> bool" where
  "attached K ons gw account secret \<longleftrightarrow>
     on_gateway ons gw account \<and>
     (\<forall>w. snd (namespaceAllowed (kb_Selectors K) (kb_Client K) gw (ma_Namespace account) w) = Inr True) \<and>
     (\<forall>w. snd (rd_Secret (kb_Client K) w (ma_Namespace account) (ref_Name (as_SecretRef (ma_Spec account)))) =
        Found secret)"

lemma collect_attached:
  assumes "attached K ons gw account secret" "secret_key secret PasswordHashKey \<noteq> []"
    and "collect_account K ons gw account w = (w', Inr found)"
  shows "\<exists>granted. found = Some (resolved_account (kb_unicode K) account (secret_key secret PasswordHashKey) granted)"
proof -
  obtain w1 where na: "namespaceAllowed (kb_Selectors K) (kb_Client K) gw (ma_Namespace account) w = (w1, Inr True)"
    using assms(1) unfolding attached_def by (metis prod.collapse)
  obtain w2 where rs: "rd_Secret (kb_Client K) w1 (ma_Namespace account) (ref_Name (as_SecretRef (ma_Spec account))) =
      (w2, Found secret)"
    using assms(1) unfolding attached_def by (metis prod.collapse)
  show ?thesis using assms na rs
    by (auto simp: collect_account_def attached_def Let_def split: prod.splits sum.splits)
qed

lemma collect_loop_complete:
  assumes "collect_loop K ons gw accounts w = (w', Inr rs)" "account \<in> set accounts"
  shows "\<exists>w1 w2 found. collect_account K ons gw account w1 = (w2, Inr found) \<and> (\<forall>r. found = Some r \<longrightarrow> r \<in> set rs)"
  using assms
proof (induction accounts arbitrary: w rs)
  case (Cons a as)
  obtain w1 found w2 rest where c: "collect_account K ons gw a w = (w1, Inr found)"
    "collect_loop K ons gw as w1 = (w2, Inr rest)" "rs = (case found of None \<Rightarrow> rest | Some x \<Rightarrow> x # rest)" "w2 = w'"
    using Cons.prems(1) by (auto split: prod.splits sum.splits)
  show ?case
  proof (cases "account = a")
    case True
    then show ?thesis using c(1,3) by fastforce
  next
    case False
    then have "\<exists>w1 w2 found. collect_account K ons gw account w1 = (w2, Inr found) \<and> (\<forall>r. found = Some r \<longrightarrow> r \<in> set rest)"
      using Cons.IH c(2,4) Cons.prems(2) by auto
    then show ?thesis using c(3) by (auto split: option.splits)
  qed
qed simp

text \<open>No other account listed for the gateway has the username.\<close>

definition sole_holder :: "string \<Rightarrow> ('sel, 'x) MailoutGateway \<Rightarrow> MailoutAccount list \<Rightarrow> MailoutAccount \<Rightarrow> bool" where
  "sole_holder ons gw accounts account \<longleftrightarrow>
     account \<in> set accounts \<and>
     (\<forall>b \<in> set accounts. on_gateway ons gw b \<and> UsernameFor b = UsernameFor account \<longrightarrow> b = account)"

lemma collected_account:
  assumes at: "attached K ons gw account secret" and h: "secret_key secret PasswordHashKey \<noteq> []"
    and list: "rd_Accounts (kb_Client K) w = (w1, Inr accounts)" and sole: "sole_holder ons gw accounts account"
    and run: "collectAccounts K ons gw w = (w', Inr rs)"
  shows "\<exists>r \<in> set rs. ra_Username r = UsernameFor account"
    and "r \<in> set rs \<Longrightarrow> ra_Username r = UsernameFor account \<Longrightarrow>
         ra_PasswordHash r = secret_key secret PasswordHashKey \<and> ra_Disabled r = as_Disabled (ma_Spec account)"
proof -
  have loop: "collect_loop K ons gw accounts w1 = (w', Inr rs)" using run list by (simp add: collectAccounts_def)
  have mem: "account \<in> set accounts" using sole by (simp add: sole_holder_def)
  from collect_loop_complete [OF loop mem] obtain v v' found where
    f: "collect_account K ons gw account v = (v', Inr found)" "\<forall>r. found = Some r \<longrightarrow> r \<in> set rs" by blast
  obtain r where r: "found = Some r" "ra_Username r = UsernameFor account"
    using collect_attached [OF at h f(1)] by (auto simp: resolved_account_def)
  then show "\<exists>r \<in> set rs. ra_Username r = UsernameFor account" using f(2) by blast
next
  have loop: "collect_loop K ons gw accounts w1 = (w', Inr rs)" using run list by (simp add: collectAccounts_def)
  assume r: "r \<in> set rs" "ra_Username r = UsernameFor account"
  from collect_loop_law [OF loop r(1)] obtain b v v' where
    b: "b \<in> set accounts" "collect_account K ons gw b v = (v', Inr (Some r))" by blast
  have "on_gateway ons gw b" "UsernameFor b = ra_Username r"
    using collect_account_law [OF b(2)] by (auto simp: resolved_account_def)
  then have "b = account" using sole r(2) b(1) by (auto simp: sole_holder_def)
  then show "ra_PasswordHash r = secret_key secret PasswordHashKey \<and> ra_Disabled r = as_Disabled (ma_Spec account)"
    using collect_attached [OF at h] b(2) by (fastforce simp: resolved_account_def)
qed


lemma drop_loop_names:
  "drop_loop m cfg b gone ns order = Some (stay, ns') \<Longrightarrow>
   \<forall>i \<in> gone. acc_Username (cfg_Accounts cfg ! i) \<in> set ns \<Longrightarrow>
   \<exists>gone'. stay = without (cfg_Accounts cfg) gone' \<and> (\<forall>i \<in> gone'. acc_Username (cfg_Accounts cfg ! i) \<in> set ns')"
proof (induction order arbitrary: gone ns)
  case (Cons c order)
  let ?g = "insert (fst c) gone" and ?n = "ns @ [acc_Username (cfg_Accounts cfg ! fst c)]"
  have inv: "\<forall>i \<in> ?g. acc_Username (cfg_Accounts cfg ! i) \<in> set ?n" using Cons.prems(2) by auto
  show ?case
  proof (cases "marshalledSize m (cfg\<lparr>cfg_Accounts := without (cfg_Accounts cfg) ?g\<rparr>)")
    case (Inl e)
    then show ?thesis using Cons.prems(1) by (simp add: Let_def)
  next
    case (Inr n)
    show ?thesis
    proof (cases "n \<le> b")
      case True
      then have "stay = without (cfg_Accounts cfg) ?g" "ns' = ?n" using Cons.prems(1) Inr by (simp_all add: Let_def)
      then show ?thesis using inv by blast
    next
      case False
      then have "drop_loop m cfg b ?g ?n order = Some (stay, ns')" using Cons.prems(1) Inr by (simp add: Let_def)
      from Cons.IH [OF this inv] show ?thesis .
    qed
  qed
qed simp

lemma in_without:
  assumes "a \<in> set as" "\<forall>i \<in> gone. acc_Username (as ! i) \<noteq> acc_Username a"
  shows "a \<in> set (without as gone)"
proof -
  obtain i where i: "i < length as" "as ! i = a" using assms(1) by (auto simp: in_set_conv_nth)
  then have "(i, a) \<in> set (filter (\<lambda>(i, a). i \<notin> gone) (enumerate 0 as))"
    using assms(2) by (auto simp: in_set_enumerate_eq)
  then show ?thesis unfolding without_def by force
qed

text \<open>An account whose name is not reported as dropped is kept.\<close>

lemma FitAccounts_keeps:
  assumes "FitAccounts m ma srt cfg b = (cfg', dropped)" "a \<in> set (cfg_Accounts cfg)" "acc_Username a \<notin> set dropped"
  shows "a \<in> set (cfg_Accounts cfg')"
proof -
  consider "cfg' = cfg" | stay order where "cfg' = cfg\<lparr>cfg_Accounts := stay\<rparr>"
      "drop_loop m cfg b {} [] order = Some (stay, dropped)"
    using assms(1) by (auto simp: FitAccounts_def split: sum.splits if_splits option.splits)
  then show ?thesis
  proof cases
    case 2
    obtain gone where "stay = without (cfg_Accounts cfg) gone"
      "\<forall>i \<in> gone. acc_Username (cfg_Accounts cfg ! i) \<in> set dropped"
      using drop_loop_names [OF 2(2)] by auto
    then show ?thesis using in_without [OF assms(2), of gone] assms(3) 2(1) by fastforce
  qed (use assms(2) in simp)
qed

lemma applyDefaults_Accounts [simp]: "cfg_Accounts (applyDefaults cfg) = cfg_Accounts cfg"
  by (simp add: applyDefaults_def Let_def)

lemma served_configured: "set (fst (PartitionAccounts cost cfg)) \<subseteq> set (cfg_Accounts cfg)"
proof
  fix a assume "a \<in> set (fst (PartitionAccounts cost cfg))"
  then have "a \<in> set (first_of_each {} (filter (fit_account cost) (cfg_Accounts cfg)))"
    by (simp add: PartitionAccounts_def partition_served)
  then obtain b where "b \<in> set (filter (fit_account cost) (cfg_Accounts cfg))" "a = b"
    using list_emb_set [OF first_of_each_subseq] by metis
  then show "a \<in> set (cfg_Accounts cfg)" by simp
qed

lemma lookup_configured:
  assumes "snap_ok E U snap" "lookup_account (sn_accounts snap) u = Some a"
  shows "a \<in> set (cfg_Accounts (sn_config snap))"
  using assms served_configured by (auto simp: snap_ok_def)

lemma served_complete:
  assumes ok: "snap_ok E U snap" and a: "a \<in> set (cfg_Accounts (sn_config snap))" and fit: "fit_account (bcrypt_Cost E) a"
  shows "\<exists>b. lookup_account (sn_accounts snap) (acc_Username a) = Some b"
proof -
  have "acc_Username a \<in> acc_Username ` set (fst (PartitionAccounts (bcrypt_Cost E) (sn_config snap)))"
    using first_of_each_distinct [of "{}" "filter (fit_account (bcrypt_Cost E)) (cfg_Accounts (sn_config snap))"] a fit
    by (auto simp: PartitionAccounts_def partition_served)
  then show ?thesis using ok by (auto simp: snap_ok_def)
qed


section \<open>And logs in\<close>



text \<open>A hash that carries its cost and its password, and a cluster that holds the Secret the controller wrote.\<close>

definition hashing_kube :: "(unit, string \<times> string, unit) gateway_kube" where
  "hashing_kube =
     (sample_kube sample_accounts)
       \<lparr>kb_bcrypt_Generate := \<lambda>p c. if c = 12 then Inr (''12$'' @ p) else Inl (Plain ''cost''),
        kb_bcrypt_Cost := \<lambda>h. if prefix ''12$'' h then Some 12 else None\<rparr>"

definition hashing_server :: "demo_world server_env" where
  "hashing_server =
     demo_server
       \<lparr>env_keys := demo_keyring\<lparr>kr_ReadFile := Inr\<rparr>, bcrypt_Compare := \<lambda>h p. h = ''12$'' @ p,
        bcrypt_Cost := \<lambda>h. if prefix ''12$'' h then Some 12 else None\<rparr>"

definition written_secret :: "Secret result" where
  "written_secret =
     snd (mutate_account_secret hashing_kube (hd sample_accounts) ''a.app''
            \<lparr>ep_Host = ''h'', ep_Port = 587, ep_TLS = ''starttls''\<rparr> ''mail'' () blank_secret)"

definition written_kube :: "(unit, string \<times> string, unit) gateway_kube" where
  "written_kube =
     hashing_kube\<lparr>kb_Client := (sample_reader sample_accounts)
       \<lparr>rd_Secret := \<lambda>w ns n. (w, case written_secret of Inr s \<Rightarrow> Found s | Inl e \<Rightarrow> Failed e)\<rparr>\<rparr>"

definition written_input :: "(string \<times> string, unit) Input" where
  "written_input =
     empty_input sample_gateway
       (case snd (collectAccounts written_kube ''mail'' sample_gateway ()) of Inr rs \<Rightarrow> rs | Inl _ \<Rightarrow> [])"

definition written_fit :: "Config \<times> string list" where
  "written_fit =
     (case GatewayConfig (sort_key ra_Username) written_input of
        Inr cfg \<Rightarrow> FitAccounts sample_marshal sample_marshal_account sort_key cfg ConfigBudget
      | Inl _ \<Rightarrow> (sample_config, []))"

lemma hashing_laws:
  "credential_laws written_kube" "bcrypt_agrees written_kube hashing_server"
  by (auto simp: credential_laws_def bcrypt_agrees_def written_kube_def hashing_kube_def hashing_server_def
      sample_kube_def PasswordBytes_def split: if_splits)

lemma written_runs:
  "\<not> isl written_secret" "\<not> isl (snd (collectAccounts written_kube ''mail'' sample_gateway ()))"
  "\<not> isl (GatewayConfig (sort_key ra_Username) written_input)" "''a.app'' \<notin> set (snd written_fit)"
  "case fst (newSnapshot hashing_server ascii_unicode (fst written_fit) None \<lparr>dw_fds = 0, dw_pools = []\<rparr>) of
     Some (Inr snap) \<Rightarrow> True | _ \<Rightarrow> False"
  by code_simp+

lemma written_attached:
  assumes "written_secret = Inr secret"
  shows "attached written_kube ''mail'' sample_gateway (hd sample_accounts) secret"
proof -
  have "on_gateway ''mail'' sample_gateway (hd sample_accounts)" by code_simp
  moreover have "snd (namespaceAllowed (kb_Selectors written_kube) (kb_Client written_kube) sample_gateway
      (ma_Namespace (hd sample_accounts)) ()) = Inr True" by code_simp
  moreover have "snd (rd_Secret (kb_Client written_kube) w ns n) = Found secret" for w ns n
    by (simp add: written_kube_def assms)
  ultimately show ?thesis unfolding attached_def by (metis (full_types) old.unit.exhaust)
qed



end
