(* ===== verification/Go_Store.thy ===== *)
theory Go_Store
  imports Prelude
begin

text \<open>
  Go values with pointers, slices and maps, over an explicit store, and what it means to copy one deeply.
  The generated \<^verbatim>\<open>DeepCopyInto\<close> functions are built from the few statements modelled here; \<open>Deep_Copy\<close> has
  the functions themselves.
\<close>


section \<open>Values and the store\<close>

text \<open>A pointer, a slice and a map are the address of what they refer to. A struct holds its fields.\<close>

datatype val = Scalar string | NilRef | Ref nat | Struct "(string \<times> val) list"

datatype cell = Target val | Elems "val list" | Entries "(string \<times> val) list"

type_synonym heap = "cell list"

text \<open>The types of the sources, as far as references go: \<open>TPlain\<close> is a type without any.\<close>

datatype ty = TPlain | TPtr ty | TSlice ty | TMap ty | TStruct "(string \<times> ty) list"

definition scalar :: "val \<Rightarrow> bool" where
  "scalar v \<longleftrightarrow> (case v of Scalar _ \<Rightarrow> True | _ \<Rightarrow> False)"

primrec has_type :: "ty \<Rightarrow> heap \<Rightarrow> val \<Rightarrow> bool" where
  "has_type TPlain = (\<lambda>h v. scalar v)"
| "has_type (TPtr t) = (\<lambda>h v. v = NilRef \<or>
     (\<exists>a x. v = Ref a \<and> a < length h \<and> h ! a = Target x \<and> has_type t h x))"
| "has_type (TSlice t) = (\<lambda>h v. v = NilRef \<or>
     (\<exists>a xs. v = Ref a \<and> a < length h \<and> h ! a = Elems xs \<and> list_all (has_type t h) xs))"
| "has_type (TMap t) = (\<lambda>h v. v = NilRef \<or>
     (\<exists>a es. v = Ref a \<and> a < length h \<and> h ! a = Entries es \<and> list_all (\<lambda>e. has_type t h (snd e)) es))"
| "has_type (TStruct fs) = (\<lambda>h v. \<exists>vs. v = Struct vs \<and>
     list_all2 (\<lambda>f x. fst f = fst x \<and> snd f h (snd x)) (map (map_prod id has_type) fs) vs)"

text \<open>What a value looks like to a reader who cannot see addresses.\<close>

datatype tree =
    Leaf string | Absent | Pointed tree | Many "tree list" | Keyed "(string \<times> tree) list"
  | Fields "(string \<times> tree) list"

primrec view :: "ty \<Rightarrow> heap \<Rightarrow> val \<Rightarrow> tree" where
  "view TPlain = (\<lambda>h v. case v of Scalar s \<Rightarrow> Leaf s | _ \<Rightarrow> Absent)"
| "view (TPtr t) = (\<lambda>h v. case v of
     Ref a \<Rightarrow> (case h ! a of Target x \<Rightarrow> Pointed (view t h x) | _ \<Rightarrow> Absent) | _ \<Rightarrow> Absent)"
| "view (TSlice t) = (\<lambda>h v. case v of
     Ref a \<Rightarrow> (case h ! a of Elems xs \<Rightarrow> Many (map (view t h) xs) | _ \<Rightarrow> Absent) | _ \<Rightarrow> Absent)"
| "view (TMap t) = (\<lambda>h v. case v of
     Ref a \<Rightarrow> (case h ! a of Entries es \<Rightarrow> Keyed (map (\<lambda>e. (fst e, view t h (snd e))) es) | _ \<Rightarrow> Absent)
   | _ \<Rightarrow> Absent)"
| "view (TStruct fs) = (\<lambda>h v. case v of
     Struct vs \<Rightarrow> Fields (map2 (\<lambda>f x. (fst x, snd f h (snd x))) (map (map_prod id view) fs) vs) | _ \<Rightarrow> Absent)"

text \<open>The addresses that can be reached from a value, and so written through it.\<close>

primrec cells_of :: "ty \<Rightarrow> heap \<Rightarrow> val \<Rightarrow> nat set" where
  "cells_of TPlain = (\<lambda>h v. {})"
| "cells_of (TPtr t) = (\<lambda>h v. case v of
     Ref a \<Rightarrow> insert a (case h ! a of Target x \<Rightarrow> cells_of t h x | _ \<Rightarrow> {}) | _ \<Rightarrow> {})"
| "cells_of (TSlice t) = (\<lambda>h v. case v of
     Ref a \<Rightarrow> insert a (case h ! a of Elems xs \<Rightarrow> \<Union> (set (map (cells_of t h) xs)) | _ \<Rightarrow> {}) | _ \<Rightarrow> {})"
| "cells_of (TMap t) = (\<lambda>h v. case v of
     Ref a \<Rightarrow> insert a (case h ! a of Entries es \<Rightarrow> \<Union> (set (map (\<lambda>e. cells_of t h (snd e)) es)) | _ \<Rightarrow> {})
   | _ \<Rightarrow> {})"
| "cells_of (TStruct fs) = (\<lambda>h v. case v of
     Struct vs \<Rightarrow> \<Union> (set (map2 (\<lambda>f x. snd f h (snd x)) (map (map_prod id cells_of) fs) vs)) | _ \<Rightarrow> {})"


section \<open>The statements of a copy\<close>

text \<open>What a function that fills \<^verbatim>\<open>out\<close> from \<^verbatim>\<open>in\<close> leaves in \<^verbatim>\<open>out\<close>, and the store after it. An allocation takes the
  next address. The sources allocate before they fill in; the order only numbers the addresses.\<close>

type_synonym copier = "val \<Rightarrow> heap \<Rightarrow> val \<times> heap"

definition assign :: copier where
  "assign v h = (v, h)"

text \<open>\<^verbatim>\<open>if in.F != nil { *out = new(T); ... }\<close>, for a pointer.\<close>

definition copy_ptr :: "copier \<Rightarrow> copier" where
  "copy_ptr f v h =
     (case v of
        Ref a \<Rightarrow>
          (case h ! a of
             Target x \<Rightarrow> (case f x h of (y, h) \<Rightarrow> (Ref (length h), h @ [Target y]))
           | _ \<Rightarrow> (v, h))
      | _ \<Rightarrow> (v, h))"

fun copy_elems :: "copier \<Rightarrow> val list \<Rightarrow> heap \<Rightarrow> val list \<times> heap" where
  "copy_elems f [] h = ([], h)"
| "copy_elems f (x # xs) h =
     (case f x h of (y, h) \<Rightarrow> (case copy_elems f xs h of (ys, h) \<Rightarrow> (y # ys, h)))"

text \<open>\<^verbatim>\<open>*out = make([]T, len(*in))\<close> and a loop or \<^verbatim>\<open>copy\<close>.\<close>

definition copy_slice :: "copier \<Rightarrow> copier" where
  "copy_slice f v h =
     (case v of
        Ref a \<Rightarrow>
          (case h ! a of
             Elems xs \<Rightarrow> (case copy_elems f xs h of (ys, h) \<Rightarrow> (Ref (length h), h @ [Elems ys]))
           | _ \<Rightarrow> (v, h))
      | _ \<Rightarrow> (v, h))"

text \<open>\<^verbatim>\<open>*out = make(map[string]T, len(*in))\<close> and a loop over the entries.\<close>

definition copy_map :: "copier \<Rightarrow> copier" where
  "copy_map f v h =
     (case v of
        Ref a \<Rightarrow>
          (case h ! a of
             Entries es \<Rightarrow>
               (case copy_elems f (map snd es) h of
                  (ys, h) \<Rightarrow> (Ref (length h), h @ [Entries (zip (map fst es) ys)]))
           | _ \<Rightarrow> (v, h))
      | _ \<Rightarrow> (v, h))"

definition get_field :: "string \<Rightarrow> val \<Rightarrow> val" where
  "get_field n v = (case v of Struct vs \<Rightarrow> (case map_of vs n of Some x \<Rightarrow> x | None \<Rightarrow> NilRef) | _ \<Rightarrow> NilRef)"

definition set_field :: "string \<Rightarrow> val \<Rightarrow> val \<Rightarrow> val" where
  "set_field n x v = (case v of Struct vs \<Rightarrow> Struct (map (\<lambda>(m, y). if m = n then (m, x) else (m, y)) vs) | _ \<Rightarrow> v)"

fun copy_fields :: "(string \<times> copier) list \<Rightarrow> val \<Rightarrow> val \<Rightarrow> heap \<Rightarrow> val \<times> heap" where
  "copy_fields [] v out h = (out, h)"
| "copy_fields ((n, f) # ss) v out h =
     (case f (get_field n v) h of (x, h) \<Rightarrow> copy_fields ss v (set_field n x out) h)"

text \<open>\<^verbatim>\<open>*out = *in\<close>, then the statements in order.\<close>

definition copy_struct :: "(string \<times> copier) list \<Rightarrow> copier" where
  "copy_struct ss v h = copy_fields ss v v h"


section \<open>A larger store changes nothing\<close>

lemma has_type_append: "has_type t h v \<Longrightarrow> has_type t (h @ new) v"
proof (induction t arbitrary: v)
  case (TStruct fs)
  have "has_type (snd (fs ! i)) h x \<Longrightarrow> has_type (snd (fs ! i)) (h @ new) x" if "i < length fs" for i x
    using TStruct.IH [of "fs ! i" "snd (fs ! i)"] nth_mem [OF that] by (cases "fs ! i") auto
  then show ?case using TStruct.prems by (auto simp: list_all2_conv_all_nth)
qed (auto simp: nth_append list_all_iff)

lemma view_append: "has_type t h v \<Longrightarrow> view t (h @ new) v = view t h v"
proof (induction t arbitrary: v)
  case (TStruct fs)
  then obtain vs where vs: "v = Struct vs" "length fs = length vs"
    "\<And>i. i < length fs \<Longrightarrow> has_type (snd (fs ! i)) h (snd (vs ! i))"
    by (auto simp: list_all2_conv_all_nth)
  have "view (snd (fs ! i)) (h @ new) (snd (vs ! i)) = view (snd (fs ! i)) h (snd (vs ! i))" if "i < length fs" for i
    using TStruct.IH [of "fs ! i" "snd (fs ! i)"] vs(3) [OF that] nth_mem [OF that] by (cases "fs ! i") auto
  then show ?case using vs(1,2) by (simp add: list_eq_iff_nth_eq)
qed (auto simp: nth_append list_all_iff)

lemma refs_append: "has_type t h v \<Longrightarrow> cells_of t (h @ new) v = cells_of t h v \<and> cells_of t h v \<subseteq> {..<length h}"
proof (induction t arbitrary: v)
  case (TStruct fs)
  then obtain vs where vs: "v = Struct vs" "length fs = length vs"
    "\<And>i. i < length fs \<Longrightarrow> has_type (snd (fs ! i)) h (snd (vs ! i))"
    by (auto simp: list_all2_conv_all_nth)
  have "cells_of (snd (fs ! i)) (h @ new) (snd (vs ! i)) = cells_of (snd (fs ! i)) h (snd (vs ! i)) \<and>
      cells_of (snd (fs ! i)) h (snd (vs ! i)) \<subseteq> {..<length h}" if "i < length fs" for i
    using TStruct.IH [of "fs ! i" "snd (fs ! i)"] vs(3) [OF that] nth_mem [OF that] by (cases "fs ! i") auto
  then show ?case using vs(1,2) by (auto simp: set_conv_nth) (meson lessThan_iff subsetD)
qed (fastforce simp: nth_append list_all_iff)+


section \<open>Deep copies\<close>

named_theorems deep_rules \<open>copiers that are deep, and types that are plain\<close>

text \<open>A copy looks the same, and nothing of the old store can be reached from it.\<close>

definition copied :: "heap \<Rightarrow> heap \<Rightarrow> ty \<Rightarrow> val \<Rightarrow> val \<Rightarrow> bool" where
  "copied h0 h t x y \<longleftrightarrow> has_type t h y \<and> view t h y = view t h0 x \<and> cells_of t h y \<inter> {..<length h0} = {}"

definition deep :: "ty \<Rightarrow> copier \<Rightarrow> bool" where
  "deep t f \<longleftrightarrow>
     (\<forall>v h v' h'. has_type t h v \<longrightarrow> f v h = (v', h') \<longrightarrow> (\<exists>new. h' = h @ new) \<and> copied h h' t v v')"

lemma copied_append: "copied h0 h t x y \<Longrightarrow> copied h0 (h @ new) t x y"
  using has_type_append view_append refs_append unfolding copied_def by metis

lemma deep_step:
  assumes "deep t f" "has_type t h0 x" "f x (h0 @ m) = (y, h)"
  shows "(\<exists>new. h = h0 @ m @ new) \<and> copied h0 h t x y"
proof -
  have d: "(\<exists>new. h = (h0 @ m) @ new) \<and> copied (h0 @ m) h t x y"
    using assms(1) has_type_append [OF assms(2)] assms(3) unfolding deep_def by blast
  then have "copied h0 h t x y" using view_append [OF assms(2)] by (fastforce simp: copied_def)
  then show ?thesis using d by auto
qed

primrec plain :: "ty \<Rightarrow> bool" where
  "plain TPlain = True"
| "plain (TPtr t) = False"
| "plain (TSlice t) = False"
| "plain (TMap t) = False"
| "plain (TStruct fs) = list_all snd (map (map_prod id plain) fs)"

lemma plain_refs: "plain t \<Longrightarrow> cells_of t h v = {}"
proof (induction t arbitrary: v)
  case (TStruct fs)
  have "cells_of (snd f) h x = {}" if "f \<in> set fs" for f x
    using TStruct.IH [of f "snd f"] TStruct.prems that by (cases f) (auto simp: list_all_iff)
  then show ?case by (auto split: val.splits dest!: set_zip_leftD)
qed simp_all

lemma copied_plain: "plain t \<Longrightarrow> has_type t h x \<Longrightarrow> copied h (h @ new) t x x"
  by (simp add: copied_def has_type_append view_append plain_refs)

lemma deep_assign [deep_rules]: "plain t \<Longrightarrow> deep t assign"
  using copied_plain [of t _ _ "[]"] by (auto simp: deep_def assign_def)

lemma deep_ptr [deep_rules]:
  assumes "deep t f"
  shows "deep (TPtr t) (copy_ptr f)"
  unfolding deep_def
proof (intro allI impI)
  fix v h v' h' assume v: "has_type (TPtr t) h v" "copy_ptr f v h = (v', h')"
  show "(\<exists>new. h' = h @ new) \<and> copied h h' (TPtr t) v v'"
  proof (cases v)
    case (Ref a)
    then obtain x where x: "h ! a = Target x" "has_type t h x" using v(1) by auto
    obtain y h1 where f: "f x h = (y, h1)" by fastforce
    have r: "v' = Ref (length h1)" "h' = h1 @ [Target y]" using v(2) Ref x(1) f by (simp_all add: copy_ptr_def)
    have s: "(\<exists>new. h1 = h @ new) \<and> copied h h1 t x y" using deep_step [OF assms x(2), of "[]"] f by simp
    then have "copied h h' t x y" unfolding r(2) using copied_append by blast
    then show ?thesis using s Ref x(1) r by (auto simp: copied_def)
  qed (use v in \<open>auto simp: copy_ptr_def copied_def\<close>)
qed

lemma copy_elems_law:
  assumes "deep t f"
  shows "list_all (has_type t h0) xs \<Longrightarrow> copy_elems f xs (h0 @ m) = (ys, h) \<Longrightarrow>
    (\<exists>new. h = h0 @ m @ new) \<and> list_all2 (copied h0 h t) xs ys"
proof (induction xs arbitrary: m ys)
  case (Cons x xs)
  obtain y h1 where f: "f x (h0 @ m) = (y, h1)" by fastforce
  have "has_type t h0 x" using Cons.prems(1) by simp
  from deep_step [OF assms this f] obtain n where h1: "h1 = h0 @ m @ n" and c: "copied h0 h1 t x y" by blast
  obtain zs where zs: "copy_elems f xs (h0 @ m @ n) = (zs, h)" "ys = y # zs"
    using Cons.prems(2) f h1 by (auto split: prod.splits)
  have "(\<exists>new. h = h0 @ (m @ n) @ new) \<and> list_all2 (copied h0 h t) xs zs"
    using Cons.IH [of "m @ n" zs] zs(1) Cons.prems(1) by simp
  then show ?case using zs(2) copied_append [OF c] h1 by auto
qed auto

lemma deep_slice [deep_rules]:
  assumes "deep t f"
  shows "deep (TSlice t) (copy_slice f)"
  unfolding deep_def
proof (intro allI impI)
  fix v h v' h' assume v: "has_type (TSlice t) h v" "copy_slice f v h = (v', h')"
  show "(\<exists>new. h' = h @ new) \<and> copied h h' (TSlice t) v v'"
  proof (cases v)
    case (Ref a)
    then obtain xs where x: "h ! a = Elems xs" "list_all (has_type t h) xs" using v(1) by auto
    obtain ys h1 where f: "copy_elems f xs h = (ys, h1)" by fastforce
    have r: "v' = Ref (length h1)" "h' = h1 @ [Elems ys]" using v(2) Ref x(1) f by (simp_all add: copy_slice_def)
    have s: "(\<exists>new. h1 = h @ new) \<and> list_all2 (copied h h1 t) xs ys"
      using copy_elems_law [OF assms x(2), of "[]"] f by simp
    have c: "list_all2 (copied h h' t) xs ys"
      unfolding r(2) by (rule list_all2_mono [OF conjunct2 [OF s]]) (rule copied_append)
    then have "map (view t h') ys = map (view t h) xs"
      by (induction rule: list_all2_induct) (auto simp: copied_def)
    moreover have "list_all (has_type t h') ys" "\<forall>y \<in> set ys. cells_of t h' y \<inter> {..<length h} = {}"
      using c by (induction rule: list_all2_induct) (auto simp: copied_def)
    ultimately show ?thesis using s Ref x(1) r by (auto simp: copied_def)
  qed (use v in \<open>auto simp: copy_slice_def copied_def\<close>)
qed

lemma deep_map [deep_rules]:
  assumes "deep t f"
  shows "deep (TMap t) (copy_map f)"
  unfolding deep_def
proof (intro allI impI)
  fix v h v' h' assume v: "has_type (TMap t) h v" "copy_map f v h = (v', h')"
  show "(\<exists>new. h' = h @ new) \<and> copied h h' (TMap t) v v'"
  proof (cases v)
    case (Ref a)
    then obtain es where x: "h ! a = Entries es" "list_all (has_type t h) (map snd es)"
      using v(1) by (auto simp: list.pred_map o_def)
    obtain ys h1 where f: "copy_elems f (map snd es) h = (ys, h1)" by fastforce
    have r: "v' = Ref (length h1)" "h' = h1 @ [Entries (zip (map fst es) ys)]"
      using v(2) Ref x(1) f by (simp_all add: copy_map_def)
    have s: "(\<exists>new. h1 = h @ new) \<and> list_all2 (copied h h1 t) (map snd es) ys"
      using copy_elems_law [OF assms x(2), of "[]"] f by simp
    have "list_all2 (copied h h' t) (map snd es) ys"
      unfolding r(2) by (rule list_all2_mono [OF conjunct2 [OF s]]) (rule copied_append)
    then have c: "list_all2 (\<lambda>e. copied h h' t (snd e)) es ys" by (simp add: list_all2_map1)
    then have "map (\<lambda>e. (fst e, view t h' (snd e))) (zip (map fst es) ys) = map (\<lambda>e. (fst e, view t h (snd e))) es"
      by (induction rule: list_all2_induct) (auto simp: copied_def)
    moreover have "list_all (\<lambda>e. has_type t h' (snd e)) (zip (map fst es) ys)"
      "\<forall>e \<in> set (zip (map fst es) ys). cells_of t h' (snd e) \<inter> {..<length h} = {}"
      using c by (induction rule: list_all2_induct) (auto simp: copied_def)
    ultimately show ?thesis using s Ref x(1) r by (auto simp: copied_def)
  qed (use v in \<open>auto simp: copy_map_def copied_def\<close>)
qed

text \<open>Half way through a struct: the fields in \<open>D\<close> are copies, the others still the original's.\<close>

definition progress :: "(string \<times> ty) list \<Rightarrow> (string \<times> val) list \<Rightarrow> heap \<Rightarrow> string set \<Rightarrow>
    (string \<times> val) list \<Rightarrow> heap \<Rightarrow> bool" where
  "progress fs vs h0 D ys h \<longleftrightarrow>
     length ys = length fs \<and>
     (\<forall>i < length fs. fst (ys ! i) = fst (fs ! i) \<and>
        (if fst (fs ! i) \<in> D then copied h0 h (snd (fs ! i)) (snd (vs ! i)) (snd (ys ! i))
         else snd (ys ! i) = snd (vs ! i)))"

lemma copy_fields_law:
  assumes fs: "distinct (map fst fs)" "length vs = length fs" "\<And>i. i < length fs \<Longrightarrow> fst (vs ! i) = fst (fs ! i)"
    "\<And>i. i < length fs \<Longrightarrow> has_type (snd (fs ! i)) h0 (snd (vs ! i))"
  shows "list_all (\<lambda>s. list_ex (\<lambda>f. fst f = fst s \<and> deep (snd f) (snd s)) fs) ss \<Longrightarrow>
    progress fs vs h0 D ys (h0 @ m) \<Longrightarrow> copy_fields ss (Struct vs) (Struct ys) (h0 @ m) = (out, h) \<Longrightarrow>
    \<exists>zs new. out = Struct zs \<and> h = h0 @ new \<and> progress fs vs h0 (D \<union> fst ` set ss) zs h"
proof (induction ss arbitrary: ys m D)
  case (Cons s ss)
  obtain n f where s: "s = (n, f)" by fastforce
  obtain j where j: "j < length fs" "fst (fs ! j) = n" "deep (snd (fs ! j)) f"
    using Cons.prems(1) s by (auto simp: list_ex_iff in_set_conv_nth)
  have "(n, snd (vs ! j)) \<in> set vs" using j fs(2,3) by (metis nth_mem prod.collapse)
  moreover have names: "map fst vs = map fst fs" using fs(2,3) by (simp add: list_eq_iff_nth_eq)
  ultimately have get: "get_field n (Struct vs) = snd (vs ! j)"
    using fs(1) by (simp add: get_field_def map_of_is_SomeI)
  obtain y h1 where f: "f (snd (vs ! j)) (h0 @ m) = (y, h1)" by fastforce
  from deep_step [OF j(3) fs(4) [OF j(1)] f] obtain k where
    k: "h1 = h0 @ m @ k" "copied h0 h1 (snd (fs ! j)) (snd (vs ! j)) y" by blast
  let ?ys = "map (\<lambda>(l, x). if l = n then (l, y) else (l, x)) ys"
  have "progress fs vs h0 (insert n D) ?ys (h0 @ m @ k)"
    unfolding progress_def
  proof (intro conjI allI impI)
    fix i assume i: "i < length fs"
    have len: "length ys = length fs" using Cons.prems(2) by (simp add: progress_def)
    have old: "fst (ys ! i) = fst (fs ! i)"
      "if fst (fs ! i) \<in> D then copied h0 (h0 @ m) (snd (fs ! i)) (snd (vs ! i)) (snd (ys ! i))
       else snd (ys ! i) = snd (vs ! i)" using Cons.prems(2) i unfolding progress_def by blast+
    have nth: "?ys ! i = (fst (ys ! i), if fst (fs ! i) = n then y else snd (ys ! i))"
      using i len old(1) by (cases "ys ! i") auto
    have "i = j" if "fst (fs ! i) = n" using fs(1) i j(1,2) that by (simp add: distinct_conv_nth) blast
    then show "if fst (fs ! i) \<in> insert n D then copied h0 (h0 @ m @ k) (snd (fs ! i)) (snd (vs ! i)) (snd (?ys ! i))
        else snd (?ys ! i) = snd (vs ! i)"
      using old(2) nth k copied_append [of h0 "h0 @ m" _ _ _ k] by (auto split: if_splits)
    show "fst (?ys ! i) = fst (fs ! i)" using nth old(1) by simp
  qed (use Cons.prems(2) in \<open>simp add: progress_def\<close>)
  moreover have "copy_fields ss (Struct vs) (Struct ?ys) (h0 @ m @ k) = (out, h)"
    using Cons.prems(3) s get f k(1) by (simp add: set_field_def)
  ultimately show ?case using Cons.IH [of "insert n D" ?ys "m @ k"] Cons.prems(1) s by simp
qed (auto simp: progress_def)

text \<open>A struct's copy is deep when every statement copies its field deeply and no field with a reference is
  left out.\<close>

lemma deep_struct:
  assumes "distinct (map fst fs)"
    and ss: "list_all (\<lambda>s. list_ex (\<lambda>f. fst f = fst s \<and> deep (snd f) (snd s)) fs) ss"
    and rest: "list_all (\<lambda>f. fst f \<in> fst ` set ss \<or> plain (snd f)) fs"
  shows "deep (TStruct fs) (copy_struct ss)"
  unfolding deep_def
proof (intro allI impI)
  fix v h v' h' assume v: "has_type (TStruct fs) h v" "copy_struct ss v h = (v', h')"
  then obtain vs where vs: "v = Struct vs" "length vs = length fs" "\<And>i. i < length fs \<Longrightarrow> fst (vs ! i) = fst (fs ! i)"
    "\<And>i. i < length fs \<Longrightarrow> has_type (snd (fs ! i)) h (snd (vs ! i))"
    by (auto simp: list_all2_conv_all_nth)
  have start: "progress fs vs h {} vs (h @ [])" using vs(2,3) by (simp add: progress_def)
  from copy_fields_law [OF assms(1) vs(2-4) ss start] v(2) vs(1) obtain zs new where
    z: "v' = Struct zs" "h' = h @ new" "progress fs vs h (fst ` set ss) zs h'"
    by (auto simp: copy_struct_def)
  have len: "length zs = length fs" using z(3) by (simp add: progress_def)
  have c: "fst (zs ! i) = fst (fs ! i) \<and> copied h h' (snd (fs ! i)) (snd (vs ! i)) (snd (zs ! i))"
    if i: "i < length fs" for i
  proof (cases "fst (fs ! i) \<in> fst ` set ss")
    case True
    then show ?thesis using z(3) i by (simp add: progress_def)
  next
    case False
    then have "fst (zs ! i) = fst (fs ! i)" "snd (zs ! i) = snd (vs ! i)" using z(3) i by (simp_all add: progress_def)
    moreover have "plain (snd (fs ! i))" using rest i False unfolding list_all_length by blast
    ultimately show ?thesis using copied_plain [OF _ vs(4) [OF i]] z(2) by simp
  qed
  have "has_type (TStruct fs) h' v'" using z(1) len c by (auto simp: list_all2_conv_all_nth copied_def)
  moreover have "view (TStruct fs) h' v' = view (TStruct fs) h v"
    using z(1) len c vs(1-3) by (auto simp: list_eq_iff_nth_eq copied_def)
  moreover have "cells_of (TStruct fs) h' v' = (\<Union>i < length fs. cells_of (snd (fs ! i)) h' (snd (zs ! i)))"
    using z(1) len by (auto simp: set_conv_nth)
  then have "cells_of (TStruct fs) h' v' \<inter> {..<length h} = {}" using c unfolding copied_def by blast
  ultimately show "(\<exists>new. h' = h @ new) \<and> copied h h' (TStruct fs) v v'" using z(2) by (auto simp: copied_def)
qed



section \<open>Writing through one of the two\<close>

text \<open>A value looks the same in any store that agrees on what can be reached from it.\<close>

lemma view_frame:
  "has_type t h v \<Longrightarrow> \<forall>a \<in> cells_of t h v. k ! a = h ! a \<Longrightarrow> view t k v = view t h v"
proof (induction t arbitrary: v)
  case (TStruct fs)
  then obtain vs where vs: "v = Struct vs" "length fs = length vs"
    "\<And>i. i < length fs \<Longrightarrow> has_type (snd (fs ! i)) h (snd (vs ! i))"
    by (auto simp: list_all2_conv_all_nth)
  have r: "cells_of (TStruct fs) h v = (\<Union>i < length fs. cells_of (snd (fs ! i)) h (snd (vs ! i)))"
    using vs(1,2) by (auto simp: set_conv_nth)
  have "view (snd (fs ! i)) k (snd (vs ! i)) = view (snd (fs ! i)) h (snd (vs ! i))" if i: "i < length fs" for i
  proof -
    have "\<forall>a \<in> cells_of (snd (fs ! i)) h (snd (vs ! i)). k ! a = h ! a" using TStruct.prems(2) i unfolding r by blast
    then show ?thesis
      using TStruct.IH [of "fs ! i" "snd (fs ! i)"] vs(3) [OF i] nth_mem [OF i] by (cases "fs ! i") auto
  qed
  then show ?case using vs(1,2) by (simp add: list_eq_iff_nth_eq)
qed (auto simp: list_all_iff)

text \<open>A copier isolates: the copy looks like the original; whatever is written through the copy leaves the
  original as it was, and whatever is written through the original leaves the copy as it was.\<close>

definition written_through :: "nat set \<Rightarrow> heap \<Rightarrow> heap \<Rightarrow> bool" where
  "written_through A h k \<longleftrightarrow> length k = length h \<and> (\<forall>a < length h. a \<notin> A \<longrightarrow> k ! a = h ! a)"

lemma written_update: "a \<in> A \<Longrightarrow> written_through A h (h[a := c])"
  unfolding written_through_def by (metis length_list_update nth_list_update_neq)

definition isolates :: "ty \<Rightarrow> copier \<Rightarrow> bool" where
  "isolates t f \<longleftrightarrow>
     (\<forall>v h v' h'. has_type t h v \<longrightarrow> f v h = (v', h') \<longrightarrow>
        view t h' v' = view t h v \<and>
        (\<forall>k. written_through (cells_of t h' v') h' k \<longrightarrow> view t k v = view t h v) \<and>
        (\<forall>k. written_through (cells_of t h v) h' k \<longrightarrow> view t k v' = view t h v))"

lemma deep_isolates:
  assumes "deep t f"
  shows "isolates t f"
  unfolding isolates_def
proof (intro allI impI conjI)
  fix v h v' h' assume v: "has_type t h v" "f v h = (v', h')"
  then obtain new where h': "h' = h @ new" and c: "copied h h' t v v'" using assms unfolding deep_def by blast
  have old: "cells_of t h v \<subseteq> {..<length h}" using refs_append [OF v(1)] by simp
  have new: "cells_of t h' v' \<inter> {..<length h} = {}" "has_type t h' v'" "view t h' v' = view t h v"
    using c by (simp_all add: copied_def)
  have bound: "cells_of t h' v' \<subseteq> {..<length h'}" using refs_append [OF new(2)] by simp
  show "view t h' v' = view t h v" by (rule new(3))
  fix k
  show "view t k v = view t h v" if k: "written_through (cells_of t h' v') h' k"
  proof (rule view_frame [OF v(1)])
    show "\<forall>a \<in> cells_of t h v. k ! a = h ! a"
    proof
      fix a assume "a \<in> cells_of t h v"
      then have a: "a < length h" using old by blast
      then have "a \<notin> cells_of t h' v'" "a < length h'" using new(1) h' by auto
      then show "k ! a = h ! a" using k a by (simp add: written_through_def h' nth_append)
    qed
  qed
  show "view t k v' = view t h v" if k: "written_through (cells_of t h v) h' k"
  proof -
    have "\<forall>a \<in> cells_of t h' v'. k ! a = h' ! a"
      using k old new(1) bound unfolding written_through_def by blast
    then show ?thesis using view_frame [OF new(2)] new(3) by simp
  qed
qed

end
