(* ===== verification/Deep_Copy.thy ===== *)
theory Deep_Copy
  imports Go_Store
begin

text \<open>
  The generated deep copies: \<^verbatim>\<open>zz_generated.deepcopy.go\<close> of \<^verbatim>\<open>api/v1alpha1\<close>, of \<^verbatim>\<open>internal/monitoring/v1\<close> (prefix
  \<open>mon_\<close>) and of \<^verbatim>\<open>internal/certmanager/v1\<close> (prefix \<open>cm_\<close>). The controllers read objects from a cache shared by
  every reconciliation, and write only to copies of them. Beside each function stands the type it copies, from
  the declaration of the struct, so that a field with a reference which the generated code does not copy is
  a failing proof. The types of Kubernetes' own packages, with their copies, are an argument.
\<close>


section \<open>The types of other packages\<close>

record foreign =
  fg_LabelSelector :: "ty \<times> copier"
  fg_ObjectMeta :: "ty \<times> copier"
  fg_ListMeta :: "ty \<times> copier"
  fg_Condition :: "ty \<times> copier"
  fg_ResourceRequirements :: "ty \<times> copier"
  fg_Toleration :: "ty \<times> copier"
  fg_Affinity :: "ty \<times> copier"
  fg_CoreSecretKeySelector :: "ty \<times> copier"

text \<open>What they document: \<^verbatim>\<open>DeepCopyInto\<close> copies the receiver.\<close>

definition foreign_laws :: "foreign \<Rightarrow> bool" where
  "foreign_laws X \<longleftrightarrow>
     list_all (\<lambda>(t, f). deep t f)
       [fg_LabelSelector X, fg_ObjectMeta X, fg_ListMeta X, fg_Condition X, fg_ResourceRequirements X,
        fg_Toleration X, fg_Affinity X, fg_CoreSecretKeySelector X]"

lemma foreign_lawsD:
  assumes "foreign_laws X"
  shows "deep (fst (fg_LabelSelector X)) (snd (fg_LabelSelector X))"
    "deep (fst (fg_ObjectMeta X)) (snd (fg_ObjectMeta X))" "deep (fst (fg_ListMeta X)) (snd (fg_ListMeta X))"
    "deep (fst (fg_Condition X)) (snd (fg_Condition X))"
    "deep (fst (fg_ResourceRequirements X)) (snd (fg_ResourceRequirements X))"
    "deep (fst (fg_Toleration X)) (snd (fg_Toleration X))" "deep (fst (fg_Affinity X)) (snd (fg_Affinity X))"
    "deep (fst (fg_CoreSecretKeySelector X)) (snd (fg_CoreSecretKeySelector X))"
  using assms by (simp_all add: foreign_laws_def case_prod_beta)


section \<open>The resources\<close>

definition LocalObjectReference_type :: ty where
  "LocalObjectReference_type = TStruct [(''Name'', TPlain)]"

definition LocalObjectReference_DeepCopyInto :: copier where
  "LocalObjectReference_DeepCopyInto = copy_struct []"

definition SecretKeySelector_type :: ty where
  "SecretKeySelector_type = TStruct [(''Name'', TPlain), (''Key'', TPlain)]"

definition SecretKeySelector_DeepCopyInto :: copier where
  "SecretKeySelector_DeepCopyInto = copy_struct []"

definition DKIMKeySpec_type :: ty where
  "DKIMKeySpec_type =
     TStruct [(''Domain'', TPlain), (''Selector'', TPlain), (''PrivateKeySecretRef'', SecretKeySelector_type),
              (''HeaderKeys'', TSlice TPlain)]"

definition DKIMKeySpec_DeepCopyInto :: copier where
  "DKIMKeySpec_DeepCopyInto =
     copy_struct [(''PrivateKeySecretRef'', assign), (''HeaderKeys'', copy_slice assign)]"

definition MilterSpec_type :: ty where
  "MilterSpec_type =
     TStruct [(''Name'', TPlain), (''Address'', TPlain), (''FailOpen'', TPlain), (''Timeout'', TPtr TPlain)]"

definition MilterSpec_DeepCopyInto :: copier where
  "MilterSpec_DeepCopyInto = copy_struct [(''Timeout'', copy_ptr assign)]"

definition GatewayReference_type :: ty where
  "GatewayReference_type = TStruct [(''Name'', TPlain), (''Namespace'', TPlain)]"

definition GatewayReference_DeepCopyInto :: copier where
  "GatewayReference_DeepCopyInto = copy_struct []"

definition MailoutAccountSpec_type :: ty where
  "MailoutAccountSpec_type =
     TStruct [(''GatewayRef'', GatewayReference_type), (''Username'', TPlain),
              (''SecretRef'', LocalObjectReference_type), (''Rotation'', TPlain),
              (''AllowedSenders'', TSlice TPlain), (''EnforceHeaderFrom'', TPtr TPlain), (''Disabled'', TPlain)]"

definition MailoutAccountSpec_DeepCopyInto :: copier where
  "MailoutAccountSpec_DeepCopyInto =
     copy_struct [(''GatewayRef'', assign), (''SecretRef'', assign), (''AllowedSenders'', copy_slice assign),
                  (''EnforceHeaderFrom'', copy_ptr assign)]"

definition MailoutAccountStatus_type :: "foreign \<Rightarrow> ty" where
  "MailoutAccountStatus_type X =
     TStruct [(''Conditions'', TSlice (fst (fg_Condition X))), (''ObservedGeneration'', TPlain),
              (''Username'', TPlain), (''SecretName'', TPlain), (''Gateway'', TPlain),
              (''RotationObserved'', TPlain)]"

definition MailoutAccountStatus_DeepCopyInto :: "foreign \<Rightarrow> copier" where
  "MailoutAccountStatus_DeepCopyInto X = copy_struct [(''Conditions'', copy_slice (snd (fg_Condition X)))]"

definition MailoutAccount_type :: "foreign \<Rightarrow> ty" where
  "MailoutAccount_type X =
     TStruct [(''TypeMeta'', TPlain), (''ObjectMeta'', fst (fg_ObjectMeta X)),
              (''Spec'', MailoutAccountSpec_type), (''Status'', MailoutAccountStatus_type X)]"

definition MailoutAccount_DeepCopyInto :: "foreign \<Rightarrow> copier" where
  "MailoutAccount_DeepCopyInto X =
     copy_struct [(''TypeMeta'', assign), (''ObjectMeta'', snd (fg_ObjectMeta X)),
                  (''Spec'', MailoutAccountSpec_DeepCopyInto), (''Status'', MailoutAccountStatus_DeepCopyInto X)]"

definition MailoutAccountList_type :: "foreign \<Rightarrow> ty" where
  "MailoutAccountList_type X =
     TStruct [(''TypeMeta'', TPlain), (''ListMeta'', fst (fg_ListMeta X)),
              (''Items'', TSlice (MailoutAccount_type X))]"

definition MailoutAccountList_DeepCopyInto :: "foreign \<Rightarrow> copier" where
  "MailoutAccountList_DeepCopyInto X =
     copy_struct [(''TypeMeta'', assign), (''ListMeta'', snd (fg_ListMeta X)),
                  (''Items'', copy_slice (MailoutAccount_DeepCopyInto X))]"

definition ListenerSpec_type :: ty where
  "ListenerSpec_type = TStruct [(''Port'', TPlain)]"

definition ListenerSpec_DeepCopyInto :: copier where
  "ListenerSpec_DeepCopyInto = copy_struct []"

definition ListenersSpec_type :: ty where
  "ListenersSpec_type =
     TStruct [(''Submission'', TPtr ListenerSpec_type), (''SMTPS'', TPtr ListenerSpec_type)]"

definition ListenersSpec_DeepCopyInto :: copier where
  "ListenersSpec_DeepCopyInto = copy_struct [(''Submission'', copy_ptr assign), (''SMTPS'', copy_ptr assign)]"

definition IssuerReference_type :: ty where
  "IssuerReference_type = TStruct [(''Name'', TPlain), (''Kind'', TPlain), (''Group'', TPlain)]"

definition IssuerReference_DeepCopyInto :: copier where
  "IssuerReference_DeepCopyInto = copy_struct []"

definition GatewayTLSSpec_type :: ty where
  "GatewayTLSSpec_type =
     TStruct [(''CertificateRefs'', TSlice LocalObjectReference_type),
              (''IssuerRef'', TPtr IssuerReference_type), (''DNSNames'', TSlice TPlain),
              (''DefaultCertificate'', TPlain)]"

definition GatewayTLSSpec_DeepCopyInto :: copier where
  "GatewayTLSSpec_DeepCopyInto =
     copy_struct [(''CertificateRefs'', copy_slice assign), (''IssuerRef'', copy_ptr assign),
                  (''DNSNames'', copy_slice assign)]"

definition UpstreamSpec_type :: ty where
  "UpstreamSpec_type =
     TStruct [(''Host'', TPlain), (''Port'', TPlain), (''TLS'', TPlain),
              (''AuthSecretRef'', TPtr LocalObjectReference_type),
              (''CASecretRef'', TPtr SecretKeySelector_type), (''InsecureSkipVerify'', TPlain),
              (''HandlesDKIM'', TPlain), (''Timeout'', TPtr TPlain)]"

definition UpstreamSpec_DeepCopyInto :: copier where
  "UpstreamSpec_DeepCopyInto =
     copy_struct [(''AuthSecretRef'', copy_ptr assign), (''CASecretRef'', copy_ptr assign),
                  (''Timeout'', copy_ptr assign)]"

definition AllowedAccountsSpec_type :: "foreign \<Rightarrow> ty" where
  "AllowedAccountsSpec_type X =
     TStruct [(''Namespaces'', TPlain), (''Selector'', TPtr (fst (fg_LabelSelector X)))]"

definition AllowedAccountsSpec_DeepCopyInto :: "foreign \<Rightarrow> copier" where
  "AllowedAccountsSpec_DeepCopyInto X = copy_struct [(''Selector'', copy_ptr (snd (fg_LabelSelector X)))]"

definition SenderGrantSpec_type :: "foreign \<Rightarrow> ty" where
  "SenderGrantSpec_type X =
     TStruct [(''Senders'', TSlice TPlain), (''NamespaceSelector'', TPtr (fst (fg_LabelSelector X)))]"

definition SenderGrantSpec_DeepCopyInto :: "foreign \<Rightarrow> copier" where
  "SenderGrantSpec_DeepCopyInto X =
     copy_struct [(''Senders'', copy_slice assign), (''NamespaceSelector'', copy_ptr (snd (fg_LabelSelector X)))]"

definition RateLimitStoreTLSSpec_type :: ty where
  "RateLimitStoreTLSSpec_type =
     TStruct [(''CASecretRef'', TPtr SecretKeySelector_type), (''InsecureSkipVerify'', TPlain)]"

definition RateLimitStoreTLSSpec_DeepCopyInto :: copier where
  "RateLimitStoreTLSSpec_DeepCopyInto = copy_struct [(''CASecretRef'', copy_ptr assign)]"

definition RateLimitStoreSpec_type :: ty where
  "RateLimitStoreSpec_type =
     TStruct [(''Addresses'', TSlice TPlain), (''MasterName'', TPlain), (''DB'', TPlain),
              (''AuthSecretRef'', TPtr LocalObjectReference_type),
              (''SentinelAuthSecretRef'', TPtr LocalObjectReference_type),
              (''TLS'', TPtr RateLimitStoreTLSSpec_type), (''Timeout'', TPtr TPlain)]"

definition RateLimitStoreSpec_DeepCopyInto :: copier where
  "RateLimitStoreSpec_DeepCopyInto =
     copy_struct [(''Addresses'', copy_slice assign), (''AuthSecretRef'', copy_ptr assign),
                  (''SentinelAuthSecretRef'', copy_ptr assign),
                  (''TLS'', copy_ptr RateLimitStoreTLSSpec_DeepCopyInto), (''Timeout'', copy_ptr assign)]"

definition RateLimitSpec_type :: ty where
  "RateLimitSpec_type =
     TStruct [(''Store'', RateLimitStoreSpec_type), (''MessagesPerMinute'', TPtr TPlain),
              (''RecipientsPerMinute'', TPtr TPlain)]"

definition RateLimitSpec_DeepCopyInto :: copier where
  "RateLimitSpec_DeepCopyInto =
     copy_struct [(''Store'', RateLimitStoreSpec_DeepCopyInto), (''MessagesPerMinute'', copy_ptr assign),
                  (''RecipientsPerMinute'', copy_ptr assign)]"

definition DeploymentSpec_type :: "foreign \<Rightarrow> ty" where
  "DeploymentSpec_type X =
     TStruct [(''Replicas'', TPtr TPlain), (''Image'', TPlain), (''Resources'', fst (fg_ResourceRequirements X)),
              (''ServiceType'', TPlain), (''ServiceAnnotations'', TMap TPlain),
              (''PodAnnotations'', TMap TPlain), (''NodeSelector'', TMap TPlain),
              (''Tolerations'', TSlice (fst (fg_Toleration X))), (''Affinity'', TPtr (fst (fg_Affinity X)))]"

definition DeploymentSpec_DeepCopyInto :: "foreign \<Rightarrow> copier" where
  "DeploymentSpec_DeepCopyInto X =
     copy_struct [(''Replicas'', copy_ptr assign), (''Resources'', snd (fg_ResourceRequirements X)),
                  (''ServiceAnnotations'', copy_map assign), (''PodAnnotations'', copy_map assign),
                  (''NodeSelector'', copy_map assign), (''Tolerations'', copy_slice (snd (fg_Toleration X))),
                  (''Affinity'', copy_ptr (snd (fg_Affinity X)))]"

definition NetworkPeer_type :: "foreign \<Rightarrow> ty" where
  "NetworkPeer_type X =
     TStruct [(''NamespaceSelector'', TPtr (fst (fg_LabelSelector X))),
              (''PodSelector'', TPtr (fst (fg_LabelSelector X)))]"

definition NetworkPeer_DeepCopyInto :: "foreign \<Rightarrow> copier" where
  "NetworkPeer_DeepCopyInto X =
     copy_struct [(''NamespaceSelector'', copy_ptr (snd (fg_LabelSelector X))),
                  (''PodSelector'', copy_ptr (snd (fg_LabelSelector X)))]"

definition MetricsSpec_type :: "foreign \<Rightarrow> ty" where
  "MetricsSpec_type X = TStruct [(''AllowedScrapers'', TSlice (NetworkPeer_type X))]"

definition MetricsSpec_DeepCopyInto :: "foreign \<Rightarrow> copier" where
  "MetricsSpec_DeepCopyInto X = copy_struct [(''AllowedScrapers'', copy_slice (NetworkPeer_DeepCopyInto X))]"

definition MailoutGatewaySpec_type :: "foreign \<Rightarrow> ty" where
  "MailoutGatewaySpec_type X =
     TStruct [(''Hostname'', TPlain), (''Listeners'', ListenersSpec_type), (''TLS'', GatewayTLSSpec_type),
              (''Upstream'', UpstreamSpec_type), (''DKIM'', TSlice DKIMKeySpec_type),
              (''Milters'', TSlice MilterSpec_type), (''AllowedAccounts'', AllowedAccountsSpec_type X),
              (''AllowedSenders'', TSlice (SenderGrantSpec_type X)), (''RateLimit'', TPtr RateLimitSpec_type),
              (''Deployment'', DeploymentSpec_type X), (''Metrics'', MetricsSpec_type X)]"

definition MailoutGatewaySpec_DeepCopyInto :: "foreign \<Rightarrow> copier" where
  "MailoutGatewaySpec_DeepCopyInto X =
     copy_struct [(''Listeners'', ListenersSpec_DeepCopyInto), (''TLS'', GatewayTLSSpec_DeepCopyInto),
                  (''Upstream'', UpstreamSpec_DeepCopyInto), (''DKIM'', copy_slice DKIMKeySpec_DeepCopyInto),
                  (''Milters'', copy_slice MilterSpec_DeepCopyInto),
                  (''AllowedAccounts'', AllowedAccountsSpec_DeepCopyInto X),
                  (''AllowedSenders'', copy_slice (SenderGrantSpec_DeepCopyInto X)),
                  (''RateLimit'', copy_ptr RateLimitSpec_DeepCopyInto),
                  (''Deployment'', DeploymentSpec_DeepCopyInto X), (''Metrics'', MetricsSpec_DeepCopyInto X)]"

definition ListenerStatus_type :: ty where
  "ListenerStatus_type = TStruct [(''Name'', TPlain), (''Port'', TPlain), (''Mode'', TPlain)]"

definition ListenerStatus_DeepCopyInto :: copier where
  "ListenerStatus_DeepCopyInto = copy_struct []"

definition MailoutGatewayStatus_type :: "foreign \<Rightarrow> ty" where
  "MailoutGatewayStatus_type X =
     TStruct [(''Conditions'', TSlice (fst (fg_Condition X))), (''ObservedGeneration'', TPlain),
              (''AcceptedAccounts'', TPlain), (''Listeners'', TSlice ListenerStatus_type),
              (''ServiceName'', TPlain)]"

definition MailoutGatewayStatus_DeepCopyInto :: "foreign \<Rightarrow> copier" where
  "MailoutGatewayStatus_DeepCopyInto X =
     copy_struct [(''Conditions'', copy_slice (snd (fg_Condition X))), (''Listeners'', copy_slice assign)]"

definition MailoutGateway_type :: "foreign \<Rightarrow> ty" where
  "MailoutGateway_type X =
     TStruct [(''TypeMeta'', TPlain), (''ObjectMeta'', fst (fg_ObjectMeta X)),
              (''Spec'', MailoutGatewaySpec_type X), (''Status'', MailoutGatewayStatus_type X)]"

definition MailoutGateway_DeepCopyInto :: "foreign \<Rightarrow> copier" where
  "MailoutGateway_DeepCopyInto X =
     copy_struct [(''TypeMeta'', assign), (''ObjectMeta'', snd (fg_ObjectMeta X)),
                  (''Spec'', MailoutGatewaySpec_DeepCopyInto X),
                  (''Status'', MailoutGatewayStatus_DeepCopyInto X)]"

definition MailoutGatewayList_type :: "foreign \<Rightarrow> ty" where
  "MailoutGatewayList_type X =
     TStruct [(''TypeMeta'', TPlain), (''ListMeta'', fst (fg_ListMeta X)),
              (''Items'', TSlice (MailoutGateway_type X))]"

definition MailoutGatewayList_DeepCopyInto :: "foreign \<Rightarrow> copier" where
  "MailoutGatewayList_DeepCopyInto X =
     copy_struct [(''TypeMeta'', assign), (''ListMeta'', snd (fg_ListMeta X)),
                  (''Items'', copy_slice (MailoutGateway_DeepCopyInto X))]"


section \<open>Service monitors\<close>

definition mon_SafeAuthorization_type :: "foreign \<Rightarrow> ty" where
  "mon_SafeAuthorization_type X =
     TStruct [(''Type'', TPlain), (''Credentials'', TPtr (fst (fg_CoreSecretKeySelector X)))]"

definition mon_SafeAuthorization_DeepCopyInto :: "foreign \<Rightarrow> copier" where
  "mon_SafeAuthorization_DeepCopyInto X =
     copy_struct [(''Credentials'', copy_ptr (snd (fg_CoreSecretKeySelector X)))]"

definition mon_Endpoint_type :: "foreign \<Rightarrow> ty" where
  "mon_Endpoint_type X =
     TStruct [(''Port'', TPlain), (''Path'', TPlain), (''Scheme'', TPlain), (''Interval'', TPlain),
              (''Authorization'', TPtr (mon_SafeAuthorization_type X))]"

definition mon_Endpoint_DeepCopyInto :: "foreign \<Rightarrow> copier" where
  "mon_Endpoint_DeepCopyInto X =
     copy_struct [(''Authorization'', copy_ptr (mon_SafeAuthorization_DeepCopyInto X))]"

definition mon_NamespaceSelector_type :: ty where
  "mon_NamespaceSelector_type = TStruct [(''Any'', TPlain), (''MatchNames'', TSlice TPlain)]"

definition mon_NamespaceSelector_DeepCopyInto :: copier where
  "mon_NamespaceSelector_DeepCopyInto = copy_struct [(''MatchNames'', copy_slice assign)]"

definition mon_ServiceMonitorSpec_type :: "foreign \<Rightarrow> ty" where
  "mon_ServiceMonitorSpec_type X =
     TStruct [(''Selector'', fst (fg_LabelSelector X)), (''NamespaceSelector'', mon_NamespaceSelector_type),
              (''Endpoints'', TSlice (mon_Endpoint_type X)), (''JobLabel'', TPlain)]"

definition mon_ServiceMonitorSpec_DeepCopyInto :: "foreign \<Rightarrow> copier" where
  "mon_ServiceMonitorSpec_DeepCopyInto X =
     copy_struct [(''Selector'', snd (fg_LabelSelector X)),
                  (''NamespaceSelector'', mon_NamespaceSelector_DeepCopyInto),
                  (''Endpoints'', copy_slice (mon_Endpoint_DeepCopyInto X))]"

definition mon_ServiceMonitor_type :: "foreign \<Rightarrow> ty" where
  "mon_ServiceMonitor_type X =
     TStruct [(''TypeMeta'', TPlain), (''ObjectMeta'', fst (fg_ObjectMeta X)),
              (''Spec'', mon_ServiceMonitorSpec_type X)]"

definition mon_ServiceMonitor_DeepCopyInto :: "foreign \<Rightarrow> copier" where
  "mon_ServiceMonitor_DeepCopyInto X =
     copy_struct [(''TypeMeta'', assign), (''ObjectMeta'', snd (fg_ObjectMeta X)),
                  (''Spec'', mon_ServiceMonitorSpec_DeepCopyInto X)]"

definition mon_ServiceMonitorList_type :: "foreign \<Rightarrow> ty" where
  "mon_ServiceMonitorList_type X =
     TStruct [(''TypeMeta'', TPlain), (''ListMeta'', fst (fg_ListMeta X)),
              (''Items'', TSlice (mon_ServiceMonitor_type X))]"

definition mon_ServiceMonitorList_DeepCopyInto :: "foreign \<Rightarrow> copier" where
  "mon_ServiceMonitorList_DeepCopyInto X =
     copy_struct [(''TypeMeta'', assign), (''ListMeta'', snd (fg_ListMeta X)),
                  (''Items'', copy_slice (mon_ServiceMonitor_DeepCopyInto X))]"


section \<open>Certificates\<close>

definition cm_IssuerReference_type :: ty where
  "cm_IssuerReference_type = TStruct [(''Name'', TPlain), (''Kind'', TPlain), (''Group'', TPlain)]"

definition cm_IssuerReference_DeepCopyInto :: copier where
  "cm_IssuerReference_DeepCopyInto = copy_struct []"

definition cm_CertificateSpec_type :: ty where
  "cm_CertificateSpec_type =
     TStruct [(''SecretName'', TPlain), (''DNSNames'', TSlice TPlain), (''CommonName'', TPlain),
              (''IssuerRef'', cm_IssuerReference_type)]"

definition cm_CertificateSpec_DeepCopyInto :: copier where
  "cm_CertificateSpec_DeepCopyInto = copy_struct [(''DNSNames'', copy_slice assign), (''IssuerRef'', assign)]"

definition cm_CertificateStatus_type :: "foreign \<Rightarrow> ty" where
  "cm_CertificateStatus_type X = TStruct [(''Conditions'', TSlice (fst (fg_Condition X)))]"

definition cm_CertificateStatus_DeepCopyInto :: "foreign \<Rightarrow> copier" where
  "cm_CertificateStatus_DeepCopyInto X = copy_struct [(''Conditions'', copy_slice (snd (fg_Condition X)))]"

definition cm_Certificate_type :: "foreign \<Rightarrow> ty" where
  "cm_Certificate_type X =
     TStruct [(''TypeMeta'', TPlain), (''ObjectMeta'', fst (fg_ObjectMeta X)),
              (''Spec'', cm_CertificateSpec_type), (''Status'', cm_CertificateStatus_type X)]"

definition cm_Certificate_DeepCopyInto :: "foreign \<Rightarrow> copier" where
  "cm_Certificate_DeepCopyInto X =
     copy_struct [(''TypeMeta'', assign), (''ObjectMeta'', snd (fg_ObjectMeta X)),
                  (''Spec'', cm_CertificateSpec_DeepCopyInto), (''Status'', cm_CertificateStatus_DeepCopyInto X)]"

definition cm_CertificateList_type :: "foreign \<Rightarrow> ty" where
  "cm_CertificateList_type X =
     TStruct [(''TypeMeta'', TPlain), (''ListMeta'', fst (fg_ListMeta X)),
              (''Items'', TSlice (cm_Certificate_type X))]"

definition cm_CertificateList_DeepCopyInto :: "foreign \<Rightarrow> copier" where
  "cm_CertificateList_DeepCopyInto X =
     copy_struct [(''TypeMeta'', assign), (''ListMeta'', snd (fg_ListMeta X)),
                  (''Items'', copy_slice (cm_Certificate_DeepCopyInto X))]"


section \<open>Copies of objects\<close>

definition DeepCopy :: "copier \<Rightarrow> copier" where
  "DeepCopy f v h =
     (if v = NilRef then (NilRef, h)
      else case copy_ptr f v h of (out, h) \<Rightarrow> (out, h))"

text \<open>As a \<^verbatim>\<open>runtime.Object\<close>, which is nil when the copy is.\<close>

definition DeepCopyObject :: "copier \<Rightarrow> copier" where
  "DeepCopyObject f v h =
     (case DeepCopy f v h of (c, h) \<Rightarrow> (if c \<noteq> NilRef then c else NilRef, h))"

definition MailoutAccount_DeepCopyObject :: "foreign \<Rightarrow> copier" where
  "MailoutAccount_DeepCopyObject X = DeepCopyObject (MailoutAccount_DeepCopyInto X)"

definition MailoutAccountList_DeepCopyObject :: "foreign \<Rightarrow> copier" where
  "MailoutAccountList_DeepCopyObject X = DeepCopyObject (MailoutAccountList_DeepCopyInto X)"

definition MailoutGateway_DeepCopyObject :: "foreign \<Rightarrow> copier" where
  "MailoutGateway_DeepCopyObject X = DeepCopyObject (MailoutGateway_DeepCopyInto X)"

definition MailoutGatewayList_DeepCopyObject :: "foreign \<Rightarrow> copier" where
  "MailoutGatewayList_DeepCopyObject X = DeepCopyObject (MailoutGatewayList_DeepCopyInto X)"

definition mon_ServiceMonitor_DeepCopyObject :: "foreign \<Rightarrow> copier" where
  "mon_ServiceMonitor_DeepCopyObject X = DeepCopyObject (mon_ServiceMonitor_DeepCopyInto X)"

definition mon_ServiceMonitorList_DeepCopyObject :: "foreign \<Rightarrow> copier" where
  "mon_ServiceMonitorList_DeepCopyObject X = DeepCopyObject (mon_ServiceMonitorList_DeepCopyInto X)"

definition cm_Certificate_DeepCopyObject :: "foreign \<Rightarrow> copier" where
  "cm_Certificate_DeepCopyObject X = DeepCopyObject (cm_Certificate_DeepCopyInto X)"

definition cm_CertificateList_DeepCopyObject :: "foreign \<Rightarrow> copier" where
  "cm_CertificateList_DeepCopyObject X = DeepCopyObject (cm_CertificateList_DeepCopyInto X)"

lemma DeepCopyObject_eq: "DeepCopyObject f = copy_ptr f"
  by (intro ext) (auto simp: DeepCopyObject_def DeepCopy_def copy_ptr_def split: prod.splits)


section \<open>Every copy is deep\<close>

lemma plain_types [deep_rules]:
  "plain LocalObjectReference_type" "plain SecretKeySelector_type" "plain GatewayReference_type" "plain ListenerSpec_type"
  "plain ListenerStatus_type" "plain IssuerReference_type" "plain cm_IssuerReference_type"
  by (simp_all add: LocalObjectReference_type_def SecretKeySelector_type_def GatewayReference_type_def ListenerSpec_type_def ListenerStatus_type_def IssuerReference_type_def cm_IssuerReference_type_def)

lemma LocalObjectReference_deep [deep_rules]: "deep LocalObjectReference_type LocalObjectReference_DeepCopyInto"
  unfolding LocalObjectReference_type_def LocalObjectReference_DeepCopyInto_def
  by (intro deep_struct) (simp_all add: deep_rules)

lemma SecretKeySelector_deep [deep_rules]: "deep SecretKeySelector_type SecretKeySelector_DeepCopyInto"
  unfolding SecretKeySelector_type_def SecretKeySelector_DeepCopyInto_def
  by (intro deep_struct) (simp_all add: deep_rules)

lemma DKIMKeySpec_deep [deep_rules]: "deep DKIMKeySpec_type DKIMKeySpec_DeepCopyInto"
  unfolding DKIMKeySpec_type_def DKIMKeySpec_DeepCopyInto_def
  by (intro deep_struct) (simp_all add: deep_rules)

lemma MilterSpec_deep [deep_rules]: "deep MilterSpec_type MilterSpec_DeepCopyInto"
  unfolding MilterSpec_type_def MilterSpec_DeepCopyInto_def
  by (intro deep_struct) (simp_all add: deep_rules)

lemma GatewayReference_deep [deep_rules]: "deep GatewayReference_type GatewayReference_DeepCopyInto"
  unfolding GatewayReference_type_def GatewayReference_DeepCopyInto_def
  by (intro deep_struct) (simp_all add: deep_rules)

lemma MailoutAccountSpec_deep [deep_rules]: "deep MailoutAccountSpec_type MailoutAccountSpec_DeepCopyInto"
  unfolding MailoutAccountSpec_type_def MailoutAccountSpec_DeepCopyInto_def
  by (intro deep_struct) (simp_all add: deep_rules)

lemma MailoutAccountStatus_deep [deep_rules]:
  assumes "foreign_laws X"
  shows "deep (MailoutAccountStatus_type X) (MailoutAccountStatus_DeepCopyInto X)"
  unfolding MailoutAccountStatus_type_def MailoutAccountStatus_DeepCopyInto_def
  using assms by (intro deep_struct) (simp_all add: deep_rules foreign_lawsD)

lemma MailoutAccount_deep [deep_rules]:
  assumes "foreign_laws X"
  shows "deep (MailoutAccount_type X) (MailoutAccount_DeepCopyInto X)"
  unfolding MailoutAccount_type_def MailoutAccount_DeepCopyInto_def
  using assms by (intro deep_struct) (simp_all add: deep_rules foreign_lawsD)

lemma MailoutAccountList_deep [deep_rules]:
  assumes "foreign_laws X"
  shows "deep (MailoutAccountList_type X) (MailoutAccountList_DeepCopyInto X)"
  unfolding MailoutAccountList_type_def MailoutAccountList_DeepCopyInto_def
  using assms by (intro deep_struct) (simp_all add: deep_rules foreign_lawsD)

lemma ListenerSpec_deep [deep_rules]: "deep ListenerSpec_type ListenerSpec_DeepCopyInto"
  unfolding ListenerSpec_type_def ListenerSpec_DeepCopyInto_def
  by (intro deep_struct) (simp_all add: deep_rules)

lemma ListenersSpec_deep [deep_rules]: "deep ListenersSpec_type ListenersSpec_DeepCopyInto"
  unfolding ListenersSpec_type_def ListenersSpec_DeepCopyInto_def
  by (intro deep_struct) (simp_all add: deep_rules)

lemma IssuerReference_deep [deep_rules]: "deep IssuerReference_type IssuerReference_DeepCopyInto"
  unfolding IssuerReference_type_def IssuerReference_DeepCopyInto_def
  by (intro deep_struct) (simp_all add: deep_rules)

lemma GatewayTLSSpec_deep [deep_rules]: "deep GatewayTLSSpec_type GatewayTLSSpec_DeepCopyInto"
  unfolding GatewayTLSSpec_type_def GatewayTLSSpec_DeepCopyInto_def
  by (intro deep_struct) (simp_all add: deep_rules)

lemma UpstreamSpec_deep [deep_rules]: "deep UpstreamSpec_type UpstreamSpec_DeepCopyInto"
  unfolding UpstreamSpec_type_def UpstreamSpec_DeepCopyInto_def
  by (intro deep_struct) (simp_all add: deep_rules)

lemma AllowedAccountsSpec_deep [deep_rules]:
  assumes "foreign_laws X"
  shows "deep (AllowedAccountsSpec_type X) (AllowedAccountsSpec_DeepCopyInto X)"
  unfolding AllowedAccountsSpec_type_def AllowedAccountsSpec_DeepCopyInto_def
  using assms by (intro deep_struct) (simp_all add: deep_rules foreign_lawsD)

lemma SenderGrantSpec_deep [deep_rules]:
  assumes "foreign_laws X"
  shows "deep (SenderGrantSpec_type X) (SenderGrantSpec_DeepCopyInto X)"
  unfolding SenderGrantSpec_type_def SenderGrantSpec_DeepCopyInto_def
  using assms by (intro deep_struct) (simp_all add: deep_rules foreign_lawsD)

lemma RateLimitStoreTLSSpec_deep [deep_rules]: "deep RateLimitStoreTLSSpec_type RateLimitStoreTLSSpec_DeepCopyInto"
  unfolding RateLimitStoreTLSSpec_type_def RateLimitStoreTLSSpec_DeepCopyInto_def
  by (intro deep_struct) (simp_all add: deep_rules)

lemma RateLimitStoreSpec_deep [deep_rules]: "deep RateLimitStoreSpec_type RateLimitStoreSpec_DeepCopyInto"
  unfolding RateLimitStoreSpec_type_def RateLimitStoreSpec_DeepCopyInto_def
  by (intro deep_struct) (simp_all add: deep_rules)

lemma RateLimitSpec_deep [deep_rules]: "deep RateLimitSpec_type RateLimitSpec_DeepCopyInto"
  unfolding RateLimitSpec_type_def RateLimitSpec_DeepCopyInto_def
  by (intro deep_struct) (simp_all add: deep_rules)

lemma DeploymentSpec_deep [deep_rules]:
  assumes "foreign_laws X"
  shows "deep (DeploymentSpec_type X) (DeploymentSpec_DeepCopyInto X)"
  unfolding DeploymentSpec_type_def DeploymentSpec_DeepCopyInto_def
  using assms by (intro deep_struct) (simp_all add: deep_rules foreign_lawsD)

lemma NetworkPeer_deep [deep_rules]:
  assumes "foreign_laws X"
  shows "deep (NetworkPeer_type X) (NetworkPeer_DeepCopyInto X)"
  unfolding NetworkPeer_type_def NetworkPeer_DeepCopyInto_def
  using assms by (intro deep_struct) (simp_all add: deep_rules foreign_lawsD)

lemma MetricsSpec_deep [deep_rules]:
  assumes "foreign_laws X"
  shows "deep (MetricsSpec_type X) (MetricsSpec_DeepCopyInto X)"
  unfolding MetricsSpec_type_def MetricsSpec_DeepCopyInto_def
  using assms by (intro deep_struct) (simp_all add: deep_rules foreign_lawsD)

lemma MailoutGatewaySpec_deep [deep_rules]:
  assumes "foreign_laws X"
  shows "deep (MailoutGatewaySpec_type X) (MailoutGatewaySpec_DeepCopyInto X)"
  unfolding MailoutGatewaySpec_type_def MailoutGatewaySpec_DeepCopyInto_def
  using assms by (intro deep_struct) (simp_all add: deep_rules foreign_lawsD)

lemma ListenerStatus_deep [deep_rules]: "deep ListenerStatus_type ListenerStatus_DeepCopyInto"
  unfolding ListenerStatus_type_def ListenerStatus_DeepCopyInto_def
  by (intro deep_struct) (simp_all add: deep_rules)

lemma MailoutGatewayStatus_deep [deep_rules]:
  assumes "foreign_laws X"
  shows "deep (MailoutGatewayStatus_type X) (MailoutGatewayStatus_DeepCopyInto X)"
  unfolding MailoutGatewayStatus_type_def MailoutGatewayStatus_DeepCopyInto_def
  using assms by (intro deep_struct) (simp_all add: deep_rules foreign_lawsD)

lemma MailoutGateway_deep [deep_rules]:
  assumes "foreign_laws X"
  shows "deep (MailoutGateway_type X) (MailoutGateway_DeepCopyInto X)"
  unfolding MailoutGateway_type_def MailoutGateway_DeepCopyInto_def
  using assms by (intro deep_struct) (simp_all add: deep_rules foreign_lawsD)

lemma MailoutGatewayList_deep [deep_rules]:
  assumes "foreign_laws X"
  shows "deep (MailoutGatewayList_type X) (MailoutGatewayList_DeepCopyInto X)"
  unfolding MailoutGatewayList_type_def MailoutGatewayList_DeepCopyInto_def
  using assms by (intro deep_struct) (simp_all add: deep_rules foreign_lawsD)

lemma mon_SafeAuthorization_deep [deep_rules]:
  assumes "foreign_laws X"
  shows "deep (mon_SafeAuthorization_type X) (mon_SafeAuthorization_DeepCopyInto X)"
  unfolding mon_SafeAuthorization_type_def mon_SafeAuthorization_DeepCopyInto_def
  using assms by (intro deep_struct) (simp_all add: deep_rules foreign_lawsD)

lemma mon_Endpoint_deep [deep_rules]:
  assumes "foreign_laws X"
  shows "deep (mon_Endpoint_type X) (mon_Endpoint_DeepCopyInto X)"
  unfolding mon_Endpoint_type_def mon_Endpoint_DeepCopyInto_def
  using assms by (intro deep_struct) (simp_all add: deep_rules foreign_lawsD)

lemma mon_NamespaceSelector_deep [deep_rules]: "deep mon_NamespaceSelector_type mon_NamespaceSelector_DeepCopyInto"
  unfolding mon_NamespaceSelector_type_def mon_NamespaceSelector_DeepCopyInto_def
  by (intro deep_struct) (simp_all add: deep_rules)

lemma mon_ServiceMonitorSpec_deep [deep_rules]:
  assumes "foreign_laws X"
  shows "deep (mon_ServiceMonitorSpec_type X) (mon_ServiceMonitorSpec_DeepCopyInto X)"
  unfolding mon_ServiceMonitorSpec_type_def mon_ServiceMonitorSpec_DeepCopyInto_def
  using assms by (intro deep_struct) (simp_all add: deep_rules foreign_lawsD)

lemma mon_ServiceMonitor_deep [deep_rules]:
  assumes "foreign_laws X"
  shows "deep (mon_ServiceMonitor_type X) (mon_ServiceMonitor_DeepCopyInto X)"
  unfolding mon_ServiceMonitor_type_def mon_ServiceMonitor_DeepCopyInto_def
  using assms by (intro deep_struct) (simp_all add: deep_rules foreign_lawsD)

lemma mon_ServiceMonitorList_deep [deep_rules]:
  assumes "foreign_laws X"
  shows "deep (mon_ServiceMonitorList_type X) (mon_ServiceMonitorList_DeepCopyInto X)"
  unfolding mon_ServiceMonitorList_type_def mon_ServiceMonitorList_DeepCopyInto_def
  using assms by (intro deep_struct) (simp_all add: deep_rules foreign_lawsD)

lemma cm_IssuerReference_deep [deep_rules]: "deep cm_IssuerReference_type cm_IssuerReference_DeepCopyInto"
  unfolding cm_IssuerReference_type_def cm_IssuerReference_DeepCopyInto_def
  by (intro deep_struct) (simp_all add: deep_rules)

lemma cm_CertificateSpec_deep [deep_rules]: "deep cm_CertificateSpec_type cm_CertificateSpec_DeepCopyInto"
  unfolding cm_CertificateSpec_type_def cm_CertificateSpec_DeepCopyInto_def
  by (intro deep_struct) (simp_all add: deep_rules)

lemma cm_CertificateStatus_deep [deep_rules]:
  assumes "foreign_laws X"
  shows "deep (cm_CertificateStatus_type X) (cm_CertificateStatus_DeepCopyInto X)"
  unfolding cm_CertificateStatus_type_def cm_CertificateStatus_DeepCopyInto_def
  using assms by (intro deep_struct) (simp_all add: deep_rules foreign_lawsD)

lemma cm_Certificate_deep [deep_rules]:
  assumes "foreign_laws X"
  shows "deep (cm_Certificate_type X) (cm_Certificate_DeepCopyInto X)"
  unfolding cm_Certificate_type_def cm_Certificate_DeepCopyInto_def
  using assms by (intro deep_struct) (simp_all add: deep_rules foreign_lawsD)

lemma cm_CertificateList_deep [deep_rules]:
  assumes "foreign_laws X"
  shows "deep (cm_CertificateList_type X) (cm_CertificateList_DeepCopyInto X)"
  unfolding cm_CertificateList_type_def cm_CertificateList_DeepCopyInto_def
  using assms by (intro deep_struct) (simp_all add: deep_rules foreign_lawsD)


section \<open>The cache is safe\<close>

text \<open>C23: A reconciliation that works on copies cannot disturb the cache it shares with the others. For every
  kind of object the operator reads or writes, the copy looks exactly like the original; whatever is then
  written through the copy, at any depth, leaves the original as it was, and whatever is written through the
  original leaves the copy as it was.\<close>

theorem deep_copies_isolate:
  assumes "foreign_laws X"
  shows "isolates (TPtr (MailoutAccount_type X)) (MailoutAccount_DeepCopyObject X) \<and>
    isolates (TPtr (MailoutAccountList_type X)) (MailoutAccountList_DeepCopyObject X) \<and>
    isolates (TPtr (MailoutGateway_type X)) (MailoutGateway_DeepCopyObject X) \<and>
    isolates (TPtr (MailoutGatewayList_type X)) (MailoutGatewayList_DeepCopyObject X) \<and>
    isolates (TPtr (mon_ServiceMonitor_type X)) (mon_ServiceMonitor_DeepCopyObject X) \<and>
    isolates (TPtr (mon_ServiceMonitorList_type X)) (mon_ServiceMonitorList_DeepCopyObject X) \<and>
    isolates (TPtr (cm_Certificate_type X)) (cm_Certificate_DeepCopyObject X) \<and>
    isolates (TPtr (cm_CertificateList_type X)) (cm_CertificateList_DeepCopyObject X)"
  using assms
  by (simp add: MailoutAccount_DeepCopyObject_def MailoutAccountList_DeepCopyObject_def MailoutGateway_DeepCopyObject_def
      MailoutGatewayList_DeepCopyObject_def mon_ServiceMonitor_DeepCopyObject_def mon_ServiceMonitorList_DeepCopyObject_def
      cm_Certificate_DeepCopyObject_def cm_CertificateList_DeepCopyObject_def
      DeepCopyObject_eq deep_isolates deep_rules)

text \<open>An account in a store, with metadata and conditions that hold no references.\<close>

definition plain_foreign :: foreign where
  "plain_foreign =
     (let p = (TPlain, assign) in
      \<lparr>fg_LabelSelector = p, fg_ObjectMeta = p, fg_ListMeta = p, fg_Condition = p, fg_ResourceRequirements = p,
       fg_Toleration = p, fg_Affinity = p, fg_CoreSecretKeySelector = p\<rparr>)"

definition account_heap :: heap where
  "account_heap =
     [Elems [Scalar ''app@example.test''],
      Target (Struct [(''TypeMeta'', Scalar ''v1alpha1''), (''ObjectMeta'', Scalar ''a/app''),
        (''Spec'', Struct [(''GatewayRef'', Struct [(''Name'', Scalar ''gw''), (''Namespace'', Scalar [])]),
           (''Username'', Scalar []), (''SecretRef'', Struct [(''Name'', Scalar ''creds'')]), (''Rotation'', Scalar []),
           (''AllowedSenders'', Ref 0), (''EnforceHeaderFrom'', NilRef), (''Disabled'', Scalar ''false'')]),
        (''Status'', Struct [(''Conditions'', NilRef), (''ObservedGeneration'', Scalar ''1''), (''Username'', Scalar []),
           (''SecretName'', Scalar []), (''Gateway'', Scalar []), (''RotationObserved'', Scalar [])])])]"

lemma account_typed: "has_type (TPtr (MailoutAccount_type plain_foreign)) account_heap (Ref 1)"
  by (simp add: MailoutAccount_type_def MailoutAccountSpec_type_def MailoutAccountStatus_type_def
      GatewayReference_type_def LocalObjectReference_type_def plain_foreign_def account_heap_def scalar_def Let_def)

theorem deep_copies_isolate_witness:
  "\<exists>h'. MailoutAccount_DeepCopyObject plain_foreign (Ref 1) account_heap = (Ref 3, h') \<and>
     view (TPtr (MailoutAccount_type plain_foreign)) h' (Ref 3) =
       view (TPtr (MailoutAccount_type plain_foreign)) account_heap (Ref 1) \<and>
     view (TPtr (MailoutAccount_type plain_foreign)) (h'[2 := Elems [Scalar ''evil@example.test'']]) (Ref 1) =
       view (TPtr (MailoutAccount_type plain_foreign)) account_heap (Ref 1)"
proof -
  let ?t = "TPtr (MailoutAccount_type plain_foreign)"
  have laws: "foreign_laws plain_foreign" by (simp add: foreign_laws_def plain_foreign_def Let_def deep_rules)
  obtain v' h' where run: "MailoutAccount_DeepCopyObject plain_foreign (Ref 1) account_heap = (v', h')" by fastforce
  have "fst (MailoutAccount_DeepCopyObject plain_foreign (Ref 1) account_heap) = Ref 3" by code_simp
  then have v': "v' = Ref 3" using run by simp
  have "isolates ?t (MailoutAccount_DeepCopyObject plain_foreign)" using deep_copies_isolate [OF laws] by blast
  note iso = this [unfolded isolates_def, rule_format, OF account_typed run]
  have "case MailoutAccount_DeepCopyObject plain_foreign (Ref 1) account_heap of
      (v, h) \<Rightarrow> 2 \<in> cells_of (MailoutAccount_type plain_foreign) h (case h ! 3 of Target x \<Rightarrow> x | _ \<Rightarrow> NilRef) \<and>
        (case h ! 3 of Target x \<Rightarrow> True | _ \<Rightarrow> False)" by code_simp
  then have "2 \<in> cells_of ?t h' v'" using run v' by (auto split: cell.splits)
  then have "written_through (cells_of ?t h' v') h' (h'[2 := Elems [Scalar ''evil@example.test'']])"
    by (rule written_update)
  then show ?thesis using iso run v' by blast
qed

end
