(* ===== verification/Pki.thy ===== *)
theory Pki
  imports Go_Errors Go_Format
begin

text \<open>
  \<^verbatim>\<open>internal/pki\<close> and \<^verbatim>\<open>hack/gencerts\<close>: the throwaway authority and certificates of the tests and of the compose
  stack. Key generation, X.509 and PEM encoding, the clock and the file system are arguments; a certificate
  is made from a template, which is what the sources decide.
\<close>


section \<open>Templates\<close>

datatype key_usage = CertSign | DigitalSignature | KeyEncipherment

datatype ext_key_usage = ServerAuth

record template =
  tp_SerialNumber :: int
  tp_CommonName :: string
  tp_NotBefore :: int
  tp_NotAfter :: int
  tp_KeyUsage :: "key_usage list"
  tp_ExtKeyUsage :: "ext_key_usage list"
  tp_BasicConstraintsValid :: bool
  tp_IsCA :: bool
  tp_DNSNames :: "string list"
  tp_IPAddresses :: "bytes list"

text \<open>\<open>'k\<close> is a private key and \<open>'c\<close> a parsed certificate. \<open>x509_Create\<close> signs a template for a key with the key of
  a parent: a template of its own for the authority, its certificate afterwards. \<open>add_Year\<close> is
  \<^verbatim>\<open>AddDate(1, 0, 0)\<close>. The modes of files are as \<^verbatim>\<open>os\<close> takes them.\<close>

record ('w, 'k, 'c) pki_env =
  ecdsa_GenerateKey :: "'w \<Rightarrow> 'w \<times> 'k result"
  rand_Int :: "int \<Rightarrow> 'w \<Rightarrow> 'w \<times> int result"
  pki_Now :: "'w \<Rightarrow> 'w \<times> int"
  add_Year :: "int \<Rightarrow> int"
  x509_Create :: "template \<Rightarrow> template + 'c \<Rightarrow> 'k \<Rightarrow> 'k \<Rightarrow> 'w \<Rightarrow> 'w \<times> bytes result"
  x509_Parse :: "bytes \<Rightarrow> 'c result"
  pki_PKCS8 :: "'k \<Rightarrow> bytes result"
  pki_Pem :: "string \<Rightarrow> bytes \<Rightarrow> bytes"
  pki_ParseIP :: "string \<Rightarrow> bytes option"
  fs_MkdirAll :: "string \<Rightarrow> nat \<Rightarrow> 'w \<Rightarrow> 'w \<times> go_error option"
  fs_WriteFile :: "string \<Rightarrow> bytes \<Rightarrow> nat \<Rightarrow> 'w \<Rightarrow> 'w \<times> go_error option"
  fs_Chmod :: "string \<Rightarrow> nat \<Rightarrow> 'w \<Rightarrow> 'w \<times> go_error option"

record ('k, 'c) CA =
  ca_CertPEM :: bytes
  ca_KeyPEM :: bytes
  ca_cert :: 'c
  ca_key :: 'k

record KeyPair =
  kp_CertPEM :: bytes
  kp_KeyPEM :: bytes

definition hour :: int where "hour = 3600 * 1000000000"

definition encodeKey :: "('w, 'k, 'c, 'm) pki_env_scheme \<Rightarrow> 'k \<Rightarrow> bytes result" where
  "encodeKey P key =
     (case pki_PKCS8 P key of
        Inl err \<Rightarrow> Inl (Wrap ''marshal key'' err)
      | Inr der \<Rightarrow> Inr (pki_Pem P ''PRIVATE KEY'' der))"

definition serial :: "('w, 'k, 'c, 'm) pki_env_scheme \<Rightarrow> 'w \<Rightarrow> 'w \<times> int" where
  "serial P w =
     (case rand_Int P (2 ^ 128) w of
        (w, Inl err) \<Rightarrow> (w, 1)
      | (w, Inr n) \<Rightarrow> (w, n))"

text \<open>The serial number and the two readings of the clock a template starts with.\<close>

definition dated ::
  "('w, 'k, 'c, 'm) pki_env_scheme \<Rightarrow> (int \<Rightarrow> int \<Rightarrow> int \<Rightarrow> template) \<Rightarrow> 'w \<Rightarrow> 'w \<times> template" where
  "dated P mk w =
     (case serial P w of (w, n) \<Rightarrow>
      (case pki_Now P w of (w, before) \<Rightarrow>
       (case pki_Now P w of (w, after) \<Rightarrow> (w, mk n (before - hour) (add_Year P after)))))"

definition NewCA :: "('w, 'k, 'c, 'm) pki_env_scheme \<Rightarrow> string \<Rightarrow> 'w \<Rightarrow> 'w \<times> ('k, 'c) CA result" where
  "NewCA P commonName w =
     (case ecdsa_GenerateKey P w of
        (w, Inl err) \<Rightarrow> (w, Inl (Wrap ''generate CA key'' err))
      | (w, Inr key) \<Rightarrow>
     (case dated P
             (\<lambda>n before after.
                \<lparr>tp_SerialNumber = n, tp_CommonName = commonName, tp_NotBefore = before, tp_NotAfter = after,
                 tp_KeyUsage = [CertSign, DigitalSignature], tp_ExtKeyUsage = [],
                 tp_BasicConstraintsValid = True, tp_IsCA = True, tp_DNSNames = [], tp_IPAddresses = []\<rparr>) w of
        (w, tmpl) \<Rightarrow>
     (case x509_Create P tmpl (Inl tmpl) key key w of
        (w, Inl err) \<Rightarrow> (w, Inl (Wrap ''self-sign CA'' err))
      | (w, Inr der) \<Rightarrow>
     (case x509_Parse P der of
        Inl err \<Rightarrow> (w, Inl (Wrap ''parse CA'' err))
      | Inr cert \<Rightarrow>
     (case encodeKey P key of
        Inl err \<Rightarrow> (w, Inl err)
      | Inr keyPEM \<Rightarrow>
          (w, Inr \<lparr>ca_CertPEM = pki_Pem P ''CERTIFICATE'' der, ca_KeyPEM = keyPEM, ca_cert = cert, ca_key = key\<rparr>))))))"

text \<open>The loop over the names: each goes to the addresses or to the DNS names.\<close>

definition add_name :: "('w, 'k, 'c, 'm) pki_env_scheme \<Rightarrow> string \<Rightarrow> template \<Rightarrow> template" where
  "add_name P n tmpl =
     (case pki_ParseIP P n of
        Some ip \<Rightarrow> tmpl\<lparr>tp_IPAddresses := tp_IPAddresses tmpl @ [ip]\<rparr>
      | None \<Rightarrow> tmpl\<lparr>tp_DNSNames := tp_DNSNames tmpl @ [n]\<rparr>)"

definition named_template :: "('w, 'k, 'c, 'm) pki_env_scheme \<Rightarrow> string list \<Rightarrow> int \<Rightarrow> int \<Rightarrow> int \<Rightarrow> template" where
  "named_template P names n before after =
     fold (add_name P) names
       \<lparr>tp_SerialNumber = n, tp_CommonName = (case names of [] \<Rightarrow> [] | c # _ \<Rightarrow> c), tp_NotBefore = before,
        tp_NotAfter = after, tp_KeyUsage = [DigitalSignature, KeyEncipherment], tp_ExtKeyUsage = [ServerAuth],
        tp_BasicConstraintsValid = False, tp_IsCA = False, tp_DNSNames = [], tp_IPAddresses = []\<rparr>"

definition Issue ::
  "('w, 'k, 'c, 'm) pki_env_scheme \<Rightarrow> ('k, 'c) CA \<Rightarrow> string list \<Rightarrow> 'w \<Rightarrow> 'w \<times> KeyPair result" where
  "Issue P ca names w =
     (case ecdsa_GenerateKey P w of
        (w, Inl err) \<Rightarrow> (w, Inl (Wrap ''generate key'' err))
      | (w, Inr key) \<Rightarrow>
     (case dated P (named_template P names) w of
        (w, tmpl) \<Rightarrow>
     (case x509_Create P tmpl (Inr (ca_cert ca)) key (ca_key ca) w of
        (w, Inl err) \<Rightarrow> (w, Inl (Wrap ''sign certificate'' err))
      | (w, Inr der) \<Rightarrow>
     (case encodeKey P key of
        Inl err \<Rightarrow> (w, Inl err)
      | Inr keyPEM \<Rightarrow> (w, Inr \<lparr>kp_CertPEM = pki_Pem P ''CERTIFICATE'' der, kp_KeyPEM = keyPEM\<rparr>)))))"



section \<open>Files\<close>

text \<open>\<^verbatim>\<open>0o600\<close>, \<^verbatim>\<open>0o644\<close> and \<^verbatim>\<open>0o755\<close>.\<close>

definition mode_600 :: nat where "mode_600 = 384"
definition mode_644 :: nat where "mode_644 = 420"
definition mode_755 :: nat where "mode_755 = 493"

datatype file_op = MadeDir string nat | WroteFile string bytes nat | ChangedMode string nat

text \<open>What was asked of the file system, in order, beside the result; a failed call is the last one.\<close>

definition WriteFiles ::
  "('w, 'k, 'c, 'm) pki_env_scheme \<Rightarrow> KeyPair \<Rightarrow> string \<Rightarrow> string \<Rightarrow> 'w \<Rightarrow>
     'w \<times> file_op list \<times> (string \<times> string) result" where
  "WriteFiles P kp dir name w =
     (let certFile = path_Join [dir, name @ ''.crt'']; keyFile = path_Join [dir, name @ ''.key''] in
      case fs_WriteFile P certFile (kp_CertPEM kp) mode_644 w of
        (w, Some err) \<Rightarrow> (w, [WroteFile certFile (kp_CertPEM kp) mode_644], Inl err)
      | (w, None) \<Rightarrow>
     (case fs_WriteFile P keyFile (kp_KeyPEM kp) mode_600 w of
        (w, err) \<Rightarrow>
          (w, [WroteFile certFile (kp_CertPEM kp) mode_644, WroteFile keyFile (kp_KeyPEM kp) mode_600],
           case err of Some err \<Rightarrow> Inl err | None \<Rightarrow> Inr (certFile, keyFile))))"

text \<open>\<^verbatim>\<open>gencerts\<close>: one certificate of the authority, written and made readable.\<close>

definition issue_files ::
  "('w, 'k, 'c, 'm) pki_env_scheme \<Rightarrow> ('k, 'c) CA \<Rightarrow> string \<Rightarrow> string \<Rightarrow> string \<Rightarrow> nat \<Rightarrow> 'w \<Rightarrow>
     'w \<times> file_op list \<times> go_error option" where
  "issue_files P ca dir file_name names keyMode w =
     (case Issue P ca (split_on CHR '','' names) w of
        (w, Inl err) \<Rightarrow> (w, [], Some err)
      | (w, Inr pair) \<Rightarrow>
     (case WriteFiles P pair dir file_name w of
        (w, ops, Inl err) \<Rightarrow> (w, ops, Some err)
      | (w, ops, Inr (_, keyFile)) \<Rightarrow>
          (case fs_Chmod P keyFile keyMode w of (w, err) \<Rightarrow> (w, ops @ [ChangedMode keyFile keyMode], err))))"

definition gencerts ::
  "('w, 'k, 'c, 'm) pki_env_scheme \<Rightarrow> string \<Rightarrow> string \<Rightarrow> string \<Rightarrow> nat \<Rightarrow> 'w \<Rightarrow> 'w \<times> file_op list \<times> go_error option" where
  "gencerts P dir names altNames keyMode w =
     (case fs_MkdirAll P dir mode_755 w of
        (w, Some err) \<Rightarrow> (w, [MadeDir dir mode_755], Some err)
      | (w, None) \<Rightarrow>
     (case NewCA P ''mailout local dev'' w of
        (w, Inl err) \<Rightarrow> (w, [MadeDir dir mode_755], Some err)
      | (w, Inr ca) \<Rightarrow>
     (let ops = [MadeDir dir mode_755, WroteFile (dir @ ''/ca.crt'') (ca_CertPEM ca) mode_644] in
      case fs_WriteFile P (dir @ ''/ca.crt'') (ca_CertPEM ca) mode_644 w of
        (w, Some err) \<Rightarrow> (w, ops, Some err)
      | (w, None) \<Rightarrow>
     (case issue_files P ca dir ''gateway'' names keyMode w of
        (w, main_ops, Some err) \<Rightarrow> (w, ops @ main_ops, Some err)
      | (w, main_ops, None) \<Rightarrow>
          if altNames = [] then (w, ops @ main_ops, None)
          else (case issue_files P ca dir ''gateway-alt'' altNames keyMode w of
                  (w, alt_ops, err) \<Rightarrow> (w, ops @ main_ops @ alt_ops, err))))))"


section \<open>What is issued\<close>

lemma fold_add_name:
  "tp_DNSNames (fold (add_name P) names t) = tp_DNSNames t @ filter (\<lambda>n. pki_ParseIP P n = None) names \<and>
   tp_IPAddresses (fold (add_name P) names t) = tp_IPAddresses t @ List.map_filter (pki_ParseIP P) names \<and>
   tp_IsCA (fold (add_name P) names t) = tp_IsCA t \<and> tp_KeyUsage (fold (add_name P) names t) = tp_KeyUsage t"
  by (induction names arbitrary: t) (auto simp: add_name_def map_filter_simps split: option.splits)

text \<open>A certificate that is issued is signed by the authority's key, is for every name that was asked for and no
  other, cannot sign certificates itself, and comes with its own key.\<close>

lemma Issue_names:
  assumes "Issue P ca names w = (w', Inr kp)"
  shows "\<exists>tmpl key der w1 w2. x509_Create P tmpl (Inr (ca_cert ca)) key (ca_key ca) w1 = (w2, Inr der) \<and>
           kp_CertPEM kp = pki_Pem P ''CERTIFICATE'' der \<and> encodeKey P key = Inr (kp_KeyPEM kp) \<and>
           tp_DNSNames tmpl = filter (\<lambda>n. pki_ParseIP P n = None) names \<and>
           tp_IPAddresses tmpl = List.map_filter (pki_ParseIP P) names \<and>
           \<not> tp_IsCA tmpl \<and> CertSign \<notin> set (tp_KeyUsage tmpl)"
proof -
  obtain w1 key where k: "ecdsa_GenerateKey P w = (w1, Inr key)"
    using assms by (auto simp: Issue_def split: prod.splits sum.splits)
  obtain w2 tmpl where d: "dated P (named_template P names) w1 = (w2, tmpl)" by fastforce
  then obtain n b a where tmpl: "tmpl = named_template P names n b a" by (auto simp: dated_def split: prod.splits)
  obtain w3 der where c: "x509_Create P tmpl (Inr (ca_cert ca)) key (ca_key ca) w2 = (w3, Inr der)"
    and pair: "encodeKey P key = Inr (kp_KeyPEM kp)" "kp_CertPEM kp = pki_Pem P ''CERTIFICATE'' der"
    using assms k d by (auto simp: Issue_def split: prod.splits sum.splits)
  have "tp_DNSNames tmpl = filter (\<lambda>n. pki_ParseIP P n = None) names \<and>
      tp_IPAddresses tmpl = List.map_filter (pki_ParseIP P) names \<and> \<not> tp_IsCA tmpl \<and> CertSign \<notin> set (tp_KeyUsage tmpl)"
    unfolding tmpl named_template_def by (simp add: fold_add_name)
  then show ?thesis using c pair by blast
qed

text \<open>A serial number fits in 128 bits, even when there is no randomness to be had.\<close>

lemma serial_range:
  assumes "\<And>m w w' n. rand_Int P m w = (w', Inr n) \<Longrightarrow> 0 \<le> n \<and> n < m"
  shows "0 \<le> snd (serial P w) \<and> snd (serial P w) < 2 ^ 128"
proof (cases "rand_Int P (2 ^ 128) w")
  case (Pair w' r)
  then show ?thesis using assms [of "2 ^ 128" w w'] by (cases r) (simp_all add: serial_def)
qed

text \<open>A private key is written with the mode of a file for its owner only: whatever is written with a wider one is a certificate.
  It is opened to others, if at all, after it was written, and to exactly the mode asked for.\<close>

definition careful_op :: "('w, 'k, 'c, 'm) pki_env_scheme \<Rightarrow> nat \<Rightarrow> file_op list \<Rightarrow> file_op \<Rightarrow> bool" where
  "careful_op P keyMode ops op =
     (case op of
        WroteFile _ b mode \<Rightarrow> mode = mode_600 \<or> (mode = mode_644 \<and> (\<exists>der. b = pki_Pem P ''CERTIFICATE'' der))
      | ChangedMode path mode \<Rightarrow> mode = keyMode \<and> (\<exists>b. WroteFile path b mode_600 \<in> set ops)
      | MadeDir _ mode \<Rightarrow> mode = mode_755)"

definition careful :: "('w, 'k, 'c, 'm) pki_env_scheme \<Rightarrow> nat \<Rightarrow> file_op list \<Rightarrow> bool" where
  "careful P keyMode ops \<longleftrightarrow> (\<forall>op \<in> set ops. careful_op P keyMode ops op)"

lemma careful_op_simps [simp]:
  "careful_op P m ops (MadeDir d mode_755)"
  "careful_op P m ops (WroteFile path (pki_Pem P ''CERTIFICATE'' der) mode_644)"
  "careful_op P m ops (WroteFile path b mode_600)"
  by (auto simp: careful_op_def)

lemma careful_op_mono: "careful_op P m ops op \<Longrightarrow> set ops \<subseteq> set ops' \<Longrightarrow> careful_op P m ops' op"
  by (cases op) (auto simp: careful_op_def)

lemma careful_append: "careful P m a \<Longrightarrow> careful P m b \<Longrightarrow> careful P m (a @ b)"
  unfolding careful_def using careful_op_mono [of P m a _ "a @ b"] careful_op_mono [of P m b _ "a @ b"] by auto

lemma careful_chmod:
  assumes "careful P m ops" "WroteFile k b mode_600 \<in> set ops"
  shows "careful P m (ops @ [ChangedMode k m])"
proof -
  have "careful_op P m (ops @ [ChangedMode k m]) (ChangedMode k m)" using assms(2) by (auto simp: careful_op_def)
  then show ?thesis using assms(1) careful_op_mono [of P m ops _ "ops @ [ChangedMode k m]"] by (auto simp: careful_def)
qed

lemma careful_simps [simp]:
  "careful P m []" "careful P m [MadeDir d mode_755]"
  "careful P m [WroteFile path (pki_Pem P ''CERTIFICATE'' der) mode_644]"
  by (auto simp: careful_def)

lemma careful_pair:
  assumes "kp_CertPEM kp = pki_Pem P ''CERTIFICATE'' der" "WriteFiles P kp dir name w = (w', ops, r)"
  shows "careful P m ops \<and> (\<forall>c k. r = Inr (c, k) \<longrightarrow> (\<exists>b. WroteFile k b mode_600 \<in> set ops))"
  using assms by (auto simp: WriteFiles_def careful_def Let_def split: prod.splits option.splits)

lemma issue_careful:
  assumes "issue_files P ca dir n names keyMode w = (w', ops, err)"
  shows "careful P keyMode ops"
proof (cases "Issue P ca (split_on CHR '','' names) w")
  case (Pair w1 r)
  show ?thesis
  proof (cases r)
    case (Inl e)
    then show ?thesis using assms Pair by (simp add: issue_files_def)
  next
    case (Inr kp)
    obtain der where der: "kp_CertPEM kp = pki_Pem P ''CERTIFICATE'' der" using Issue_names Pair Inr by metis
    obtain w2 ops1 r1 where wf: "WriteFiles P kp dir n w1 = (w2, ops1, r1)" by (metis surj_pair)
    note c = careful_pair [OF der wf, of keyMode]
    have "ops = ops1 \<or> (\<exists>c k. r1 = Inr (c, k) \<and> ops = ops1 @ [ChangedMode k keyMode])"
      using assms Pair Inr wf by (auto simp: issue_files_def split: sum.splits prod.splits)
    then show ?thesis using c careful_chmod by metis
  qed
qed

lemma gencerts_careful:
  assumes "gencerts P dir names altNames keyMode w = (w', ops, err)"
  shows "careful P keyMode ops"
proof -
  have ca: "\<exists>der. ca_CertPEM ca = pki_Pem P ''CERTIFICATE'' der" if "NewCA P n w1 = (w2, Inr ca)" for ca n w1 w2
    using that by (auto simp: NewCA_def split: prod.splits sum.splits)
  have one: "careful P keyMode [MadeDir d mode_755, WroteFile path (ca_CertPEM ca) mode_644]"
    if "NewCA P n w1 = (w2, Inr ca)" for d path ca n w1 w2 using ca [OF that] by (auto simp: careful_def)
  obtain w1 e1 where mk: "fs_MkdirAll P dir mode_755 w = (w1, e1)" by fastforce
  obtain w2 c where new: "NewCA P ''mailout local dev'' w1 = (w2, c)" by fastforce
  show ?thesis
  proof (cases "e1 = None \<and> (\<exists>ca. c = Inr ca)")
    case False
    then have "ops = [MadeDir dir mode_755]" using assms mk new by (auto simp: gencerts_def split: option.splits sum.splits)
    then show ?thesis by simp
  next
    case True
    then obtain ca where ca: "c = Inr ca" by blast
    let ?ops = "[MadeDir dir mode_755, WroteFile (dir @ ''/ca.crt'') (ca_CertPEM ca) mode_644]"
    obtain w3 e3 where wr: "fs_WriteFile P (dir @ ''/ca.crt'') (ca_CertPEM ca) mode_644 w2 = (w3, e3)" by fastforce
    obtain w4 main_ops e4 where i1: "issue_files P ca dir ''gateway'' names keyMode w3 = (w4, main_ops, e4)" by (metis surj_pair)
    obtain w5 alt_ops e5 where i2: "issue_files P ca dir ''gateway-alt'' altNames keyMode w4 = (w5, alt_ops, e5)" by (metis surj_pair)
    have "ops = ?ops \<or> ops = ?ops @ main_ops \<or> ops = ?ops @ main_ops @ alt_ops"
      using assms mk new True ca wr i1 i2 by (cases e3; cases e4) (auto simp: gencerts_def Let_def split: if_splits)
    then show ?thesis using one [OF new [unfolded ca]] issue_careful [OF i1] issue_careful [OF i2] careful_append by metis
  qed
qed

end
