(* ===== verification/Spec2Isabelle.thy ===== *)
theory Spec2Isabelle
  imports Policy Config Metrics Auth RateLimit Message Spool Relay Milter_Chain Dkim Tlsstore Server Session
    Delivery Gateway_Controller Source Process Operator Observability Go_Duration
    Provisioning Deep_Copy Pki
begin

text \<open>
  A verification of mailout, an outbound mail gateway for Kubernetes: an operator that turns
  \<^verbatim>\<open>MailoutGateway\<close> and \<^verbatim>\<open>MailoutAccount\<close> resources into a configuration, and a dataplane that serves it,
  accepting authenticated submissions and handing them to one upstream relay.

  \<^bold>\<open>The program and its parts.\<close> An account resource names a gateway. The admission webhooks
  (\<^verbatim>\<open>internal/webhook\<close>) say which resources are accepted. The account controller
  (\<^verbatim>\<open>internal/controller/account_controller.go\<close>) gives an account its credentials in a Secret of its
  namespace. The gateway controller (\<^verbatim>\<open>gateway_controller.go\<close>) collects the accounts of a gateway, narrows
  what each may send from to what the gateway's owner granted its namespace, renders a configuration
  (\<^verbatim>\<open>internal/render\<close>) and writes it to a Secret that a Deployment mounts. The gateway process
  (\<^verbatim>\<open>cmd/mailout/gateway.go\<close>) loads that file (\<^verbatim>\<open>internal/source\<close>), watches it, and replaces its snapshot
  when it changes (\<^verbatim>\<open>internal/gateway/server.go\<close>). A session logs in against the snapshot, and each of its
  messages is checked against the quota, buffered, checked for its \<^verbatim>\<open>From\<close> header, passed through the
  filters, signed and relayed (\<^verbatim>\<open>server.go\<close>, \<^verbatim>\<open>ratelimit.go\<close>, \<^verbatim>\<open>spool.go\<close>, \<^verbatim>\<open>milter.go\<close>, \<^verbatim>\<open>dkim.go\<close>, \<^verbatim>\<open>relay.go\<close>).

  \<^bold>\<open>Conventions.\<close> A Go string or byte slice is a list of bytes. An error is a value of \<open>go_error\<close>, a chain of
  wrapped texts around a sentinel or an SMTP answer; a fallible function returns \<open>error + value\<close>, and a panic is
  \<^const>\<open>None\<close>. A struct is a record whose fields carry the source's names behind a short prefix. A function that
  acts on the outside takes the world as its last argument and returns it, and what it asks of the world
  is a field of an environment record: files in \<open>os_env\<close>, the upstream in \<open>relay_env\<close>, the filters in
  \<open>milter_env\<close>, the signer in \<open>dkim_env\<close>, the quota store and clock in \<open>quota_env\<close>, all of it in \<open>server_env\<close>; the
  file watcher in \<open>process_env\<close>; the API server in \<open>reader\<close>, \<open>kube\<close> and \<open>gateway_kube\<close>. These stand for packages that
  are not part of the sources. What a theorem needs of one is a named hypothesis that states its documented
  behaviour (\<open>os_laws\<close>, \<open>up_laws\<close>, \<open>dkim_laws\<close>, \<open>store_laws\<close>, \<open>credential_laws\<close>, \<open>unicode_laws\<close>, the locale \<open>slice_sort\<close>
  for \<^verbatim>\<open>sort.Slice\<close>), and the witnesses show worlds in which it holds. Calls to the metrics, to the upstream
  and to the API server are returned as logs, so that a property can speak of what was done.

  \<^bold>\<open>The language and its library.\<close> \<open>Prelude\<close> has the shared lemmas and decimal numbers; \<open>Go_Strings\<close>, \<open>Go_Utf8\<close>,
  \<open>Go_Text\<close>, \<open>Go_Format\<close>, \<open>Go_Errors\<close> and \<open>Go_Duration\<close> the parts of the standard library the sources use: searching
  and trimming, UTF-8 decoding, letter case, paths and addresses, error chains, durations with the one
  floating point step of their parser. Unicode's case tables are an argument. \<open>Byte_Store\<close> is the contract of an
  \<^verbatim>\<open>io.Writer\<close> that \<^verbatim>\<open>io.Copy\<close> fills, interpreted for the spool; \<open>Reachability\<close> the rule for invariants of step
  relations, interpreted for the watcher and for the process.

  \<^bold>\<open>The dataplane\<close>, in the order of \<^verbatim>\<open>internal/gateway\<close>.
  \<^item> \<open>Policy\<close> (\<^verbatim>\<open>policy.go\<close>): what a list of senders allows, exactly; narrowing a grant by a request never
    escalates.
  \<^item> \<open>Config\<close> (\<^verbatim>\<open>config.go\<close>): defaults, validation and the partition of accounts, each characterised exactly.
    \<open>Go_Duration\<close>: durations survive the configuration file, and reading one ends.
  \<^item> \<open>Metrics\<close> and \<open>Observability\<close> (\<^verbatim>\<open>metrics.go\<close>): the counters, collectors and endpoint; every label value
    comes from a finite set the configuration fixes.
  \<^item> \<open>Auth\<close> (\<^verbatim>\<open>auth.go\<close>): who logs in, at the price of one comparison whether or not the account exists.
  \<^item> \<open>RateLimit\<close> (\<^verbatim>\<open>ratelimit.go\<close>): no more passes than the limit, and no store means no mail.
  \<^item> \<open>Message\<close> (\<^verbatim>\<open>message.go\<close>) and \<open>Spool\<close> (\<^verbatim>\<open>spool.go\<close>): parsing and printing a message; the buffer implements a
    sequence of bytes through every failure of the disk, and keeps a bounded part of it on the heap.
  \<^item> \<open>Relay\<close> (\<^verbatim>\<open>relay.go\<close>), \<open>Milter_Chain\<close> (\<^verbatim>\<open>milter.go\<close>), \<open>Dkim\<close> (\<^verbatim>\<open>dkim.go\<close>, \<^verbatim>\<open>dkimgen.go\<close>), \<open>Tlsstore\<close>
    (\<^verbatim>\<open>tlsstore.go\<close>): what the upstream was told on success and on failure; what a chain of filters decides and
    what it does to a message; that only an authorised domain is signed for; which certificate a name gets.
  \<^item> \<open>Server\<close> and \<open>Session\<close> (\<^verbatim>\<open>server.go\<close>): a reload replaces everything or nothing and never closes a store that is
    in use; the stages of a message and their laws. \<open>Delivery\<close>: nothing is sent unless everything is in order,
    what is accepted is delivered, each message is counted once, revocation takes effect at the next command.
  \<^item> \<open>Source\<close> (\<^verbatim>\<open>file.go\<close>) and \<open>Process\<close> (\<^verbatim>\<open>gateway.go\<close>): the watcher follows the configuration it delivered, and a
    process that started always serves a configuration that loaded.

  \<^bold>\<open>The operator.\<close>
  \<^item> \<open>Api\<close> (\<^verbatim>\<open>api/v1alpha1\<close>) and \<open>Access\<close> (\<^verbatim>\<open>access.go\<close>): the resources, and what a namespace is granted.
  \<^item> \<open>Deep_Copy\<close> (the three \<^verbatim>\<open>zz_generated.deepcopy.go\<close>): the generated copies, over the explicit store of
    \<open>Go_Store\<close>; a copy looks like the original and shares nothing with it. \<open>foreign_laws\<close> says as much of the copies
    of Kubernetes' own types.
  \<^item> \<open>Render\<close> (\<^verbatim>\<open>render.go\<close>) and \<open>Objects\<close> (\<^verbatim>\<open>objects.go\<close>): the rendered configuration and the objects that carry
    it; what is dropped to fit the Secret, that every path of the configuration is mounted, who may scrape.
  \<^item> \<open>Admission\<close> (\<^verbatim>\<open>internal/webhook\<close>): exactly what each webhook accepts.
  \<^item> \<open>Account_Controller\<close>, \<open>Gateway_Controller\<close> (\<^verbatim>\<open>internal/controller\<close>): one holder per username, stable credentials;
    what is collected was granted, what is published is valid.
  \<^item> \<open>Operator\<close> (\<^verbatim>\<open>cmd/mailout\<close>, \<^verbatim>\<open>discovery.go\<close>): how the operator starts, the transform of its Secret cache, which
    loses nothing the controllers read, and the two key commands.
  \<^item> \<open>Pki\<close> (\<^verbatim>\<open>internal/pki\<close>, \<^verbatim>\<open>hack/gencerts\<close>): the throwaway certificates of the tests and the compose stack; what a
    certificate is for, and with which modes its files are written.

  \<^bold>\<open>Across components.\<close> This theory has the two ends of the chain: what a pod relays comes from an account the
  operator collected and is within its grant (\<open>tenant_isolation\<close>), and a gateway that was admitted is one its pod
  can start on (\<open>admitted_gateway_loads\<close>). \<open>Provisioning\<close> has the way back: the credentials the operator wrote are
  accepted by the dataplane.

  \<^bold>\<open>Loops and bounds.\<close> Loops over lists are structural recursion. Only the loop of \<^verbatim>\<open>time.ParseDuration\<close> is bounded by
  a number of turns, and \<open>UnmarshalJSON_terminates\<close> shows that the length of the text is enough. Reading from the
  network or a file is the list of chunks it delivered and how it ended. The watcher and the process, which
  run forever, are step relations. Integers are unbounded where the sources cannot overflow; a conversion
  to 32 bits in the rendering and the wrap-around of the duration parser are written out.

  \<^bold>\<open>Not modelled.\<close> Goroutines, timeouts and contexts: a call that times out is a call that failed. The SMTP protocol
  around the session's callbacks (go-smtp), TLS, the exposition format, leader election and the manager's
  caches beyond their transform, the registration of types, webhooks and watches with it. The command line
  parser. The test harness under \<^verbatim>\<open>test\<close>, which drives a cluster. The texts of log lines.
\<close>


section \<open>From the resources to the upstream\<close>

text \<open>What a reconciliation of the gateway published, and a pod whose configuration file holds nothing else.
  The marshalled configuration is read back as it was.\<close>

definition published ::
  "('w, 'sel, 'x, 'm) gateway_kube_scheme \<Rightarrow> GatewayReconciler \<Rightarrow> string \<Rightarrow> string \<Rightarrow> bytes \<Rightarrow> bool" where
  "published K R ns n raw \<longleftrightarrow>
     (\<exists>w s r secret. gateway_Reconcile K R ns n w = (s, r) \<and> WroteConfig secret \<in> set (snd s) \<and>
        sec_Data secret ConfigFileName = Some raw)"

definition mounts_published ::
  "('w, 'sel, 'x, 'm) gateway_kube_scheme \<Rightarrow> GatewayReconciler \<Rightarrow> string \<Rightarrow> string \<Rightarrow>
   ('v, 'n) source_env_scheme \<Rightarrow> string \<Rightarrow> bool" where
  "mounts_published K R ns n P path \<longleftrightarrow>
     (\<forall>v v' raw. src_ReadFile P v path = (v', Inr raw) \<longrightarrow> published K R ns n raw)"

definition reads_back :: "('w, 'sel, 'x, 'm) gateway_kube_scheme \<Rightarrow> ('v, 'n) source_env_scheme \<Rightarrow> bool" where
  "reads_back K P \<longleftrightarrow> (\<forall>cfg raw. kb_Marshal K cfg = Inr raw \<longrightarrow> src_Unmarshal P raw = Inr cfg)"

text \<open>An account of a configuration that the pod loads stands for a resource that was listed for the gateway.\<close>

lemma loaded_stands_for:
  fixes K :: "('w, 'sel, 'x, 'm) gateway_kube_scheme" and P :: "('v, 'n) source_env_scheme"
  assumes U: "unicode_laws (kb_unicode K)" and srt: "slice_sort ra_Username (kb_SortAccounts K)"
    and yaml: "reads_back K P" and mount: "mounts_published K R ns n P (file_path src)"
    and cfg: "loadable_config P src cfg" and a: "a \<in> set (cfg_Accounts cfg)"
  shows "\<exists>gw accounts r account l. (\<exists>w w1. rd_Gateway (kb_Client K) w ns n = (w1, Found gw)) \<and>
           gw_Namespace gw = rec_OperatorNamespace R \<and> (\<exists>w w1. rd_Accounts (kb_Client K) w = (w1, Inr accounts)) \<and>
           a = rendered_account r \<and> stands_for K (rec_OperatorNamespace R) gw accounts r account l"
proof -
  obtain v v' where load: "Load P src v = (v', Inr cfg)" using cfg unfolding loadable_config_def by blast
  obtain raw where raw: "src_ReadFile P v (file_path src) = (v', Inr raw)" "src_Unmarshal P raw = Inr cfg"
    using Load_read [OF load] by blast
  obtain w s r secret where pub: "gateway_Reconcile K R ns n w = (s, r)" "WroteConfig secret \<in> set (snd s)"
    "sec_Data secret ConfigFileName = Some raw"
    using mount raw(1) unfolding mounts_published_def published_def by blast
  obtain gw w1 w2 rs cfg' rendered where c:
    "rd_Gateway (kb_Client K) w ns n = (w1, Found gw)" "gw_Namespace gw = rec_OperatorNamespace R"
    "collectAccounts K (rec_OperatorNamespace R) gw w1 = (w2, Inr rs)"
    "set (cfg_Accounts cfg') \<subseteq> rendered_account ` set (kb_SortAccounts K rs)"
    "kb_Marshal K cfg' = Inr rendered" "sec_Data secret ConfigFileName = Some rendered"
    using published_accounts [OF pub(1,2)] by blast
  have "cfg' = cfg" using yaml c(5,6) pub(3) raw(2) unfolding reads_back_def by (metis option.inject sum.inject(2))
  then obtain r where r: "a = rendered_account r" "r \<in> set rs"
    using a c(4) slice_sort.set_srt [OF srt] by auto
  obtain w3 accounts where l: "rd_Accounts (kb_Client K) w1 = (w3, Inr accounts)"
    using c(3) by (auto simp: collectAccounts_def split: prod.splits sum.splits)
  from collected_stands_for [OF U l c(3) r(2)] show ?thesis using c(1,2) l r(1) by blast
qed

lemma from_ok_within: "subsumed p q \<Longrightarrow> from_ok U p c \<Longrightarrow> from_ok U q c"
  unfolding from_ok_def by (auto dest: subsumed_allows split: prod.splits)

text \<open>C1: Tenants are kept apart from end to end. Take any gateway that the operator reconciles, a pod whose
  configuration file only ever holds what a reconciliation published, any moment in the life of that
  pod, and any session: if a message of the session makes the pod call the upstream, then the session's
  username is that of an account resource which refers to the gateway, from a namespace the gateway
  takes accounts from, and the one \<^verbatim>\<open>From\<close> of the stored message is an address the gateway's owner granted
  to that namespace through the labels it has, unless that account is exempt from the check.\<close>

theorem tenant_isolation:
  fixes K :: "('w, 'sel, 'x, 'm) gateway_kube_scheme" and P :: "('v, 'n) process_env_scheme"
  assumes U: "unicode_laws (kb_unicode K)" and srt: "slice_sort ra_Username (kb_SortAccounts K)"
    and yaml: "reads_back K P" and mount: "mounts_published K R ns n P path" and E: "env_laws E"
    and reach: "reachable (process_started E P (kb_unicode K) procs path)
                  (process_moves E P (kb_unicode K) (NewFile path) drift) (p, v)"
    and snap: "sv_current (pr_server p) = Some snap"
    and data: "session_Data E (kb_unicode K) snap r s v' = (err, ms, made, s', v'')" and made: "made \<noteq> []"
  shows "\<exists>user gw accounts account l c.
           ss_account s = Some user \<and> UsernameFor account = acc_Username user \<and>
           (\<exists>w w1. rd_Gateway (kb_Client K) w ns n = (w1, Found gw)) \<and> gw_Namespace gw = rec_OperatorNamespace R \<and>
           (\<exists>w w1. rd_Accounts (kb_Client K) w = (w1, Inr accounts)) \<and> account \<in> set accounts \<and>
           on_gateway (rec_OperatorNamespace R) gw account \<and>
           (\<exists>w w1. namespaceAllowed (kb_Selectors K) (kb_Client K) gw (ma_Namespace account) w = (w1, Inr True)) \<and>
           (no_selector (gs_AllowedSenders (gw_Spec gw)) \<or> labels_read (kb_Client K) (ma_Namespace account) l) \<and>
           stamped E s' (acc_Username user) (fst r) c \<and>
           (as_EnforceHeaderFrom (ma_Spec account) = Some False \<or>
            from_ok (kb_unicode K) (newSenderPolicy (kb_unicode K) (granted_to (kb_Selectors K) gw l)) c)"
proof -
  let ?U = "kb_unicode K" and ?src = "NewFile path"
  obtain cfg where ok: "snap_ok E ?U snap" and cfg: "loadable_config P ?src cfg" "sn_config snap = applyDefaults cfg"
    using process.always [OF reach] snap by (auto simp: process_inv_def in_service_def)
  obtain user acct and msg :: Message where
    d: "ss_account s = Some user" "lookup_account (sn_accounts snap) (acc_Username user) = Some acct"
      "acc_Username acct = acc_Username user" "stamped E s' (acc_Username acct) (fst r) (content (msg_Body msg))"
      "cleared ?U (account_policy ?U (sn_milters snap) acct) (content (msg_Body msg)) ms"
    using session_Data_law [OF E ok data disjI1 [OF made]] made by blast
  have a: "acct \<in> set (cfg_Accounts cfg)" using lookup_configured [OF ok d(2)] cfg(2) by simp
  have path: "mounts_published K R ns n P (file_path ?src)" using mount by (simp add: NewFile_def)
  obtain gw accounts ra account l where
    g: "\<exists>w w1. rd_Gateway (kb_Client K) w ns n = (w1, Found gw)" "gw_Namespace gw = rec_OperatorNamespace R"
      "\<exists>w w1. rd_Accounts (kb_Client K) w = (w1, Inr accounts)" "acct = rendered_account ra"
      "stands_for K (rec_OperatorNamespace R) gw accounts ra account l"
    using loaded_stands_for [OF U srt yaml path cfg(1) a] by blast
  have "acc_SkipHeaderFromCheck acct \<or> from_ok ?U (newSenderPolicy ?U (acc_AllowedSenders acct)) (content (msg_Body msg))"
    using d(5) by (auto simp: cleared_def account_policy_def)
  then have "as_EnforceHeaderFrom (ma_Spec account) = Some False \<or>
      from_ok ?U (newSenderPolicy ?U (granted_to (kb_Selectors K) gw l)) (content (msg_Body msg))"
    using g(4,5) from_ok_within by (auto simp: stands_for_def rendered_account_def)
  then show ?thesis using d g(1-3) g(5) unfolding stands_for_def g(4)
    by (intro exI [of _ user] exI [of _ gw] exI [of _ accounts] exI [of _ account] exI [of _ l]
        exI [of _ "content (msg_Body msg)"]) auto
qed

definition tenant_config :: Config where
  "tenant_config =
     (case GatewayConfig (sort_key ra_Username)
             ((empty_input sample_gateway
                [\<lparr>ra_Username = ''a.app'', ra_PasswordHash = ''h'', ra_Disabled = False,
                  ra_AllowedSenders = [''x@a.example''], ra_SkipHeaderFromCheck = False\<rparr>])\<lparr>in_MetricsToken := ''t''\<rparr>) of
        Inl _ \<Rightarrow> sample_config
      | Inr cfg \<Rightarrow> cfg)"

definition tenant_kube :: "(unit, string \<times> string, unit) gateway_kube" where
  "tenant_kube =
     (sample_kube sample_accounts)
       \<lparr>kb_APIReader := (sample_cluster sample_accounts)
          \<lparr>rd_Secret := \<lambda>w ns n. (w, Found (sample_secret\<lparr>sec_Data := [MetricsTokenKey \<mapsto> ''t'']\<rparr>))\<rparr>,
        kb_Marshal := \<lambda>cfg. if cfg = tenant_config then Inr ''yaml'' else Inl (Plain ''other'')\<rparr>"

definition tenant_pod :: "demo_world process_env" where
  "tenant_pod =
     sample_process
       \<lparr>src_ReadFile := \<lambda>w p. (w, Inr ''yaml''),
        src_Unmarshal := \<lambda>raw. if raw = ''yaml'' then Inr tenant_config else Inl (Plain ''other'')\<rparr>"

definition tenant_server :: "demo_world server_env" where
  "tenant_server = demo_server\<lparr>env_keys := demo_keyring\<lparr>kr_ReadFile := Inr\<rparr>\<rparr>"

lemma tenant_env_laws: "env_laws tenant_server"
  by (auto simp: env_laws_def os_laws_def up_laws_def os_errors_def dkim_laws_def tenant_server_def demo_server_def
      with_signature_def split: option.splits)

definition tenant_session :: "snapshot \<Rightarrow> session" where
  "tenant_session snap =
     (demo_session ''x@a.example'' snap)\<lparr>ss_account := Some (sample_account ''a.app'' ''h'')\<rparr>"

definition tenant_sends :: "gateway_process \<Rightarrow> calls" where
  "tenant_sends p =
     (case sv_current (pr_server p) of
        None \<Rightarrow> []
      | Some snap \<Rightarrow>
          (case session_Data tenant_server ascii_unicode snap ([''From: x@a.example'' @ CRLF @ CRLF @ ''hello''], None)
                  (tenant_session snap) \<lparr>dw_fds = 0, dw_pools = []\<rparr> of
             (_, _, made, _) \<Rightarrow> made))"

lemma tenant_published:
  "case snd (fst (gateway_Reconcile tenant_kube sample_reconciler ''mail'' ''gw'' ())) of
     WroteConfig s # _ \<Rightarrow> sec_Data s ConfigFileName = Some ''yaml'' | _ \<Rightarrow> False"
  by code_simp

lemma tenant_runs:
  "case fst (runGateway tenant_server tenant_pod ascii_unicode 2 ''/c'' \<lparr>dw_fds = 0, dw_pools = []\<rparr>) of
     Some (Inr p) \<Rightarrow> tenant_sends p \<noteq> [] | _ \<Rightarrow> False"
  by code_simp

lemma tenant_laws:
  "unicode_laws (kb_unicode tenant_kube)" "slice_sort ra_Username (kb_SortAccounts tenant_kube)"
  "reads_back tenant_kube tenant_pod"
proof -
  show "unicode_laws (kb_unicode tenant_kube)" by (simp add: tenant_kube_def sample_kube_def)
  have "kb_SortAccounts tenant_kube = sort_key ra_Username" by (simp add: tenant_kube_def sample_kube_def)
  then show "slice_sort ra_Username (kb_SortAccounts tenant_kube)" using account_order.slice_sort_axioms by simp
  show "reads_back tenant_kube tenant_pod"
    by (auto simp: reads_back_def tenant_kube_def tenant_pod_def split: if_splits)
qed

lemma tenant_mounts: "mounts_published tenant_kube sample_reconciler ''mail'' ''gw'' tenant_pod ''/c''"
proof -
  obtain s r where run: "gateway_Reconcile tenant_kube sample_reconciler ''mail'' ''gw'' () = (s, r)" by fastforce
  then obtain secret where "WroteConfig secret \<in> set (snd s)" "sec_Data secret ConfigFileName = Some ''yaml''"
    using tenant_published by (auto split: list.splits kube_write.splits)
  then have "published tenant_kube sample_reconciler ''mail'' ''gw'' ''yaml''"
    using run unfolding published_def by blast
  then show ?thesis by (auto simp: mounts_published_def tenant_pod_def)
qed

theorem tenant_isolation_witness:
  "\<exists>p w (gw :: (string \<times> string, unit) MailoutGateway) (account :: MailoutAccount) c l.
     runGateway tenant_server tenant_pod ascii_unicode 2 ''/c'' \<lparr>dw_fds = 0, dw_pools = []\<rparr> = (Some (Inr p), w) \<and>
     tenant_sends p \<noteq> [] \<and> UsernameFor account = ''a.app'' \<and> on_gateway ''mail'' gw account \<and>
     (as_EnforceHeaderFrom (ma_Spec account) = Some False \<or>
      from_ok ascii_unicode (newSenderPolicy ascii_unicode (granted_to sample_selectors gw l)) c)"
proof -
  let ?w = "\<lparr>dw_fds = 0, dw_pools = []\<rparr>" and ?body = "''From: x@a.example'' @ CRLF @ CRLF @ ''hello''"
  let ?run = "runGateway tenant_server tenant_pod ascii_unicode 2 ''/c'' ?w"
  obtain p w where run: "?run = (Some (Inr p), w)" and sends: "tenant_sends p \<noteq> []"
    using tenant_runs by (cases ?run) (auto split: option.splits sum.splits)
  have U: "kb_unicode tenant_kube = ascii_unicode" by (simp add: tenant_kube_def sample_kube_def)
  have "process_started tenant_server tenant_pod ascii_unicode 2 ''/c'' (p, w)"
    using run unfolding process_started_def by auto
  then have reach: "reachable (process_started tenant_server tenant_pod (kb_unicode tenant_kube) 2 ''/c'')
      (process_moves tenant_server tenant_pod (kb_unicode tenant_kube) (NewFile ''/c'') (\<lambda>_ _. True)) (p, w)"
    unfolding U by (rule reachable.start)
  obtain snap where snap: "sv_current (pr_server p) = Some snap"
    using sends by (auto simp: tenant_sends_def split: option.splits)
  obtain err ms made s' w' where data: "session_Data tenant_server (kb_unicode tenant_kube) snap ([?body], None)
      (tenant_session snap) ?w = (err, ms, made, s', w')" by (metis surj_pair)
  have made: "made \<noteq> []" using sends data snap by (simp add: tenant_sends_def U)
  have name: "ss_account (tenant_session snap) = Some user \<Longrightarrow> acc_Username user = ''a.app''" for user
    by (auto simp: tenant_session_def sample_account_def)
  have R: "rec_OperatorNamespace sample_reconciler = ''mail''" "kb_Selectors tenant_kube = sample_selectors"
    by (simp_all add: sample_reconciler_def tenant_kube_def sample_kube_def)
  from tenant_isolation [OF tenant_laws tenant_mounts tenant_env_laws reach snap data made, unfolded U R]
  obtain user l c and gw :: "(string \<times> string, unit) MailoutGateway" and account :: MailoutAccount where
    i: "ss_account (tenant_session snap) = Some user" "UsernameFor account = acc_Username user"
      "on_gateway ''mail'' gw account"
      "as_EnforceHeaderFrom (ma_Spec account) = Some False \<or>
       from_ok ascii_unicode (newSenderPolicy ascii_unicode (granted_to sample_selectors gw l)) c"
    by blast
  show ?thesis
    using run sends i name [OF i(1)]
    by (intro exI [of _ p] exI [of _ w] exI [of _ gw] exI [of _ account] exI [of _ c] exI [of _ l]) simp
qed


section \<open>From admission to the pod\<close>

lemma Validate_applyDefaults:
  assumes "Validate cfg = []"
  shows "Validate (applyDefaults cfg) = []"
proof -
  have l: "validate_listeners 0 {} (cfg_Listeners cfg) = []" and u: "validate_upstream (cfg_Upstream cfg) = []"
    using assms by (auto simp: Validate_def)
  have addr: "map lis_Addr (map default_Listener ls) = map lis_Addr ls" for ls
    by (simp add: default_Listener_def)
  have "lis_Mode (default_Listener x) = lis_Mode x" if "x \<in> set (cfg_Listeners cfg)" for x
    using l that by (auto simp: validate_listeners_Nil default_Listener_def TLSModeSTARTTLS_def TLSModeImplicit_def)
  then have "validate_listeners 0 {} (map default_Listener (cfg_Listeners cfg)) = []"
    using l by (auto simp: validate_listeners_Nil fixed_ports_def default_Listener_def o_def filter_map)
  moreover have "validate_upstream (default_Upstream (cfg_Upstream cfg)) = []"
    using u by (simp add: validate_upstream_Nil default_Upstream_def)
  ultimately show ?thesis using assms by (simp add: Validate_def applyDefaults_def)
qed

lemma load_certs_ok:
  "(\<forall>ref \<in> set refs. cert_of L ref \<noteq> None) \<Longrightarrow> \<exists>s'. load_certs L U dn i refs s = Inr s'"
proof (induction refs arbitrary: i s)
  case (Cons r refs)
  then obtain s1 where "load_cert L U dn i r s = Inr s1" by (auto simp: load_cert_iff)
  then show ?case using Cons by simp
qed simp

lemma resolve_filters_ok:
  "(\<forall>m \<in> set ms. \<not> isl (ParseAddress m)) \<Longrightarrow> \<exists>fs. resolve_filters i ms = Inr fs"
proof (induction ms arbitrary: i)
  case (Cons m ms)
  obtain fs where "resolve_filters (Suc i) ms = Inr fs" using Cons by fastforce
  moreover obtain x where "ParseAddress m = Inr x" using Cons.prems by (cases "ParseAddress m") auto
  ultimately show ?case by simp
qed simp

lemma loadable_keys:
  assumes "list_all (loadable R) keys" "distinct (map (\<lambda>k. to_lower U (dk_Domain k)) keys)"
  shows "\<exists>s. newDKIMSigner R U keys = Inr s"
  using assms load_keys_iff [of R U 0 keys "[]"] by (simp add: newDKIMSigner_def)

lemma limiter_for_ok:
  assumes "validate_rateLimit (cfg_RateLimit cfg) = []"
    and "\<And>rl. cfg_RateLimit cfg = Some rl \<Longrightarrow> rls_RootCAPEM (rl_Store rl) = [] \<or> env_pem_ok E (rls_RootCAPEM (rl_Store rl))"
  shows "\<exists>lim w'. limiter_for E prev cfg w = (Inr lim, w')"
  using assms
  by (auto simp: limiter_for_def newLimiter_def validate_rateLimit_Nil Let_def split: option.splits prod.splits)

text \<open>C9: A gateway that the webhook accepts is one its pod can start on. Whatever accounts are rendered with
  it, and whatever was in service before, the configuration loads, provided the mounted certificates
  and keys are what they should be, the CA bundles hold certificates and the spool can be written to.\<close>

theorem admitted_gateway_loads:
  assumes adm: "gateway_validate S U ns cm gw = (ws, [])" and schema: "schema_ok gw"
    and cfg: "GatewayConfig srt inp = Inr cfg" "in_Gateway inp = Some gw"
    and certs: "\<forall>ref \<in> set (tls_Certificates (cfg_TLS cfg)). cert_of (env_certs E) ref \<noteq> None"
    and keys: "\<forall>k \<in> set (cfg_DKIM cfg). \<exists>s. loadDKIMPrivateKey (env_keys E) k = Inr s"
    and pem: "\<forall>pem \<in> {in_UpstreamCAPEM inp, rlc_CAPEM (in_RateLimitStore inp)}. pem = [] \<or> env_pem_ok E pem"
    and spool: "\<forall>w. fst (probeSpool E (lim_SpoolDir (cfg_Limits cfg)) w) = None"
    and hash: "bcrypt_Generate E dummyPassword BcryptCost \<noteq> None"
  shows "\<exists>snap w'. newSnapshot E U cfg prev w = (Some (Inr snap), w') \<and> sn_config snap = applyDefaults cfg"
proof -
  let ?c = "applyDefaults cfg"
  have valid: "Validate ?c = []" using Validate_applyDefaults admitted_gateway_valid [OF adm schema cfg] .
  have c: "cfg_TLS ?c = cfg_TLS cfg" "cfg_DKIM ?c = cfg_DKIM cfg" "cfg_Milters ?c = cfg_Milters cfg"
    "ups_RootCAPEM (cfg_Upstream ?c) = in_UpstreamCAPEM inp" "cfg_RateLimit ?c = cfg_RateLimit cfg"
    "lim_SpoolDir (cfg_Limits ?c) = lim_SpoolDir (cfg_Limits cfg)"
    "cfg_RateLimit cfg = renderRateLimit (gs_RateLimit (gw_Spec gw)) (in_RateLimitStore inp)"
    "cfg_DKIM cfg = [] \<or> cfg_DKIM cfg = renderDKIM (gs_DKIM (gw_Spec gw))"
    using cfg by (auto simp: applyDefaults_def default_Upstream_def default_Limits_def GatewayConfig_def
        renderUpstream_def Let_def split: if_splits)
  obtain store where store: "newCertStore (env_certs E) U (cfg_TLS ?c) = Inr store"
    using valid certs load_certs_ok
    by (fastforce simp: c(1) newCertStore_def Validate_def validate_certificates_Nil)
  obtain relay where relay: "newRelayer (env_pem_ok E) ?c = Inr relay"
    using pem c(4) by (auto simp: newRelayer_def Let_def)
  obtain chain where chain: "newMilterChain ?c = Inr chain"
    using valid resolve_filters_ok [of "cfg_Milters ?c" 0]
    by (auto simp: newMilterChain_def Validate_def validate_milters_Nil)
  have "list_all (loadable (env_keys E)) (cfg_DKIM cfg)" "distinct (map (\<lambda>k. to_lower U (dk_Domain k)) (cfg_DKIM cfg))"
    using c(8) keys schema gateway_validate_Nil(5) [OF adm]
    by (auto simp: renderDKIM_def list_all_iff loadable_def schema_ok_def validateDKIM_def dkim_loop_Nil o_def)
  then obtain signer where signer: "newDKIMSigner (env_keys E) U (cfg_DKIM ?c) = Inr signer"
    using loadable_keys c(2) by metis
  have st: "static_parts E U ?c = Inr (store, relay, chain, signer)"
    using valid store relay chain signer by (simp add: static_parts_def)
  obtain lim w1 where lim: "limiter_for E prev ?c w = (Inr lim, w1)"
    using limiter_for_ok [of ?c E prev w] valid pem c(5,7)
    by (auto simp: Validate_def renderRateLimit_def Let_def split: option.splits)
  obtain w2 where probe: "probeSpool E (lim_SpoolDir (cfg_Limits ?c)) w1 = (None, w2)"
    using spool c(6) by (metis prod.collapse)
  show ?thesis using st lim probe hash
    by (auto simp: newSnapshot_def Let_def newAccountStore_def split: prod.splits)
qed

theorem admitted_gateway_loads_witness:
  "\<exists>cfg snap w'. GatewayConfig (sort_key ra_Username) (empty_input sample_gateway []) = Inr cfg \<and>
     newSnapshot tenant_server ascii_unicode cfg None \<lparr>dw_fds = 0, dw_pools = []\<rparr> = (Some (Inr snap), w') \<and>
     sn_config snap = applyDefaults cfg"
proof -
  let ?inp = "empty_input sample_gateway []" and ?E = tenant_server
  have "case GatewayConfig (sort_key ra_Username) ?inp of
      Inl _ \<Rightarrow> False
    | Inr cfg \<Rightarrow> list_all (\<lambda>ref. cert_of (env_certs ?E) ref \<noteq> None) (tls_Certificates (cfg_TLS cfg)) \<and>
        list_all (\<lambda>k. \<not> isl (loadDKIMPrivateKey (env_keys ?E) k)) (cfg_DKIM cfg)" by code_simp
  then obtain cfg where cfg: "GatewayConfig (sort_key ra_Username) ?inp = Inr cfg"
    and certs: "\<forall>ref \<in> set (tls_Certificates (cfg_TLS cfg)). cert_of (env_certs ?E) ref \<noteq> None"
    and keys: "\<forall>k \<in> set (cfg_DKIM cfg). \<exists>s. loadDKIMPrivateKey (env_keys ?E) k = Inr s"
    by (auto simp: list_all_iff isl_def split: sum.splits) (metis sum.exhaust)
  have gw: "in_Gateway ?inp = Some sample_gateway" by (simp add: empty_input_def)
  have pem: "\<forall>pem \<in> {in_UpstreamCAPEM ?inp, rlc_CAPEM (in_RateLimitStore ?inp)}. pem = [] \<or> env_pem_ok ?E pem"
    by (simp add: empty_input_def)
  have spool: "\<forall>w. fst (probeSpool ?E (lim_SpoolDir (cfg_Limits cfg)) w) = None"
    by (simp add: probeSpool_def tenant_server_def demo_server_def)
  have hash: "bcrypt_Generate ?E dummyPassword BcryptCost \<noteq> None" by (simp add: tenant_server_def demo_server_def)
  show ?thesis using admitted_gateway_loads [OF sample_gateway_validate sample_gateway_schema cfg gw certs keys pem spool hash] cfg by blast
qed

end
